(* ===== verification/Broker_Prelude.thy ===== *)
theory Broker_Prelude
  imports Main "HOL-Library.Word" "HOL-Library.AList" "HOL-Library.Char_ord"
    "HOL-Library.List_Lexorder" "HOL-Library.Sublist"
begin

text \<open>
  Shared vocabulary of the development: the machine integers and byte strings of the Rust
  sources, results and panics as values, big-endian encodings, UTF-8 validation, the string
  operations of the Rust standard library that the broker uses (split, split once, strip prefix),
  association lists as hash maps, and the interface locales that several components implement.
\<close>

unbundle bit_operations_syntax

section \<open>Types, results and panics\<close>

type_synonym u8 = "8 word"
type_synonym u16 = "16 word"
type_synonym u32 = "32 word"
type_synonym u64 = "64 word"
type_synonym bytes = "u8 list"

text \<open>A Rust \<open>Result\<close> is a sum: \<open>Inl\<close> holds the error and \<open>Inr\<close> the value.\<close>

abbreviation Ok :: "'a \<Rightarrow> 'e + 'a" where
  "Ok \<equiv> Inr"

abbreviation Err :: "'e \<Rightarrow> 'e + 'a" where
  "Err \<equiv> Inl"

text \<open>A call that may panic: the panic is a value of its own, apart from the error results.\<close>

datatype 'a run = Panic | Returns 'a

text \<open>The question-mark operator: an error ends the function, a value goes on.\<close>

definition and_then :: "'e + 'a \<Rightarrow> ('a \<Rightarrow> 'e + 'b) \<Rightarrow> 'e + 'b" where
  "and_then m f = (case m of Inl e \<Rightarrow> Inl e | Inr x \<Rightarrow> f x)"

lemma and_then_simps [simp]:
  "and_then (Inl e) f = Inl e"
  "and_then (Inr x) f = f x"
  by (simp_all add: and_then_def)

lemma and_then_cong [fundef_cong]:
  "m = m' \<Longrightarrow> (\<And>x. m' = Inr x \<Longrightarrow> f x = f' x) \<Longrightarrow> and_then m f = and_then m' f'"
  by (cases m') auto

lemma and_then_Inr_iff: "and_then m f = Inr y \<longleftrightarrow> (\<exists>x. m = Inr x \<and> f x = Inr y)"
  by (cases m) auto

lemma and_then_InrE:
  assumes "and_then m f = Inr y"
  obtains x where "m = Inr x" "f x = Inr y"
  using assms by (auto simp: and_then_Inr_iff)

lemma if_Inl_eq_Inr [simp]:
  "(if b then Inl e else m) = Inr x \<longleftrightarrow> \<not> b \<and> m = Inr x"
  "(if b then m else Inl e) = Inr x \<longleftrightarrow> b \<and> m = Inr x"
  by auto

section \<open>Association lists\<close>

lemma length_update_le: "length (AList.update k v al) \<le> Suc (length al)"
  by (induction al) auto

lemma length_update_same: "map_of al k = Some v' \<Longrightarrow> length (AList.update k v al) = length al"
  by (induction al) auto

lemma set_update_subset: "set (AList.update k v al) \<subseteq> insert (k, v) (set al)"
  by (induction al) auto

lemma map_of_fold_delete:
  "map_of (fold AList.delete cs al) k = (if k \<in> set cs then None else map_of al k)"
  by (induction cs arbitrary: al) (auto simp: AList.delete_conv')

lemma distinct_fold_delete: "distinct (map fst al) \<Longrightarrow> distinct (map fst (fold AList.delete cs al))"
  by (induction cs arbitrary: al) (auto simp: AList.distinct_delete)

section \<open>Big-endian integers\<close>

text \<open>The value of a big-endian byte sequence and the \<open>n\<close>-byte big-endian form of a value.\<close>

definition be_value :: "bytes \<Rightarrow> nat" where
  "be_value bs = foldl (\<lambda>acc b. acc * 256 + unat b) 0 bs"

fun be_bytes :: "nat \<Rightarrow> nat \<Rightarrow> bytes" where
  "be_bytes 0 v = []"
| "be_bytes (Suc n) v = be_bytes n (v div 256) @ [of_nat v]"

definition u16_to_be :: "u16 \<Rightarrow> bytes" where
  "u16_to_be w = be_bytes 2 (unat w)"

definition u32_to_be :: "u32 \<Rightarrow> bytes" where
  "u32_to_be w = be_bytes 4 (unat w)"

definition u64_to_be :: "u64 \<Rightarrow> bytes" where
  "u64_to_be w = be_bytes 8 (unat w)"

definition u16_from_be :: "bytes \<Rightarrow> u16" where
  "u16_from_be bs = of_nat (be_value bs)"

definition u32_from_be :: "bytes \<Rightarrow> u32" where
  "u32_from_be bs = of_nat (be_value bs)"

definition u64_from_be :: "bytes \<Rightarrow> u64" where
  "u64_from_be bs = of_nat (be_value bs)"

lemma be_value_Nil [simp]: "be_value [] = 0"
  by (simp add: be_value_def)

lemma be_value_snoc [simp]: "be_value (bs @ [b]) = be_value bs * 256 + unat b"
  by (simp add: be_value_def)

lemma be_value_single [simp]: "be_value [b] = unat b"
  by (simp add: be_value_def)

lemma length_be_bytes [simp]: "length (be_bytes n v) = n"
  by (induction n v rule: be_bytes.induct) simp_all

lemma be_value_be_bytes: "be_value (be_bytes n v) = v mod 256 ^ n"
proof (induction n v rule: be_bytes.induct)
  case (2 n v)
  have "v mod 256 ^ Suc n = 256 * (v div 256 mod 256 ^ n) + v mod 256"
    by (simp add: mod_mult2_eq)
  with "2" show ?case by (simp add: unat_of_nat)
qed simp

lemma be_value_bound: "be_value bs < 256 ^ length bs"
proof (induction bs rule: rev_induct)
  case (snoc b bs)
  have "unat b < 256" using unsigned_less [of b] by simp
  moreover have "be_value bs * 256 + 256 \<le> 256 ^ length bs * 256"
    using snoc by (metis Suc_leI add_mult_distrib mult_1 mult_le_mono1 Suc_eq_plus1)
  ultimately show ?case by (simp add: mult.commute)
qed simp

lemma be_bytes_be_value: "be_bytes (length bs) (be_value bs) = bs"
proof (induction bs rule: rev_induct)
  case (snoc b bs)
  have b: "unat b < 256" using unsigned_less [of b] by simp
  have "(of_nat (be_value bs * 256 + unat b) :: u8) = b"
  proof -
    have "(of_nat 256 :: u8) = 0" by simp
    then have "(of_nat (be_value bs * 256) :: u8) = 0" by (simp only: of_nat_mult mult_zero_right)
    then show ?thesis by (simp only: of_nat_add) simp
  qed
  with b snoc show ?case by simp
qed simp

lemma unat_bounds:
  "unat (a :: u8) < 256" "unat (b :: u16) < 65536" "unat (c :: u32) < 4294967296"
  "unat (d :: u64) < 18446744073709551616"
  using unsigned_less [of a, where 'a = nat] unsigned_less [of b, where 'a = nat]
    unsigned_less [of c, where 'a = nat] unsigned_less [of d, where 'a = nat] by simp_all

lemma length_to_be [simp]:
  "length (u16_to_be w) = 2" "length (u32_to_be x) = 4" "length (u64_to_be y) = 8"
  by (simp_all add: u16_to_be_def u32_to_be_def u64_to_be_def)

lemma from_be_to_be [simp]:
  "u16_from_be (u16_to_be w) = w"
  "u32_from_be (u32_to_be x) = x"
  "u64_from_be (u64_to_be y) = y"
  using unat_bounds(2) [of w] unat_bounds(3) [of x] unat_bounds(4) [of y]
  by (simp_all add: u16_from_be_def u16_to_be_def u32_from_be_def u32_to_be_def
      u64_from_be_def u64_to_be_def be_value_be_bytes)

lemma to_be_from_be:
  "length bs = 2 \<Longrightarrow> u16_to_be (u16_from_be bs) = bs"
  "length cs = 4 \<Longrightarrow> u32_to_be (u32_from_be cs) = cs"
  "length ds = 8 \<Longrightarrow> u64_to_be (u64_from_be ds) = ds"
  using be_value_bound [of bs] be_value_bound [of cs] be_value_bound [of ds]
    be_bytes_be_value [of bs] be_bytes_be_value [of cs] be_bytes_be_value [of ds]
  by (simp_all add: u16_from_be_def u16_to_be_def u32_from_be_def u32_to_be_def
      u64_from_be_def u64_to_be_def unat_of_nat)

lemma to_be_not_Nil [simp]:
  "u16_to_be w \<noteq> []" "u32_to_be x \<noteq> []" "u64_to_be y \<noteq> []"
  by (metis length_0_conv length_to_be zero_neq_numeral)+

section \<open>Bits of a byte\<close>

lemma byte_bits: "(w :: u8) AND 0x01 \<noteq> 0 \<longleftrightarrow> bit w 0" "w AND 0x02 \<noteq> 0 \<longleftrightarrow> bit w 1"
  "w AND 0x04 \<noteq> 0 \<longleftrightarrow> bit w 2" "w AND 0x08 \<noteq> 0 \<longleftrightarrow> bit w 3" "w AND 0x20 \<noteq> 0 \<longleftrightarrow> bit w 5"
  "w AND 0x40 \<noteq> 0 \<longleftrightarrow> bit w 6" "w AND 0x80 \<noteq> 0 \<longleftrightarrow> bit w 7"
  using and_exp_eq_0_iff_not_bit [of w 0] and_exp_eq_0_iff_not_bit [of w 1]
    and_exp_eq_0_iff_not_bit [of w 2] and_exp_eq_0_iff_not_bit [of w 3] and_exp_eq_0_iff_not_bit [of w 5]
    and_exp_eq_0_iff_not_bit [of w 6] and_exp_eq_0_iff_not_bit [of w 7]
  by simp_all

lemma byte_eq_bits: "(v :: u8) = w \<longleftrightarrow> (\<forall>n\<in>{0,1,2,3,4,5,6,7}. bit v n = bit w n)"
proof
  assume *: "\<forall>n\<in>{0,1,2,3,4,5,6,7}. bit v n = bit w n"
  show "v = w"
  proof (rule bit_word_eqI)
    fix n assume "n < LENGTH(8)"
    then have "n \<in> {0,1,2,3,4,5,6,7}" by (simp) presburger
    with * show "bit v n = bit w n" by blast
  qed
qed simp

lemma and_three_cases: "(q :: u8) AND 3 \<in> {0, 1, 2, 3}"
proof -
  have "(3 :: u8) = mask 2" by (simp add: mask_eq_exp_minus_1)
  then have "q AND 3 = take_bit 2 q" by (simp only: take_bit_eq_mask)
  then have "unat (q AND 3) = take_bit 2 (unat q)" by (simp only: unsigned_take_bit_eq)
  then have "unat (q AND 3) < 4" using take_bit_nat_less_exp [of 2 "unat q"] by simp
  then have "unat (q AND 3) \<in> {0, 1, 2, 3}" by auto
  then show ?thesis by (auto simp: word_unat_eq_iff)
qed

lemma qos_and_three:
  assumes "(q :: u8) \<le> 2"
  shows "q AND 3 = q"
proof -
  have "unat q \<le> 2" using assms by (simp add: word_le_nat_alt)
  then have "unat q \<in> {0, 1, 2}" by auto
  then have "q = 0 \<or> q = 1 \<or> q = 2" by (auto simp: word_unat_eq_iff)
  then show ?thesis by auto
qed

lemma qos_le_two: "(q :: u8) \<le> 2 \<Longrightarrow> q = 0 \<or> q = 1 \<or> q = 2 \<or> q = 3"
  using and_three_cases [of q] qos_and_three [of q] by auto

section \<open>Strings as UTF-8 byte sequences\<close>

text \<open>
  A Rust \<open>str\<close> is a byte sequence that holds valid UTF-8; its length counts bytes and its order is
  the order of the bytes. A model string is the list of those bytes, written as characters so
  that literals stay readable; \<open>as_bytes\<close> is the view as \<open>u8\<close> values.
\<close>

definition as_bytes :: "string \<Rightarrow> bytes" where
  "as_bytes s = map (\<lambda>c. of_nat (of_char c)) s"

definition of_bytes :: "bytes \<Rightarrow> string" where
  "of_bytes bs = map (\<lambda>b. char_of (unat b)) bs"

lemma of_bytes_as_bytes [simp]: "of_bytes (as_bytes s) = s"
  by (induction s) (auto simp: of_bytes_def as_bytes_def unat_of_nat)

lemma as_bytes_of_bytes [simp]: "as_bytes (of_bytes bs) = bs"
proof (induction bs)
  case (Cons b bs)
  have "unat b < 256" using unsigned_less [of b] by simp
  with Cons show ?case by (simp add: of_bytes_def as_bytes_def)
qed (simp add: of_bytes_def as_bytes_def)

lemma length_as_bytes [simp]: "length (as_bytes s) = length s"
  by (simp add: as_bytes_def)

lemma length_of_bytes [simp]: "length (of_bytes bs) = length bs"
  by (simp add: of_bytes_def)

lemma as_bytes_eq_iff [simp]: "as_bytes s = as_bytes t \<longleftrightarrow> s = t"
  by (metis of_bytes_as_bytes)

lemma as_bytes_Nil_iff [simp]: "as_bytes s = [] \<longleftrightarrow> s = []"
  by (simp add: as_bytes_def)

lemma of_bytes_Nil_iff [simp]: "of_bytes bs = [] \<longleftrightarrow> bs = []"
  by (simp add: of_bytes_def)

text \<open>A continuation byte: bits \<open>10xxxxxx\<close>.\<close>

definition is_cont :: "u8 \<Rightarrow> bool" where
  "is_cont b \<longleftrightarrow> 0x80 \<le> b \<and> b \<le> 0xBF"

text \<open>The well-formed byte sequences that \<open>std::str::from_utf8\<close> accepts.\<close>

fun utf8_valid :: "bytes \<Rightarrow> bool" where
  "utf8_valid [] = True"
| "utf8_valid (b # bs) =
    (if b < 0x80 then utf8_valid bs
     else if 0xC2 \<le> b \<and> b \<le> 0xDF then
       (case bs of c # r \<Rightarrow> is_cont c \<and> utf8_valid r | _ \<Rightarrow> False)
     else if 0xE0 \<le> b \<and> b \<le> 0xEF then
       (case bs of c # d # r \<Rightarrow>
          is_cont c \<and> (b = 0xE0 \<longrightarrow> 0xA0 \<le> c) \<and> (b = 0xED \<longrightarrow> c \<le> 0x9F) \<and>
          is_cont d \<and> utf8_valid r
        | _ \<Rightarrow> False)
     else if 0xF0 \<le> b \<and> b \<le> 0xF4 then
       (case bs of c # d # e # r \<Rightarrow>
          is_cont c \<and> (b = 0xF0 \<longrightarrow> 0x90 \<le> c) \<and> (b = 0xF4 \<longrightarrow> c \<le> 0x8F) \<and>
          is_cont d \<and> is_cont e \<and> utf8_valid r
        | _ \<Rightarrow> False)
     else False)"

definition from_utf8 :: "bytes \<Rightarrow> string option" where
  "from_utf8 bs = (if utf8_valid bs then Some (of_bytes bs) else None)"

text \<open>\<open>valid_str\<close>: the strings that can exist as a Rust \<open>str\<close>.\<close>

definition valid_str :: "string \<Rightarrow> bool" where
  "valid_str s \<longleftrightarrow> utf8_valid (as_bytes s)"

lemma from_utf8_as_bytes [simp]: "valid_str s \<Longrightarrow> from_utf8 (as_bytes s) = Some s"
  by (simp add: from_utf8_def valid_str_def)

lemma from_utf8_SomeD: "from_utf8 bs = Some s \<Longrightarrow> bs = as_bytes s \<and> valid_str s"
  by (auto simp: from_utf8_def valid_str_def split: if_splits)

text \<open>Seven-bit text is valid UTF-8.\<close>

lemma valid_str_ascii: "\<forall>c\<in>set s. of_char c < (128 :: nat) \<Longrightarrow> valid_str s"
proof (induction s)
  case (Cons c s)
  then have "(of_nat (of_char c) :: u8) < 0x80" by (simp add: word_less_nat_alt unat_of_nat)
  with Cons show ?case by (simp add: valid_str_def as_bytes_def)
qed (simp add: valid_str_def as_bytes_def)

section \<open>String operations of the standard library\<close>

text \<open>\<open>s.split(c)\<close>: never empty, adjacent separators give empty parts.\<close>

fun split_on :: "char \<Rightarrow> string \<Rightarrow> string list" where
  "split_on c [] = [[]]"
| "split_on c (x # xs) =
    (if x = c then [] # split_on c xs
     else (case split_on c xs of [] \<Rightarrow> [[x]] | y # ys \<Rightarrow> (x # y) # ys))"

text \<open>\<open>s.split_once(c)\<close>: the parts around the first separator.\<close>

fun split_once :: "char \<Rightarrow> string \<Rightarrow> (string \<times> string) option" where
  "split_once c [] = None"
| "split_once c (x # xs) =
    (if x = c then Some ([], xs)
     else map_option (\<lambda>(h, t). (x # h, t)) (split_once c xs))"

text \<open>\<open>s.strip_prefix(p)\<close>.\<close>

fun strip_prefix :: "string \<Rightarrow> string \<Rightarrow> string option" where
  "strip_prefix [] s = Some s"
| "strip_prefix (p # ps) [] = None"
| "strip_prefix (p # ps) (x # xs) = (if p = x then strip_prefix ps xs else None)"

lemma split_on_not_Nil [simp]: "split_on c s \<noteq> []"
  by (cases s) (auto split: list.split)

lemma split_once_None: "split_once c s = None \<longleftrightarrow> c \<notin> set s"
  by (induction s) auto

lemma split_once_Some:
  "split_once c s = Some (h, t) \<longleftrightarrow> s = h @ c # t \<and> c \<notin> set h"
proof (induction s arbitrary: h)
  case (Cons x xs)
  show ?case
  proof (cases "x = c")
    case True
    then show ?thesis by (cases h) auto
  next
    case False
    then show ?thesis using Cons by (cases h) auto
  qed
qed simp

lemma split_on_none: "c \<notin> set s \<Longrightarrow> split_on c s = [s]"
  by (induction s) auto

lemma split_on_append: "c \<notin> set h \<Longrightarrow> split_on c (h @ c # t) = h # split_on c t"
  by (induction h) auto

lemma split_on_split_once:
  "split_on c s = (case split_once c s of None \<Rightarrow> [s] | Some (h, t) \<Rightarrow> h # split_on c t)"
proof (cases "split_once c s")
  case None
  then have "c \<notin> set s" by (simp add: split_once_None)
  with None show ?thesis by (simp add: split_on_none)
next
  case (Some p)
  obtain h t where p: "p = (h, t)" by (cases p)
  with Some have "s = h @ c # t" and "c \<notin> set h" by (simp_all add: split_once_Some)
  with Some p show ?thesis by (simp add: split_on_append)
qed

lemma strip_prefix_Some: "strip_prefix p s = Some r \<longleftrightarrow> s = p @ r"
  by (induction p s rule: strip_prefix.induct) auto

lemma split_on_eq_iff [simp]: "split_on c s = split_on c t \<longleftrightarrow> s = t"
proof
  assume eq: "split_on c s = split_on c t"
  define join where "join = (\<lambda>ls. case ls of [] \<Rightarrow> [] | l # ls' \<Rightarrow> l @ concat (map ((#) c) ls'))"
  have "join (split_on c u) = u" for u
  proof (induction u)
    case (Cons x xs)
    then show ?case by (auto simp: join_def split: list.splits)
  qed (simp add: join_def)
  with eq show "s = t" by metis
qed simp

lemma split_on_levels: "l \<in> set (split_on c s) \<Longrightarrow> c \<notin> set l"
proof (induction s arbitrary: l)
  case (Cons x xs)
  then show ?case by (auto split: list.splits if_splits)
qed simp

lemma set_split_on: "l \<in> set (split_on c s) \<Longrightarrow> set l \<subseteq> set s"
proof (induction s arbitrary: l)
  case (Cons x xs)
  show ?case
  proof (cases "split_on c xs")
    case Nil
    then show ?thesis by simp
  next
    case C: (Cons y ys)
    then have "set y \<subseteq> set xs" and "\<And>z. z \<in> set ys \<Longrightarrow> set z \<subseteq> set xs"
      using Cons.IH by auto
    with C Cons.prems show ?thesis by (fastforce split: if_splits)
  qed
qed simp

text \<open>\<open>s.find(c)\<close>: the byte index of the first occurrence of an ASCII character.\<close>

fun str_find :: "char \<Rightarrow> string \<Rightarrow> nat option" where
  "str_find c [] = None"
| "str_find c (x # xs) = (if x = c then Some 0 else map_option Suc (str_find c xs))"

lemma str_find_None: "str_find c s = None \<longleftrightarrow> c \<notin> set s"
  by (induction s) auto

lemma str_find_Some:
  "str_find c s = Some i \<longleftrightarrow> i < length s \<and> s ! i = c \<and> c \<notin> set (take i s)"
proof (induction s arbitrary: i)
  case (Cons x xs)
  then show ?case by (cases i) auto
qed simp

text \<open>
  \<open>s.is_char_boundary(i)\<close>: slicing a \<open>str\<close> at an index inside a multi-byte character panics.
\<close>

definition is_char_boundary :: "string \<Rightarrow> nat \<Rightarrow> bool" where
  "is_char_boundary s i \<longleftrightarrow>
     i = 0 \<or> i = length s \<or> (i < length s \<and> \<not> is_cont (as_bytes s ! i))"

definition str_slice :: "string \<Rightarrow> nat \<Rightarrow> nat \<Rightarrow> string run" where
  "str_slice s i j =
     (if i \<le> j \<and> j \<le> length s \<and> is_char_boundary s i \<and> is_char_boundary s j
      then Returns (take (j - i) (drop i s)) else Panic)"

text \<open>Decimal rendering of a number, as the formatting macros do it.\<close>

fun show_nat :: "nat \<Rightarrow> string" where
  "show_nat n =
     (if n < 10 then [char_of (48 + n)] else show_nat (n div 10) @ [char_of (48 + n mod 10)])"

declare show_nat.simps [simp del]

section \<open>Interfaces: exact codecs\<close>

text \<open>
  An exact codec reads what its printer writes and nothing else: a read succeeds with a value and a
  rest exactly when the value is good and the input is its printed form followed by the rest.
\<close>

locale exact_codec =
  fixes read :: "bytes \<Rightarrow> 'e + ('a \<times> bytes)"
    and put :: "'a \<Rightarrow> bytes"
    and good :: "'a \<Rightarrow> bool"
  assumes read_Ok_iff: "read buf = Inr (x, r) \<longleftrightarrow> good x \<and> buf = put x @ r"
begin

lemma read_put: "good x \<Longrightarrow> read (put x @ r) = Inr (x, r)"
  by (simp add: read_Ok_iff)

lemma prefix_free:
  assumes "good x" and "good y" and "put x @ r = put y @ s"
  shows "x = y \<and> r = s"
proof -
  have "(Inr (x, r) :: 'e + ('a \<times> bytes)) = read (put x @ r)" using assms(1) by (simp only: read_put)
  also have "\<dots> = Inr (y, s)" using assms(2) by (simp only: assms(3) read_put)
  finally show ?thesis by simp
qed

lemma put_inject: "good x \<Longrightarrow> good y \<Longrightarrow> put x = put y \<longleftrightarrow> x = y"
  using prefix_free [of x y "[]" "[]"] by auto

end

text \<open>A loop that reads entries of an exact codec until the input is used up.\<close>

locale exact_list_codec = exact_codec +
  fixes loop :: "bytes \<Rightarrow> 'a + 'b list"
  assumes put_not_Nil: "good x \<Longrightarrow> put x \<noteq> []"
    and loop_rec: "loop buf =
      (if buf = [] then Inr []
       else case read buf of
         Inl e \<Rightarrow> Inl e
       | Inr (x, r) \<Rightarrow> and_then (loop r) (\<lambda>xs. Inr (x # xs)))"
begin

lemma loop_put: "\<forall>x\<in>set xs. good x \<Longrightarrow> loop (concat (map put xs)) = Inr xs"
proof (induction xs)
  case Nil
  then show ?case by (subst loop_rec) simp
next
  case (Cons x xs)
  then have "loop (put x @ concat (map put xs)) = Inr (x # xs)"
    by (subst loop_rec) (simp add: read_put put_not_Nil)
  then show ?case by simp
qed

lemma loop_Ok_iff:
  "loop buf = Inr xs \<longleftrightarrow> (\<forall>x\<in>set xs. good x) \<and> buf = concat (map put xs)"
proof
  show "loop buf = Inr xs \<Longrightarrow> (\<forall>x\<in>set xs. good x) \<and> buf = concat (map put xs)"
  proof (induction "length buf" arbitrary: buf xs rule: less_induct)
    case less
    show ?case
    proof (cases "buf = []")
      case True
      with less.prems show ?thesis by (simp add: loop_rec [of "[]"])
    next
      case False
      with less.prems obtain x r ys where rd: "read buf = Inr (x, r)" and ys: "loop r = Inr ys"
        and xs: "xs = x # ys"
        by (subst (asm) loop_rec) (auto simp: and_then_Inr_iff split: sum.splits)
      from rd have x: "good x" "buf = put x @ r" by (simp_all add: read_Ok_iff)
      with put_not_Nil [of x] have "length r < length buf" by simp
      from less.hyps [OF this ys] x xs show ?thesis by auto
    qed
  qed
qed (auto simp: loop_put)

end

section \<open>Interface: incremental consumers of a byte stream\<close>

text \<open>
  A consumer looks at the buffered bytes in its state: it asks for more bytes, ends with a result,
  or uses up some bytes and goes on in a new state. \<open>drain\<close> runs it as far as the buffered bytes
  allow; \<open>feed\<close> runs it on each chunk as it arrives, with the unused bytes kept in front.
\<close>

datatype ('s, 'r) progress = More | Stop 'r | Next 's bytes

function drain :: "('s \<Rightarrow> bytes \<Rightarrow> ('s, 'r) progress) \<Rightarrow> 's \<Rightarrow> bytes \<Rightarrow> 'r + 's \<times> bytes" where
  "drain step st buf =
     (case step st buf of
        More \<Rightarrow> Inr (st, buf)
      | Stop r \<Rightarrow> Inl r
      | Next st' rest \<Rightarrow> if length rest < length buf then drain step st' rest else Inr (st', rest))"
  by pat_completeness auto

termination drain
  by (relation "measure (\<lambda>(_, _, buf). length buf)") auto

declare drain.simps [simp del]

fun feed :: "('s \<Rightarrow> bytes \<Rightarrow> ('s, 'r) progress) \<Rightarrow> 'r + 's \<times> bytes \<Rightarrow> bytes list \<Rightarrow> 'r + 's \<times> bytes" where
  "feed step (Inl r) chunks = Inl r"
| "feed step (Inr (st, buf)) [] = Inr (st, buf)"
| "feed step (Inr (st, buf)) (c # cs) = feed step (drain step st (buf @ c)) cs"

text \<open>
  The contract: a decision taken on some bytes stays the same when more bytes follow, and going on
  uses up bytes. Then the outcome does not depend on how the stream is cut into chunks.
\<close>

locale incremental =
  fixes step :: "'s \<Rightarrow> bytes \<Rightarrow> ('s, 'r) progress"
  assumes Next_append: "step st buf = Next st' rest \<Longrightarrow> step st (buf @ ext) = Next st' (rest @ ext)"
    and Stop_append: "step st buf = Stop r \<Longrightarrow> step st (buf @ ext) = Stop r"
    and Next_shorter: "step st buf = Next st' rest \<Longrightarrow> length rest < length buf"
begin

lemma drain_append:
  "drain step st (buf @ ext) =
     (case drain step st buf of Inl r \<Rightarrow> Inl r | Inr (st', rest) \<Rightarrow> drain step st' (rest @ ext))"
proof (induction "length buf" arbitrary: st buf rule: less_induct)
  case less
  show ?case
  proof (cases "step st buf")
    case More
    then have "drain step st buf = Inr (st, buf)" by (simp add: drain.simps)
    then show ?thesis by simp
  next
    case (Stop r)
    then show ?thesis by (simp add: drain.simps [of step st] Stop_append)
  next
    case (Next st' rest)
    then have "length rest < length buf" by (rule Next_shorter)
    with less [of rest st'] Next show ?thesis
      by (simp add: drain.simps [of step st] Next_append)
  qed
qed

lemma feed_concat: "feed step (drain step st buf) chunks = drain step st (buf @ concat chunks)"
proof (induction chunks arbitrary: st buf)
  case Nil
  show ?case by (cases "drain step st buf") auto
next
  case (Cons c cs)
  show ?case
  proof (cases "drain step st buf")
    case (Inl r)
    then show ?thesis by (simp add: drain_append)
  next
    case (Inr p)
    then show ?thesis
      using Cons.IH [of "fst p" "snd p @ c"] by (cases p) (simp add: drain_append [of st buf])
  qed
qed

end

end
