(* ===== verification/Topics.thy ===== *)
theory Topics
  imports Broker_Prelude
begin

text \<open>
  The broker-protocol crate without the wire codec: quality of service, topics, topic filters and
  their matching (\<^verbatim>\<open>crates/broker-protocol/src/lib.rs\<close>), and the topic-alias helpers of MQTT 5
  (\<^verbatim>\<open>crates/broker-protocol/src/v5.rs\<close>). The index loop of the filter match is related to a
  declarative reading of the MQTT wildcard rules, and the validation of a filter is characterised
  on every branch, the panic included.
\<close>

section \<open>Quality of service, topics and filters\<close>

datatype protocol_error = InvalidQoS u8 | InvalidTopic string | EmptyTopicLevel

datatype qos = AtMostOnce | AtLeastOnce | ExactlyOnce

definition qos_try_from :: "u8 \<Rightarrow> protocol_error + qos" where
  "qos_try_from v =
     (if v = 0 then Ok AtMostOnce
      else if v = 1 then Ok AtLeastOnce
      else if v = 2 then Ok ExactlyOnce
      else Err (InvalidQoS v))"

fun qos_to_u8 :: "qos \<Rightarrow> u8" where
  "qos_to_u8 AtMostOnce = 0"
| "qos_to_u8 AtLeastOnce = 1"
| "qos_to_u8 ExactlyOnce = 2"

datatype topic = Topic string

primrec topic_as_str :: "topic \<Rightarrow> string" where
  "topic_as_str (Topic s) = s"

definition topic_validate :: "string \<Rightarrow> protocol_error + unit" where
  "topic_validate s =
     (if s = [] then Err (InvalidTopic ''topic cannot be empty'')
      else if CHR ''+'' \<in> set s \<or> CHR ''#'' \<in> set s
      then Err (InvalidTopic ''concrete topic cannot contain wildcards'')
      else Ok ())"

definition topic_new :: "string \<Rightarrow> protocol_error + topic" where
  "topic_new s = and_then (topic_validate s) (\<lambda>_. Ok (Topic s))"

datatype topic_filter = TopicFilter string

primrec filter_as_str :: "topic_filter \<Rightarrow> string" where
  "filter_as_str (TopicFilter s) = s"

definition hash_not_last_msg :: string where
  "hash_not_last_msg = CHR 0x27 # ''#'' @ CHR 0x27 # '' wildcard must be the final level''"

definition hash_prefix_msg :: string where
  "hash_prefix_msg =
     CHR 0x27 # ''#'' @ CHR 0x27 # '' wildcard must be prefixed with '' @ [CHR 0x27, CHR ''/'', CHR 0x27]"

text \<open>
  The slice of one byte before the wildcard is taken with a string index, so it panics when that
  byte is inside a multi-byte character.
\<close>

definition filter_validate :: "string \<Rightarrow> (protocol_error + unit) run" where
  "filter_validate s =
     (if s = [] then Returns (Err (InvalidTopic ''filter cannot be empty''))
      else case str_find (CHR ''#'') s of
        None \<Rightarrow> Returns (Ok ())
      | Some pos \<Rightarrow>
          if pos \<noteq> length s - 1
          then Returns (Err (InvalidTopic hash_not_last_msg))
          else if pos > 0 then
            (case str_slice s (pos - 1) pos of
               Panic \<Rightarrow> Panic
             | Returns before \<Rightarrow>
                 if before \<noteq> ''/''
                 then Returns (Err (InvalidTopic hash_prefix_msg))
                 else Returns (Ok ()))
          else Returns (Ok ()))"

definition filter_new :: "string \<Rightarrow> (protocol_error + topic_filter) run" where
  "filter_new s =
     (case filter_validate s of
        Panic \<Rightarrow> Panic
      | Returns r \<Rightarrow> Returns (and_then r (\<lambda>_. Ok (TopicFilter s))))"

abbreviation levels :: "string \<Rightarrow> string list" where
  "levels \<equiv> split_on (CHR ''/'')"

text \<open>
  The loop of \<open>TopicFilter::matches\<close>: the remaining filter levels, all topic levels, and the
  index of the topic level to compare next.
\<close>

fun matches_loop :: "string list \<Rightarrow> string list \<Rightarrow> nat \<Rightarrow> bool" where
  "matches_loop [] ts i = (i = length ts)"
| "matches_loop (f # fs) ts i =
    (if f = ''#'' then True
     else if i \<ge> length ts then False
     else if f = ''+'' \<or> f = ts ! i then
       (if fs = [] \<and> i + 1 < length ts then False else matches_loop fs ts (i + 1))
     else False)"

definition filter_matches :: "topic_filter \<Rightarrow> topic \<Rightarrow> bool" where
  "filter_matches f t = matches_loop (levels (filter_as_str f)) (levels (topic_as_str t)) 0"

section \<open>Topic aliases\<close>

definition NO_TOPIC_ALIAS :: u16 where
  "NO_TOPIC_ALIAS = 0"

definition alias_in_range :: "u16 \<Rightarrow> u16 \<Rightarrow> bool" where
  "alias_in_range alias mx \<longleftrightarrow> alias \<noteq> NO_TOPIC_ALIAS \<and> mx \<noteq> 0 \<and> alias \<le> mx"

definition check_inbound_alias :: "u16 \<Rightarrow> u16 \<Rightarrow> protocol_error + unit" where
  "check_inbound_alias alias mx =
     (if alias = NO_TOPIC_ALIAS then Err (InvalidTopic ''topic alias 0 is never valid'')
      else if mx = 0 \<or> alias > mx
      then Err (InvalidTopic (''topic alias '' @ show_nat (unat alias) @
             '' above negotiated maximum '' @ show_nat (unat mx)))
      else Ok ())"

definition encode_topic_alias :: "u16 \<Rightarrow> bytes" where
  "encode_topic_alias alias = u16_to_be alias"

definition decode_topic_alias :: "bytes \<Rightarrow> u16 option" where
  "decode_topic_alias bs = (if length bs < 2 then None else Some (u16_from_be (take 2 bs)))"

definition encode_alias_maximum :: "u16 \<Rightarrow> bytes" where
  "encode_alias_maximum mx = u16_to_be mx"

definition decode_alias_maximum :: "bytes \<Rightarrow> u16 option" where
  "decode_alias_maximum bs = (if length bs < 2 then None else Some (u16_from_be (take 2 bs)))"

section \<open>The wildcard rules, declaratively\<close>

text \<open>One level: \<open>+\<close> matches every level, other filter levels match themselves.\<close>

definition level_ok :: "string \<Rightarrow> string \<Rightarrow> bool" where
  "level_ok f t \<longleftrightarrow> f = ''+'' \<or> f = t"

text \<open>All levels: \<open>#\<close> matches the rest of the topic, the empty rest included.\<close>

fun levels_match :: "string list \<Rightarrow> string list \<Rightarrow> bool" where
  "levels_match [] ts = (ts = [])"
| "levels_match (f # fs) ts =
    (f = ''#'' \<or> (case ts of [] \<Rightarrow> False | t # ts' \<Rightarrow> level_ok f t \<and> levels_match fs ts'))"

section \<open>Lemmas\<close>

lemma qos_try_from_to_u8 [simp]: "qos_try_from (qos_to_u8 q) = Ok q"
  by (cases q) (simp_all add: qos_try_from_def)

lemma qos_try_from_Ok: "qos_try_from v = Ok q \<longleftrightarrow> v = qos_to_u8 q"
  by (cases q) (auto simp: qos_try_from_def)

lemma qos_to_u8_inject [simp]: "qos_to_u8 p = qos_to_u8 q \<longleftrightarrow> p = q"
  by (cases p; cases q) simp_all

lemma topic_validate_Ok:
  "topic_validate s = Ok () \<longleftrightarrow> s \<noteq> [] \<and> CHR ''+'' \<notin> set s \<and> CHR ''#'' \<notin> set s"
  by (auto simp: topic_validate_def)

lemma topic_new_Ok:
  "topic_new s = Ok t \<longleftrightarrow> t = Topic s \<and> s \<noteq> [] \<and> CHR ''+'' \<notin> set s \<and> CHR ''#'' \<notin> set s"
  by (auto simp: topic_new_def topic_validate_def and_then_Inr_iff)

lemma matches_loop_levels_match:
  "i \<le> length ts \<Longrightarrow> matches_loop fs ts i = levels_match fs (drop i ts)"
proof (induction fs arbitrary: i)
  case (Cons f fs)
  show ?case
  proof (cases "i < length ts")
    case True
    then have "drop i ts = ts ! i # drop (Suc i) ts" by (simp add: Cons_nth_drop_Suc)
    moreover have "fs = [] \<Longrightarrow> matches_loop fs ts (Suc i) = (Suc i = length ts)" by simp
    ultimately show ?thesis
      using Cons.IH [of "Suc i"] True by (auto simp: level_ok_def)
  qed (use Cons in auto)
qed auto

lemma filter_matches_levels:
  "filter_matches f t = levels_match (levels (filter_as_str f)) (levels (topic_as_str t))"
  by (simp add: filter_matches_def matches_loop_levels_match)

lemma levels_match_no_hash:
  "''#'' \<notin> set fs \<Longrightarrow> levels_match fs ts = list_all2 level_ok fs ts"
  by (induction fs arbitrary: ts) (auto split: list.split)

lemma levels_match_hash:
  "''#'' \<notin> set fs \<Longrightarrow> levels_match (fs @ [''#'']) ts \<longleftrightarrow>
     length fs \<le> length ts \<and> list_all2 level_ok fs (take (length fs) ts)"
proof (induction fs arbitrary: ts)
  case (Cons f fs)
  then show ?case by (cases ts) auto
qed simp

text \<open>A filter whose first \<open>#\<close> is its last byte, split there.\<close>

lemma hash_last_cases:
  assumes "str_find (CHR ''#'') s = Some pos" and "pos = length s - 1"
  obtains p where "s = p @ ''#''" and "CHR ''#'' \<notin> set p" and "pos = length p"
proof -
  from assms have pos: "pos < length s" "s ! pos = CHR ''#''" "CHR ''#'' \<notin> set (take pos s)"
    by (simp_all add: str_find_Some)
  with assms(2) have "s = take pos s @ ''#''"
    by (metis Suc_pred' append_take_drop_id Cons_nth_drop_Suc drop_all le_refl length_0_conv
        length_greater_0_conv less_nat_zero_code)
  moreover from pos have "pos = length (take pos s)" by simp
  ultimately show ?thesis using that pos(3) by blast
qed

lemma str_find_hash_last [simp]:
  "CHR ''#'' \<notin> set p \<Longrightarrow> str_find (CHR ''#'') (p @ ''#'') = Some (length p)"
  by (auto simp: str_find_Some)

lemma str_slice_before_last:
  assumes "s = q @ [b, CHR ''#'']"
  shows "str_slice s (length q) (Suc (length q)) =
     (if q = [] \<or> \<not> is_cont (of_nat (of_char b)) then Returns [b] else Panic)"
  using assms by (auto simp: str_slice_def is_char_boundary_def as_bytes_def nth_append is_cont_def)

lemma filter_validate_before_hash:
  assumes "CHR ''#'' \<notin> set (q @ [b])"
  shows "filter_validate (q @ [b, CHR ''#'']) =
     (if q \<noteq> [] \<and> is_cont (of_nat (of_char b)) then Panic
      else if b = CHR ''/'' then Returns (Ok ())
      else Returns (Err (InvalidTopic hash_prefix_msg)))"
  using assms str_find_hash_last [of "q @ [b]"] str_slice_before_last [OF refl, of q b]
  by (simp add: filter_validate_def)

lemma filter_validate_cases:
  obtains (empty) "s = []"
  | (no_hash) "s \<noteq> []" "CHR ''#'' \<notin> set s" "filter_validate s = Returns (Ok ())"
  | (inner) m where "CHR ''#'' \<in> set (butlast s)" "filter_validate s = Returns (Err m)"
  | (single) "s = ''#''" "filter_validate s = Returns (Ok ())"
  | (last) q b where "s = q @ [b, CHR ''#'']" "CHR ''#'' \<notin> set (q @ [b])"
proof (cases "str_find (CHR ''#'') s")
  case None
  then have "s \<noteq> [] \<Longrightarrow> filter_validate s = Returns (Ok ())" by (simp add: filter_validate_def)
  moreover from None have "CHR ''#'' \<notin> set s" by (simp add: str_find_None)
  ultimately show ?thesis using empty no_hash by blast
next
  case (Some pos)
  show ?thesis
  proof (cases "pos = length s - 1")
    case True
    obtain p where p: "s = p @ ''#''" "CHR ''#'' \<notin> set p"
      by (rule hash_last_cases [OF Some True])
    then show ?thesis
      using single last by (cases p rule: rev_cases) (auto simp: filter_validate_def)
  next
    case False
    with Some have "pos < length (butlast s)" and "butlast s ! pos = CHR ''#''"
      by (auto simp: str_find_Some nth_butlast)
    then have "CHR ''#'' \<in> set (butlast s)" by (metis nth_mem)
    moreover have "filter_validate s = Returns (Err (InvalidTopic hash_not_last_msg))"
      using False Some by (cases s) (auto simp: filter_validate_def)
    ultimately show ?thesis by (rule inner)
  qed
qed

text \<open>The accepted filters: no \<open>#\<close> at all, \<open>#\<close> alone, or a final level \<open>#\<close>.\<close>

definition filter_shape :: "string \<Rightarrow> bool" where
  "filter_shape s \<longleftrightarrow>
     s \<noteq> [] \<and> (CHR ''#'' \<notin> set s \<or> s = ''#'' \<or> (\<exists>p. s = p @ ''/#'' \<and> CHR ''#'' \<notin> set p))"

text \<open>A multi-byte character in front of a final \<open>#\<close>.\<close>

definition multibyte_before_hash :: "string \<Rightarrow> bool" where
  "multibyte_before_hash s \<longleftrightarrow>
     (\<exists>q b. s = q @ [b, CHR ''#''] \<and> q \<noteq> [] \<and> CHR ''#'' \<notin> set (q @ [b]) \<and>
        is_cont (of_nat (of_char b)))"

lemma filter_validate_Ok: "filter_validate s = Returns (Ok ()) \<longleftrightarrow> filter_shape s"
proof (cases s rule: filter_validate_cases)
  case (last q b)
  have "is_cont (of_nat (of_char b)) \<Longrightarrow> b \<noteq> CHR ''/''" by (auto simp: filter_shape_def is_cont_def)
  with last show ?thesis by (auto simp: filter_shape_def filter_validate_before_hash)
next
  case (inner m)
  then show ?thesis by (auto simp: filter_shape_def butlast_append dest: in_set_butlastD)
qed (auto simp: filter_shape_def filter_validate_def)

lemma filter_validate_Panic: "filter_validate s = Panic \<longleftrightarrow> multibyte_before_hash s"
proof (cases s rule: filter_validate_cases)
  case (last q b)
  then show ?thesis by (auto simp: multibyte_before_hash_def filter_validate_before_hash)
next
  case (inner m)
  then show ?thesis by (auto simp: multibyte_before_hash_def butlast_append)
qed (auto simp: multibyte_before_hash_def filter_validate_def)

lemma levels_snoc_hash: "levels (p @ ''/#'') = levels p @ [''#'']"
proof (induction p)
  case (Cons x xs)
  then show ?case by (auto split: list.splits)
qed simp

lemma hash_notin_levels: "CHR ''#'' \<notin> set s \<Longrightarrow> ''#'' \<notin> set (levels s)"
  using set_split_on [of "''#''" "CHR ''/''" s] by auto

text \<open>An accepted filter holds \<open>#\<close> at most as its last level.\<close>

lemma filter_new_levels:
  assumes "filter_new s = Returns (Ok f)"
  shows "filter_as_str f = s \<and> ''#'' \<notin> set (butlast (levels s))"
proof -
  from assms have f: "f = TopicFilter s" and ok: "filter_validate s = Returns (Ok ())"
    by (auto simp: filter_new_def and_then_Inr_iff split: run.splits)
  have "''#'' \<notin> set (butlast (levels s))"
    using ok hash_notin_levels [of s]
    by (auto simp: filter_validate_Ok filter_shape_def levels_snoc_hash hash_notin_levels dest: in_set_butlastD)
  with f show ?thesis by simp
qed

section \<open>Properties\<close>

text \<open>
  C6. The index loop of the filter match implements the MQTT wildcard rules for every filter that
  was accepted: a filter that ends in \<open>#\<close> matches the topics whose leading levels match its other
  levels (the parent level included), every other filter matches the topics with the same number of
  levels, each equal or matched by \<open>+\<close>.
\<close>

theorem filter_matches_wildcard_rules:
  assumes "filter_new s = Returns (Ok f)"
  shows "filter_matches f t \<longleftrightarrow>
    (let fl = levels s; tl = levels (topic_as_str t); n = length fl - 1 in
     if last fl = ''#'' then n \<le> length tl \<and> list_all2 level_ok (butlast fl) (take n tl)
     else list_all2 level_ok fl tl)"
proof -
  let ?fl = "levels s" and ?tl = "levels (topic_as_str t)"
  have f: "filter_as_str f = s" and b: "''#'' \<notin> set (butlast ?fl)"
    using filter_new_levels [OF assms] by simp_all
  have split: "?fl = butlast ?fl @ [last ?fl]" by simp
  show ?thesis
  proof (cases "last ?fl = ''#''")
    case True
    with split have "levels_match ?fl ?tl = levels_match (butlast ?fl @ [''#'']) ?tl" by simp
    with True b levels_match_hash [OF b] show ?thesis by (simp add: filter_matches_levels f Let_def)
  next
    case False
    have "set ?fl = insert (last ?fl) (set (butlast ?fl))"
      using arg_cong [OF split, of set] by (simp del: append_butlast_last_id)
    with False b have "''#'' \<notin> set ?fl" by auto
    with False show ?thesis by (simp add: filter_matches_levels f Let_def levels_match_no_hash)
  qed
qed

theorem filter_matches_wildcard_rules_witness:
  "filter_new ''a/+/#'' = Returns (Ok (TopicFilter ''a/+/#'')) \<and>
   filter_matches (TopicFilter ''a/+/#'') (Topic ''a/b'') \<and>
   \<not> filter_matches (TopicFilter ''a/+/#'') (Topic ''a'')"
proof -
  have n: "filter_new ''a/+/#'' = Returns (Ok (TopicFilter ''a/+/#''))"
    by (simp add: filter_new_def filter_validate_def str_slice_def is_char_boundary_def as_bytes_def is_cont_def)
  show ?thesis
    using n filter_matches_wildcard_rules [OF n, of "Topic ''a/b''"]
      filter_matches_wildcard_rules [OF n, of "Topic ''a''"]
    by (simp add: level_ok_def)
qed

text \<open>
  C7. The outcomes of the filter validation: it accepts exactly the nonempty filters whose only
  \<open>#\<close>, if any, is the whole last level; and it panics exactly when a multi-byte character stands
  directly in front of a final \<open>#\<close>, because the byte before the \<open>#\<close> is read with a string slice. Every
  other filter gives an error value.
\<close>

theorem filter_validate_outcomes:
  "(filter_validate s = Returns (Ok ()) \<longleftrightarrow> filter_shape s) \<and>
   (filter_validate s = Panic \<longleftrightarrow> multibyte_before_hash s)"
  by (intro conjI filter_validate_Ok filter_validate_Panic)

end
