(* ===== verification/Wire.thy ===== *)
theory Wire
  imports Broker_Prelude
begin

text \<open>
  The MQTT codec for protocol levels 3, 4 and 5 (\<^verbatim>\<open>crates/broker-protocol/src/wire.rs\<close>): variable
  byte integers, the fixed header, the cursor on a packet body, the property sections, a decoder
  for every packet a client sends and an encoder for every packet the broker sends. An encoder of
  the source appends to a caller's buffer; its model returns the bytes it appends. The debug-only
  length assertions of the encoders are hypotheses of the theorems that need them, since a release
  build truncates the lengths instead.
\<close>

section \<open>Constants and errors\<close>

definition MAX_REMAINING :: nat where
  "MAX_REMAINING = 268435455"

definition MAX_USER_PROPS :: nat where
  "MAX_USER_PROPS = 16"

definition MAX_PROP_STRING :: nat where
  "MAX_PROP_STRING = 1024"

definition MAX_SUB_ID :: u32 where
  "MAX_SUB_ID = 268435455"

abbreviation (input) KIND_CONNECT :: u8 where "KIND_CONNECT \<equiv> 1"
abbreviation (input) KIND_CONNACK :: u8 where "KIND_CONNACK \<equiv> 2"
abbreviation (input) KIND_PUBLISH :: u8 where "KIND_PUBLISH \<equiv> 3"
abbreviation (input) KIND_PUBACK :: u8 where "KIND_PUBACK \<equiv> 4"
abbreviation (input) KIND_PUBREC :: u8 where "KIND_PUBREC \<equiv> 5"
abbreviation (input) KIND_PUBREL :: u8 where "KIND_PUBREL \<equiv> 6"
abbreviation (input) KIND_PUBCOMP :: u8 where "KIND_PUBCOMP \<equiv> 7"
abbreviation (input) KIND_SUBSCRIBE :: u8 where "KIND_SUBSCRIBE \<equiv> 8"
abbreviation (input) KIND_SUBACK :: u8 where "KIND_SUBACK \<equiv> 9"
abbreviation (input) KIND_UNSUBSCRIBE :: u8 where "KIND_UNSUBSCRIBE \<equiv> 10"
abbreviation (input) KIND_UNSUBACK :: u8 where "KIND_UNSUBACK \<equiv> 11"
abbreviation (input) KIND_PINGREQ :: u8 where "KIND_PINGREQ \<equiv> 12"
abbreviation (input) KIND_PINGRESP :: u8 where "KIND_PINGRESP \<equiv> 13"
abbreviation (input) KIND_DISCONNECT :: u8 where "KIND_DISCONNECT \<equiv> 14"
abbreviation (input) KIND_AUTH :: u8 where "KIND_AUTH \<equiv> 15"

abbreviation (input) PROP_PAYLOAD_FORMAT :: u32 where "PROP_PAYLOAD_FORMAT \<equiv> 1"
abbreviation (input) PROP_MESSAGE_EXPIRY :: u32 where "PROP_MESSAGE_EXPIRY \<equiv> 2"
abbreviation (input) PROP_SUBSCRIPTION_ID :: u32 where "PROP_SUBSCRIPTION_ID \<equiv> 11"
abbreviation (input) PROP_SESSION_EXPIRY :: u32 where "PROP_SESSION_EXPIRY \<equiv> 17"
abbreviation (input) PROP_ASSIGNED_CLIENT_ID :: u32 where "PROP_ASSIGNED_CLIENT_ID \<equiv> 18"
abbreviation (input) PROP_AUTH_METHOD :: u32 where "PROP_AUTH_METHOD \<equiv> 21"
abbreviation (input) PROP_REQUEST_PROBLEM_INFO :: u32 where "PROP_REQUEST_PROBLEM_INFO \<equiv> 23"
abbreviation (input) PROP_REQUEST_RESPONSE_INFO :: u32 where "PROP_REQUEST_RESPONSE_INFO \<equiv> 25"
abbreviation (input) PROP_REASON_STRING :: u32 where "PROP_REASON_STRING \<equiv> 28"
abbreviation (input) PROP_RECEIVE_MAXIMUM :: u32 where "PROP_RECEIVE_MAXIMUM \<equiv> 33"
abbreviation (input) PROP_TOPIC_ALIAS_MAXIMUM :: u32 where "PROP_TOPIC_ALIAS_MAXIMUM \<equiv> 34"
abbreviation (input) PROP_TOPIC_ALIAS :: u32 where "PROP_TOPIC_ALIAS \<equiv> 35"
abbreviation (input) PROP_USER_PROPERTY :: u32 where "PROP_USER_PROPERTY \<equiv> 38"
abbreviation (input) PROP_MAXIMUM_PACKET_SIZE :: u32 where "PROP_MAXIMUM_PACKET_SIZE \<equiv> 39"

datatype wire_error = Malformed string | Unsupported string

section \<open>Variable byte integers and the fixed header\<close>

text \<open>The loop of \<open>decode_varint\<close> over at most four bytes, with the index and the value so far.\<close>

fun decode_varint_loop :: "nat \<Rightarrow> u32 \<Rightarrow> bytes \<Rightarrow> (u32 \<times> nat) option" where
  "decode_varint_loop index v [] = None"
| "decode_varint_loop index v (b # bs) =
    (let v' = v OR push_bit (7 * index) (ucast (b AND 0x7F)) in
     if b AND 0x80 = 0 then Some (v', index + 1) else decode_varint_loop (index + 1) v' bs)"

definition decode_varint :: "bytes \<Rightarrow> wire_error + (u32 \<times> nat) option" where
  "decode_varint buf =
     (case decode_varint_loop 0 0 (take 4 buf) of
        Some r \<Rightarrow> Ok (Some r)
      | None \<Rightarrow>
          if length buf \<ge> 4 then Err (Malformed ''variable byte integer is too long'')
          else Ok None)"

function encode_varint :: "u32 \<Rightarrow> bytes" where
  "encode_varint v =
     (let byte = (ucast (v AND 0x7F) :: u8); v' = drop_bit 7 v in
      (if v' > 0 then byte OR 0x80 else byte) # (if v' = 0 then [] else encode_varint v'))"
  by pat_completeness auto

lemma unat_drop_bit_7: "unat (drop_bit 7 (v :: u32)) = unat v div 128"
  by (simp add: drop_bit_eq_div unat_div)

termination encode_varint
proof (relation "measure unat", goal_cases)
  case (2 v x xa)
  then have "unat (drop_bit 7 v) \<noteq> 0" by (simp add: unat_eq_zero)
  with 2 show ?case by (simp add: unat_drop_bit_7)
qed simp

declare encode_varint.simps [simp del]

record fixed_hdr =
  fh_kind :: u8
  fh_flags :: u8
  fh_header_len :: nat
  fh_remaining :: nat

definition packet_len :: "fixed_hdr \<Rightarrow> nat" where
  "packet_len h = fh_header_len h + fh_remaining h"

definition expected_flags :: "u8 \<Rightarrow> u8 \<Rightarrow> u8 option" where
  "expected_flags kind flags =
     (if kind = KIND_PUBLISH then Some flags
      else if kind \<in> {KIND_PUBREL, KIND_SUBSCRIBE, KIND_UNSUBSCRIBE} then Some 0x02
      else if kind \<in> {KIND_CONNECT, KIND_CONNACK, KIND_PUBACK, KIND_PUBREC, KIND_PUBCOMP,
                      KIND_SUBACK, KIND_UNSUBACK, KIND_PINGREQ, KIND_PINGRESP,
                      KIND_DISCONNECT, KIND_AUTH} then Some 0x00
      else None)"

definition fixed_header :: "bytes \<Rightarrow> wire_error + fixed_hdr option" where
  "fixed_header buf =
     (case buf of
        [] \<Rightarrow> Ok None
      | first # rest \<Rightarrow>
          and_then (decode_varint rest) (\<lambda>r.
            case r of
              None \<Rightarrow> Ok None
            | Some (remaining, used) \<Rightarrow>
                let kind = drop_bit 4 first; flags = first AND 0x0F in
                (case expected_flags kind flags of
                   None \<Rightarrow> Err (Malformed ''packet type 0 is reserved'')
                 | Some expected \<Rightarrow>
                     if flags \<noteq> expected then Err (Malformed ''incorrect fixed header flags'')
                     else Ok (Some \<lparr>fh_kind = kind, fh_flags = flags, fh_header_len = 1 + used,
                                    fh_remaining = unat remaining\<rparr>))))"

section \<open>The cursor on a packet body\<close>

text \<open>A method of \<open>Reader\<close> takes the bytes left and returns its result and the bytes after it.\<close>

type_synonym 'a reader = "bytes \<Rightarrow> wire_error + ('a \<times> bytes)"

definition rd_take :: "nat \<Rightarrow> bytes reader" where
  "rd_take len buf =
     (if length buf < len then Err (Malformed ''packet is truncated'')
      else Ok (take len buf, drop len buf))"

definition rd_u8 :: "u8 reader" where
  "rd_u8 buf = and_then (rd_take 1 buf) (\<lambda>(bs, r). Ok (bs ! 0, r))"

definition rd_u16 :: "u16 reader" where
  "rd_u16 buf = and_then (rd_take 2 buf) (\<lambda>(bs, r). Ok (u16_from_be bs, r))"

definition rd_u32 :: "u32 reader" where
  "rd_u32 buf = and_then (rd_take 4 buf) (\<lambda>(bs, r). Ok (u32_from_be bs, r))"

definition rd_varint :: "u32 reader" where
  "rd_varint buf =
     and_then (decode_varint buf) (\<lambda>r.
       case r of
         Some (v, used) \<Rightarrow> Ok (v, drop used buf)
       | None \<Rightarrow> Err (Malformed ''packet is truncated''))"

definition rd_binary :: "bytes reader" where
  "rd_binary buf = and_then (rd_u16 buf) (\<lambda>(len, r). rd_take (unat len) r)"

definition rd_utf8 :: "string reader" where
  "rd_utf8 buf =
     and_then (rd_binary buf) (\<lambda>(bs, r).
       case from_utf8 bs of
         None \<Rightarrow> Err (Malformed ''string is not UTF-8'')
       | Some text \<Rightarrow>
           if CHR 0x00 \<in> set text then Err (Malformed ''string contains a null character'')
           else Ok (text, r))"

definition rd_properties :: "bytes reader" where
  "rd_properties buf = and_then (rd_varint buf) (\<lambda>(len, r). rd_take (unat len) r)"

section \<open>Property sections\<close>

datatype prop_value =
  PvByte u8 | PvU16 u16 | PvU32 u32 | PvVarint u32 | PvText string | PvBinary | PvPair string string

text \<open>
  One round of the loop of \<open>walk_properties\<close> up to the call of the visitor: the identifier, the
  value, the number of user properties so far and the bytes left.
\<close>

definition read_property :: "bytes \<Rightarrow> nat \<Rightarrow> wire_error + (u32 \<times> prop_value \<times> nat \<times> bytes)" where
  "read_property buf users =
     and_then (rd_varint buf) (\<lambda>(pid, r).
       if pid \<in> {1, 23, 25, 36, 37, 40, 41, 42} then
         and_then (rd_u8 r) (\<lambda>(v, r). Ok (pid, PvByte v, users, r))
       else if pid \<in> {19, 33, 34, 35} then
         and_then (rd_u16 r) (\<lambda>(v, r). Ok (pid, PvU16 v, users, r))
       else if pid \<in> {2, 17, 24, 39} then
         and_then (rd_u32 r) (\<lambda>(v, r). Ok (pid, PvU32 v, users, r))
       else if pid = 11 then
         and_then (rd_varint r) (\<lambda>(v, r). Ok (pid, PvVarint v, users, r))
       else if pid \<in> {3, 8, 18, 21, 26, 28, 31} then
         and_then (rd_utf8 r) (\<lambda>(v, r). Ok (pid, PvText v, users, r))
       else if pid \<in> {9, 22} then
         and_then (rd_binary r) (\<lambda>(v, r). Ok (pid, PvBinary, users, r))
       else if pid = 38 then
         and_then (rd_utf8 r) (\<lambda>(k, r). and_then (rd_utf8 r) (\<lambda>(v, r).
           if users + 1 > MAX_USER_PROPS then Err (Unsupported ''too many user properties'')
           else if length k > MAX_PROP_STRING \<or> length v > MAX_PROP_STRING
           then Err (Unsupported ''user property is too large'')
           else Ok (pid, PvPair k v, users + 1, r)))
       else Err (Malformed ''unknown property identifier''))"

lemma decode_varint_loop_bounds:
  "decode_varint_loop i v bs = Some (r, n) \<Longrightarrow> i < n \<and> n \<le> i + length bs"
  by (induction i v bs rule: decode_varint_loop.induct) (auto simp: Let_def split: if_splits)

lemma rd_varint_length: "rd_varint buf = Ok (v, r) \<Longrightarrow> length r < length buf"
  by (auto simp: rd_varint_def decode_varint_def and_then_Inr_iff
      dest!: decode_varint_loop_bounds split: option.splits if_splits)

lemma rd_take_length: "rd_take n buf = Ok (v, r) \<Longrightarrow> length r \<le> length buf"
  by (auto simp: rd_take_def split: if_splits)

lemma rd_int_length:
  "rd_u8 buf = Ok (a, r) \<Longrightarrow> length r \<le> length buf"
  "rd_u16 buf = Ok (b, r) \<Longrightarrow> length r \<le> length buf"
  "rd_u32 buf = Ok (c, r) \<Longrightarrow> length r \<le> length buf"
  by (auto simp: rd_u8_def rd_u16_def rd_u32_def and_then_Inr_iff dest: rd_take_length)

lemma rd_binary_length: "rd_binary buf = Ok (v, r) \<Longrightarrow> length r \<le> length buf"
  by (fastforce simp: rd_binary_def and_then_Inr_iff dest: rd_take_length rd_int_length)

lemma rd_utf8_length: "rd_utf8 buf = Ok (v, r) \<Longrightarrow> length r \<le> length buf"
  by (auto simp: rd_utf8_def and_then_Inr_iff dest: rd_binary_length split: option.splits)

lemmas rd_lengths = rd_int_length rd_binary_length rd_utf8_length

text \<open>Every property takes at least the byte of its identifier, so the walk ends.\<close>

lemma read_property_length:
  assumes "read_property buf users = Ok (pid, v, users', r)"
  shows "length r < length buf"
proof -
  from assms obtain i r0 where i: "rd_varint buf = Ok (i, r0)"
    by (auto simp: read_property_def and_then_Inr_iff)
  have "length r \<le> length r0"
    using assms i
    by (simp add: read_property_def and_then_Inr_iff split: if_splits prod.splits)
      (fastforce dest: rd_lengths rd_varint_length)+
  with rd_varint_length [OF i] show ?thesis by simp
qed

function walk_loop ::
  "(u32 \<Rightarrow> prop_value \<Rightarrow> 's \<Rightarrow> wire_error + 's) \<Rightarrow> nat \<Rightarrow> 's \<Rightarrow> bytes \<Rightarrow> wire_error + 's" where
  "walk_loop visit users st buf =
     (if buf = [] then Ok st
      else case read_property buf users of
        Inl e \<Rightarrow> Err e
      | Inr (pid, v, users', r) \<Rightarrow> and_then (visit pid v st) (\<lambda>st'. walk_loop visit users' st' r))"
  by pat_completeness auto

termination walk_loop
  by (relation "measure (\<lambda>(_, _, _, buf). length buf)") (auto dest: read_property_length)

declare walk_loop.simps [simp del]

definition walk_properties ::
  "bytes \<Rightarrow> (u32 \<Rightarrow> prop_value \<Rightarrow> 's \<Rightarrow> wire_error + 's) \<Rightarrow> 's \<Rightarrow> wire_error + 's" where
  "walk_properties section visit st = walk_loop visit 0 st section"

definition set_once :: "'a option \<Rightarrow> 'a \<Rightarrow> wire_error + 'a option" where
  "set_once slot v =
     (if slot \<noteq> None then Err (Malformed ''property is in the section two times'')
      else Ok (Some v))"

section \<open>CONNECT\<close>

record will =
  w_topic :: string
  w_payload :: bytes
  w_qos :: u8
  w_retain :: bool

record connect_properties =
  cp_session_expiry :: "u32 option"
  cp_receive_maximum :: "u16 option"
  cp_maximum_packet_size :: "u32 option"
  cp_topic_alias_maximum :: "u16 option"
  cp_request_response_info :: "u8 option"
  cp_request_problem_info :: "u8 option"
  cp_auth_method :: "string option"
  cp_user_properties :: "(string \<times> string) list"

definition connect_properties_default :: connect_properties where
  "connect_properties_default =
     \<lparr>cp_session_expiry = None, cp_receive_maximum = None, cp_maximum_packet_size = None,
      cp_topic_alias_maximum = None, cp_request_response_info = None,
      cp_request_problem_info = None, cp_auth_method = None, cp_user_properties = []\<rparr>"

record connect =
  c_level :: u8
  c_clean_start :: bool
  c_keepalive :: u16
  c_client_id :: string
  c_will :: "will option"
  c_username :: "string option"
  c_password :: "bytes option"
  c_properties :: "connect_properties option"

text \<open>
  The visitor closure of the CONNECT section: its state is the properties and the flag that
  authentication data was seen.
\<close>

definition connect_visit ::
  "u32 \<Rightarrow> prop_value \<Rightarrow> connect_properties \<times> bool \<Rightarrow> wire_error + (connect_properties \<times> bool)" where
  "connect_visit pid v st =
     (let (props, auth_data) = st;
          no = Err (Malformed ''property is not permitted in CONNECT'') in
      case v of
        PvU32 n \<Rightarrow>
          if pid = PROP_SESSION_EXPIRY then
            and_then (set_once (cp_session_expiry props) n)
              (\<lambda>x. Ok (props\<lparr>cp_session_expiry := x\<rparr>, auth_data))
          else if pid = PROP_MAXIMUM_PACKET_SIZE then
            if n = 0 then Err (Malformed ''maximum packet size is 0'')
            else and_then (set_once (cp_maximum_packet_size props) n)
              (\<lambda>x. Ok (props\<lparr>cp_maximum_packet_size := x\<rparr>, auth_data))
          else no
      | PvU16 n \<Rightarrow>
          if pid = PROP_RECEIVE_MAXIMUM then
            if n = 0 then Err (Malformed ''receive maximum is 0'')
            else and_then (set_once (cp_receive_maximum props) n)
              (\<lambda>x. Ok (props\<lparr>cp_receive_maximum := x\<rparr>, auth_data))
          else if pid = PROP_TOPIC_ALIAS_MAXIMUM then
            and_then (set_once (cp_topic_alias_maximum props) n)
              (\<lambda>x. Ok (props\<lparr>cp_topic_alias_maximum := x\<rparr>, auth_data))
          else no
      | PvByte b \<Rightarrow>
          if pid = PROP_REQUEST_RESPONSE_INFO \<and> b \<le> 1 then
            and_then (set_once (cp_request_response_info props) b)
              (\<lambda>x. Ok (props\<lparr>cp_request_response_info := x\<rparr>, auth_data))
          else if pid = PROP_REQUEST_PROBLEM_INFO \<and> b \<le> 1 then
            and_then (set_once (cp_request_problem_info props) b)
              (\<lambda>x. Ok (props\<lparr>cp_request_problem_info := x\<rparr>, auth_data))
          else no
      | PvText t \<Rightarrow>
          if pid = PROP_AUTH_METHOD then
            and_then (set_once (cp_auth_method props) t)
              (\<lambda>x. Ok (props\<lparr>cp_auth_method := x\<rparr>, auth_data))
          else no
      | PvBinary \<Rightarrow>
          if pid = 22 then
            if auth_data then Err (Malformed ''property is in the section two times'')
            else Ok (props, True)
          else no
      | PvPair k t \<Rightarrow>
          if pid = PROP_USER_PROPERTY then
            Ok (props\<lparr>cp_user_properties := cp_user_properties props @ [(k, t)]\<rparr>, auth_data)
          else no
      | PvVarint n \<Rightarrow> no)"

definition decode_connect_properties :: "u8 \<Rightarrow> connect_properties option reader" where
  "decode_connect_properties level buf =
     (if level = 5 then
        and_then (rd_properties buf) (\<lambda>(section, r).
          and_then (walk_properties section connect_visit (connect_properties_default, False))
            (\<lambda>(props, _). Ok (Some props, r)))
      else Ok (None, buf))"

definition decode_will :: "u8 \<Rightarrow> bool \<Rightarrow> u8 \<Rightarrow> bool \<Rightarrow> will option reader" where
  "decode_will level will_flag will_qos will_retain buf =
     (if will_flag then
        and_then
          (if level = 5 then
             and_then (rd_properties buf) (\<lambda>(section, r).
               and_then (walk_properties section (\<lambda>_ _ st. Ok st) ()) (\<lambda>_. Ok r))
           else Ok buf)
          (\<lambda>r. and_then (rd_utf8 r) (\<lambda>(topic, r). and_then (rd_binary r) (\<lambda>(payload, r).
             Ok (Some \<lparr>w_topic = topic, w_payload = payload, w_qos = will_qos,
                       w_retain = will_retain\<rparr>, r))))
      else Ok (None, buf))"

definition rd_opt :: "bool \<Rightarrow> 'a reader \<Rightarrow> 'a option reader" where
  "rd_opt flag rd buf = (if flag then and_then (rd buf) (\<lambda>(x, r). Ok (Some x, r)) else Ok (None, buf))"

definition decode_connect :: "bytes \<Rightarrow> wire_error + connect" where
  "decode_connect body =
     and_then (rd_binary body) (\<lambda>(name, r).
     and_then (rd_u8 r) (\<lambda>(level, r).
     if \<not> (name = as_bytes ''MQTT'' \<and> (level = 4 \<or> level = 5) \<or> name = as_bytes ''MQIsdp'' \<and> level = 3)
     then if name = as_bytes ''MQTT'' \<or> name = as_bytes ''MQIsdp''
          then Err (Unsupported ''protocol level'') else Err (Malformed ''protocol name'')
     else and_then (rd_u8 r) (\<lambda>(flags, r).
     if flags AND 0x01 \<noteq> 0 then Err (Malformed ''reserved connect flag is set'')
     else
       let clean_start = (flags AND 0x02 \<noteq> 0); will_flag = (flags AND 0x04 \<noteq> 0);
           will_qos = (drop_bit 3 flags AND 0x03); will_retain = (flags AND 0x20 \<noteq> 0);
           has_password = (flags AND 0x40 \<noteq> 0); has_username = (flags AND 0x80 \<noteq> 0) in
     if will_qos > 2 \<or> (\<not> will_flag \<and> (will_qos \<noteq> 0 \<or> will_retain)) then Err (Malformed ''will flags'')
     else if level < 5 \<and> has_password \<and> \<not> has_username
     then Err (Malformed ''password without a user name'')
     else and_then (rd_u16 r) (\<lambda>(keepalive, r).
     and_then (decode_connect_properties level r) (\<lambda>(properties, r).
     and_then (rd_utf8 r) (\<lambda>(client_id, r).
     and_then (decode_will level will_flag will_qos will_retain r) (\<lambda>(will, r).
     and_then (rd_opt has_username rd_utf8 r) (\<lambda>(username, r).
     and_then (rd_opt has_password rd_binary r) (\<lambda>(password, r).
     if r \<noteq> [] then Err (Malformed ''bytes after the CONNECT payload'')
     else Ok \<lparr>c_level = level, c_clean_start = clean_start, c_keepalive = keepalive,
              c_client_id = client_id, c_will = will, c_username = username,
              c_password = password, c_properties = properties\<rparr>)))))))))"

section \<open>PUBLISH\<close>

record publish =
  p_dup :: bool
  p_qos :: u8
  p_retain :: bool
  p_topic :: string
  p_packet_id :: u16
  p_alias :: "u16 option"
  p_payload_format :: u8
  p_message_expiry :: u32
  p_user_properties :: "(string \<times> string) list"
  p_payload :: bytes

text \<open>The variables that the visitor closure of PUBLISH captures.\<close>

record publish_props =
  pp_alias :: "u16 option"
  pp_format :: "u8 option"
  pp_expiry :: "u32 option"
  pp_users :: "(string \<times> string) list"

definition publish_props_none :: publish_props where
  "publish_props_none = \<lparr>pp_alias = None, pp_format = None, pp_expiry = None, pp_users = []\<rparr>"

definition publish_visit :: "u32 \<Rightarrow> prop_value \<Rightarrow> publish_props \<Rightarrow> wire_error + publish_props" where
  "publish_visit pid v st =
     (let no = (if pid = PROP_SUBSCRIPTION_ID
                then Err (Malformed ''subscription identifier from a client'')
                else Err (Malformed ''property is not permitted in PUBLISH'')) in
      case v of
        PvU16 n \<Rightarrow>
          if pid = PROP_TOPIC_ALIAS
          then and_then (set_once (pp_alias st) n) (\<lambda>x. Ok (st\<lparr>pp_alias := x\<rparr>)) else no
      | PvByte b \<Rightarrow>
          if pid = PROP_PAYLOAD_FORMAT \<and> b \<le> 1
          then and_then (set_once (pp_format st) b) (\<lambda>x. Ok (st\<lparr>pp_format := x\<rparr>)) else no
      | PvU32 n \<Rightarrow>
          if pid = PROP_MESSAGE_EXPIRY
          then and_then (set_once (pp_expiry st) n) (\<lambda>x. Ok (st\<lparr>pp_expiry := x\<rparr>)) else no
      | PvPair k t \<Rightarrow>
          if pid = PROP_USER_PROPERTY then Ok (st\<lparr>pp_users := pp_users st @ [(k, t)]\<rparr>) else no
      | PvText t \<Rightarrow> if pid = 3 \<or> pid = 8 then Ok st else no
      | PvBinary \<Rightarrow> if pid = 9 then Ok st else no
      | PvVarint n \<Rightarrow> no)"

definition unwrap_or :: "'a option \<Rightarrow> 'a \<Rightarrow> 'a" where
  "unwrap_or x d = (case x of None \<Rightarrow> d | Some v \<Rightarrow> v)"

definition decode_publish :: "u8 \<Rightarrow> bytes \<Rightarrow> u8 \<Rightarrow> wire_error + publish" where
  "decode_publish flags body level =
     (let dup = (flags AND 0x08 \<noteq> 0); qos = (drop_bit 1 flags AND 0x03);
          retain = (flags AND 0x01 \<noteq> 0) in
      if qos > 2 then Err (Malformed ''QoS 3'')
      else if qos = 0 \<and> dup then Err (Malformed ''DUP with QoS 0'')
      else
      and_then (rd_utf8 body) (\<lambda>(topic, r).
      and_then
        (if qos > 0 then
           and_then (rd_u16 r) (\<lambda>(pid, r).
             if pid = 0 then Err (Malformed ''packet identifier is 0'') else Ok (pid, r))
         else Ok (0, r)) (\<lambda>(packet_id, r).
      and_then
        (if level = 5 then
           and_then (rd_properties r) (\<lambda>(section, r).
             and_then (walk_properties section publish_visit publish_props_none)
               (\<lambda>pp. Ok (pp, r)))
         else Ok (publish_props_none, r)) (\<lambda>(pp, r).
      if topic = [] \<and> pp_alias pp = None then Err (Malformed ''empty topic without an alias'')
      else if CHR ''+'' \<in> set topic \<or> CHR ''#'' \<in> set topic
      then Err (Malformed ''wildcard in a topic name'')
      else Ok \<lparr>p_dup = dup, p_qos = qos, p_retain = retain, p_topic = topic,
               p_packet_id = packet_id, p_alias = pp_alias pp,
               p_payload_format = unwrap_or (pp_format pp) 0,
               p_message_expiry = unwrap_or (pp_expiry pp) 0,
               p_user_properties = pp_users pp, p_payload = r\<rparr>))))"

section \<open>SUBSCRIBE and UNSUBSCRIBE\<close>

record subscribe =
  s_packet_id :: u16
  s_subscription_id :: u32
  s_filters :: "(string \<times> u8) list"

definition subscribe_visit :: "u32 \<Rightarrow> prop_value \<Rightarrow> u32 option \<Rightarrow> wire_error + u32 option" where
  "subscribe_visit pid v st =
     (let no = Err (Malformed ''property is not permitted in SUBSCRIBE'') in
      case v of
        PvVarint n \<Rightarrow>
          if pid = PROP_SUBSCRIPTION_ID then
            if n = 0 then Err (Malformed ''subscription identifier is 0'') else set_once st n
          else no
      | PvPair k t \<Rightarrow> if pid = PROP_USER_PROPERTY then Ok st else no
      | _ \<Rightarrow> no)"

definition rd_subscribe_entry :: "(string \<times> u8) reader" where
  "rd_subscribe_entry buf =
     and_then (rd_binary buf) (\<lambda>(bs, r).
     if bs = [] then Err (Malformed ''empty topic filter'')
     else case from_utf8 bs of
       None \<Rightarrow> Err (Malformed ''string is not UTF-8'')
     | Some flt \<Rightarrow> and_then (rd_u8 r) (\<lambda>(options, r). Ok ((flt, options), r)))"

definition rd_unsubscribe_entry :: "string reader" where
  "rd_unsubscribe_entry buf =
     and_then (rd_utf8 buf) (\<lambda>(flt, r).
     if flt = [] then Err (Malformed ''empty topic filter'') else Ok (flt, r))"

lemma rd_binary_progress: "rd_binary buf = Ok (v, r) \<Longrightarrow> length r < length buf"
  by (auto simp: rd_binary_def rd_u16_def rd_take_def and_then_Inr_iff split: if_splits)

lemma rd_entry_progress:
  "rd_subscribe_entry buf = Ok (x, r) \<Longrightarrow> length r < length buf"
  "rd_unsubscribe_entry buf = Ok (y, r) \<Longrightarrow> length r < length buf"
  by (fastforce simp: rd_subscribe_entry_def rd_unsubscribe_entry_def rd_utf8_def and_then_Inr_iff
      dest: rd_binary_progress rd_int_length split: option.splits if_splits)+

text \<open>The loops \<open>while !reader.is_empty()\<close>: every entry takes bytes, so they end.\<close>

function subscribe_filters :: "bytes \<Rightarrow> wire_error + (string \<times> u8) list" where
  "subscribe_filters buf =
     (if buf = [] then Ok []
      else case rd_subscribe_entry buf of
        Inl e \<Rightarrow> Err e
      | Inr (x, r) \<Rightarrow> and_then (subscribe_filters r) (\<lambda>xs. Ok (x # xs)))"
  by pat_completeness auto

termination subscribe_filters
  by (relation "measure length") (auto dest: rd_entry_progress)

function unsubscribe_filters :: "bytes \<Rightarrow> wire_error + string list" where
  "unsubscribe_filters buf =
     (if buf = [] then Ok []
      else case rd_unsubscribe_entry buf of
        Inl e \<Rightarrow> Err e
      | Inr (x, r) \<Rightarrow> and_then (unsubscribe_filters r) (\<lambda>xs. Ok (x # xs)))"
  by pat_completeness auto

termination unsubscribe_filters
  by (relation "measure length") (auto dest: rd_entry_progress)

declare subscribe_filters.simps [simp del] unsubscribe_filters.simps [simp del]

definition decode_subscribe :: "bytes \<Rightarrow> u8 \<Rightarrow> wire_error + subscribe" where
  "decode_subscribe body level =
     and_then (rd_u16 body) (\<lambda>(packet_id, r).
     if packet_id = 0 then Err (Malformed ''packet identifier is 0'')
     else
     and_then
       (if level = 5 then
          and_then (rd_properties r) (\<lambda>(section, r).
            and_then (walk_properties section subscribe_visit None) (\<lambda>sub. Ok (sub, r)))
        else Ok (None, r)) (\<lambda>(subscription_id, r).
     and_then (subscribe_filters r) (\<lambda>filters.
     if filters = [] then Err (Malformed ''SUBSCRIBE without a topic filter'')
     else Ok \<lparr>s_packet_id = packet_id, s_subscription_id = unwrap_or subscription_id 0,
              s_filters = filters\<rparr>)))"

record unsubscribe =
  u_packet_id :: u16
  u_filters :: "string list"

text \<open>A visitor that only looks at which properties are permitted.\<close>

definition permit_visit ::
  "(u32 \<Rightarrow> prop_value \<Rightarrow> bool) \<Rightarrow> string \<Rightarrow> u32 \<Rightarrow> prop_value \<Rightarrow> unit \<Rightarrow> wire_error + unit" where
  "permit_visit ok msg pid v st = (if ok pid v then Ok () else Err (Malformed msg))"

fun user_property_only :: "u32 \<Rightarrow> prop_value \<Rightarrow> bool" where
  "user_property_only pid (PvPair k t) = (pid = PROP_USER_PROPERTY)"
| "user_property_only pid _ = False"

definition decode_unsubscribe :: "bytes \<Rightarrow> u8 \<Rightarrow> wire_error + unsubscribe" where
  "decode_unsubscribe body level =
     and_then (rd_u16 body) (\<lambda>(packet_id, r).
     if packet_id = 0 then Err (Malformed ''packet identifier is 0'')
     else
     and_then
       (if level = 5 then
          and_then (rd_properties r) (\<lambda>(section, r).
            and_then (walk_properties section
                (permit_visit user_property_only ''property is not permitted in UNSUBSCRIBE'') ())
              (\<lambda>_. Ok r))
        else Ok r) (\<lambda>r.
     and_then (unsubscribe_filters r) (\<lambda>filters.
     if filters = [] then Err (Malformed ''UNSUBSCRIBE without a topic filter'')
     else Ok \<lparr>u_packet_id = packet_id, u_filters = filters\<rparr>)))"

section \<open>Acknowledgements and DISCONNECT\<close>

fun ack_property :: "u32 \<Rightarrow> prop_value \<Rightarrow> bool" where
  "ack_property pid (PvText t) = (pid = PROP_REASON_STRING)"
| "ack_property pid (PvPair k t) = (pid = PROP_USER_PROPERTY)"
| "ack_property pid _ = False"

definition decode_ack :: "bytes \<Rightarrow> u8 \<Rightarrow> wire_error + (u16 \<times> u8)" where
  "decode_ack body level =
     and_then (rd_u16 body) (\<lambda>(packet_id, r).
     if packet_id = 0 then Err (Malformed ''packet identifier is 0'')
     else if r = [] then Ok (packet_id, 0)
     else if level \<noteq> 5 then Err (Malformed ''bytes after the packet identifier'')
     else
     and_then (rd_u8 r) (\<lambda>(reason, r).
     if r = [] then Ok (packet_id, reason)
     else
     and_then (rd_properties r) (\<lambda>(section, r).
     and_then (walk_properties section
         (permit_visit ack_property ''property is not permitted in an acknowledgement'') ()) (\<lambda>_.
     if r \<noteq> [] then Err (Malformed ''bytes after the properties'')
     else Ok (packet_id, reason)))))"

fun disconnect_property :: "u32 \<Rightarrow> prop_value \<Rightarrow> bool" where
  "disconnect_property pid (PvU32 n) = (pid = PROP_SESSION_EXPIRY)"
| "disconnect_property pid (PvText t) = (pid = PROP_REASON_STRING \<or> pid = 31)"
| "disconnect_property pid (PvPair k t) = (pid = PROP_USER_PROPERTY)"
| "disconnect_property pid _ = False"

definition decode_disconnect :: "bytes \<Rightarrow> u8 \<Rightarrow> wire_error + u8" where
  "decode_disconnect body level =
     (if body = [] then Ok 0
      else if level \<noteq> 5 then Err (Malformed ''DISCONNECT with a body'')
      else
      and_then (rd_u8 body) (\<lambda>(reason, r).
      if r = [] then Ok reason
      else
      and_then (rd_properties r) (\<lambda>(section, r).
      and_then (walk_properties section
          (permit_visit disconnect_property ''property is not permitted in DISCONNECT'') ()) (\<lambda>_.
      if r \<noteq> [] then Err (Malformed ''bytes after the properties'')
      else Ok reason))))"

section \<open>Encoders\<close>

definition put_fixed_header :: "u8 \<Rightarrow> nat \<Rightarrow> bytes" where
  "put_fixed_header first remaining = first # encode_varint (of_nat remaining)"

definition varint_len :: "nat \<Rightarrow> nat" where
  "varint_len v = (if v \<le> 127 then 1 else if v \<le> 16383 then 2 else if v \<le> 2097151 then 3 else 4)"

definition put_binary :: "bytes \<Rightarrow> bytes" where
  "put_binary bs = u16_to_be (of_nat (length bs)) @ bs"

definition u8_of_bool :: "bool \<Rightarrow> u8" where
  "u8_of_bool b = (if b then 1 else 0)"

definition encode_connack :: "bool \<Rightarrow> u8 \<Rightarrow> bytes" where
  "encode_connack session_present return_code =
     [0x20, 0x02, u8_of_bool session_present, return_code]"

record connack_properties =
  ca_session_expiry :: "u32 option"
  ca_receive_maximum :: "u16 option"
  ca_maximum_packet_size :: "u32 option"
  ca_topic_alias_maximum :: "u16 option"
  ca_assigned_client_id :: "string option"
  ca_reason_string :: "string option"
  ca_user_properties :: "(string \<times> string) list"

definition put_opt :: "u32 \<Rightarrow> ('a \<Rightarrow> bytes) \<Rightarrow> 'a option \<Rightarrow> bytes" where
  "put_opt pid enc x = (case x of None \<Rightarrow> [] | Some v \<Rightarrow> ucast pid # enc v)"

definition put_str :: "string \<Rightarrow> bytes" where
  "put_str s = put_binary (as_bytes s)"

definition connack_section :: "connack_properties \<Rightarrow> bytes" where
  "connack_section props =
     put_opt PROP_SESSION_EXPIRY u32_to_be (ca_session_expiry props) @
     put_opt PROP_RECEIVE_MAXIMUM u16_to_be (ca_receive_maximum props) @
     put_opt PROP_MAXIMUM_PACKET_SIZE u32_to_be (ca_maximum_packet_size props) @
     put_opt PROP_TOPIC_ALIAS_MAXIMUM u16_to_be (ca_topic_alias_maximum props) @
     put_opt PROP_ASSIGNED_CLIENT_ID put_str (ca_assigned_client_id props) @
     put_opt PROP_REASON_STRING put_str (ca_reason_string props) @
     concat (map (\<lambda>(k, v). ucast PROP_USER_PROPERTY # put_str k @ put_str v)
       (ca_user_properties props))"

definition encode_connack_v5 :: "bool \<Rightarrow> u8 \<Rightarrow> connack_properties \<Rightarrow> bytes" where
  "encode_connack_v5 session_present reason props =
     (let section = connack_section props in
      put_fixed_header 0x20 (2 + varint_len (length section) + length section) @
      [u8_of_bool session_present, reason] @ encode_varint (of_nat (length section)) @ section)"

record publish_out =
  o_dup :: bool
  o_qos :: u8
  o_retain :: bool
  o_topic :: string
  o_packet_id :: u16
  o_alias :: u16
  o_subscription_id :: u32
  o_payload_format :: u8
  o_message_expiry :: u32
  o_user_properties :: "(bytes \<times> bytes) list"
  o_payload :: bytes

text \<open>The section length that \<open>encode_publish\<close> computes before it writes the section.\<close>

definition publish_section_len :: "publish_out \<Rightarrow> nat" where
  "publish_section_len p =
     (if o_alias p \<noteq> 0 then 3 else 0) +
     (if o_subscription_id p \<noteq> 0 then 1 + varint_len (unat (o_subscription_id p)) else 0) +
     (if o_payload_format p \<noteq> 0 then 2 else 0) +
     (if o_message_expiry p \<noteq> 0 then 5 else 0) +
     sum_list (map (\<lambda>(k, v). 1 + 2 + length k + 2 + length v) (o_user_properties p))"

definition publish_section :: "publish_out \<Rightarrow> bytes" where
  "publish_section p =
     (if o_alias p \<noteq> 0 then ucast PROP_TOPIC_ALIAS # u16_to_be (o_alias p) else []) @
     (if o_subscription_id p \<noteq> 0
      then ucast PROP_SUBSCRIPTION_ID # encode_varint (o_subscription_id p) else []) @
     (if o_payload_format p \<noteq> 0 then [ucast PROP_PAYLOAD_FORMAT, o_payload_format p] else []) @
     (if o_message_expiry p \<noteq> 0
      then ucast PROP_MESSAGE_EXPIRY # u32_to_be (o_message_expiry p) else []) @
     concat (map (\<lambda>(k, v). ucast PROP_USER_PROPERTY # put_binary k @ put_binary v)
       (o_user_properties p))"

definition publish_first :: "publish_out \<Rightarrow> u8" where
  "publish_first p =
     0x30 OR push_bit 3 (u8_of_bool (o_dup p)) OR push_bit 1 (o_qos p AND 0x03) OR
     u8_of_bool (o_retain p)"

definition publish_remaining :: "publish_out \<Rightarrow> u8 \<Rightarrow> nat" where
  "publish_remaining p level =
     2 + length (o_topic p) + (if o_qos p > 0 then 2 else 0) +
     (if level = 5 then varint_len (publish_section_len p) + publish_section_len p else 0) +
     length (o_payload p)"

definition encode_publish :: "publish_out \<Rightarrow> u8 \<Rightarrow> bytes" where
  "encode_publish p level =
     put_fixed_header (publish_first p) (publish_remaining p level) @
     put_str (o_topic p) @
     (if o_qos p > 0 then u16_to_be (o_packet_id p) else []) @
     (if level = 5 then encode_varint (of_nat (publish_section_len p)) @ publish_section p else []) @
     o_payload p"

definition encode_suback :: "u16 \<Rightarrow> bytes \<Rightarrow> u8 \<Rightarrow> bytes" where
  "encode_suback packet_id codes level =
     put_fixed_header 0x90 (2 + (if level = 5 then 1 else 0) + length codes) @
     u16_to_be packet_id @ (if level = 5 then [0] else []) @ codes"

definition encode_unsuback :: "u16 \<Rightarrow> bytes \<Rightarrow> u8 \<Rightarrow> bytes" where
  "encode_unsuback packet_id codes level =
     (if level = 5 then
        put_fixed_header 0xB0 (2 + 1 + length codes) @ u16_to_be packet_id @ [0] @ codes
      else [0xB0, 0x02] @ u16_to_be packet_id)"

definition encode_ack :: "u8 \<Rightarrow> u16 \<Rightarrow> u8 \<Rightarrow> u8 \<Rightarrow> bytes" where
  "encode_ack packet_kind packet_id reason level =
     (let flags = (if packet_kind = KIND_PUBREL then 0x02 else 0x00);
          first = push_bit 4 packet_kind OR flags in
      if level = 5 \<and> reason \<noteq> 0 then [first, 0x03] @ u16_to_be packet_id @ [reason]
      else [first, 0x02] @ u16_to_be packet_id)"

definition encode_pingresp :: bytes where
  "encode_pingresp = [0xD0, 0x00]"

definition encode_disconnect_v5 :: "u8 \<Rightarrow> bytes" where
  "encode_disconnect_v5 reason = (if reason = 0 then [0xE0, 0x00] else [0xE0, 0x01, reason])"

end
