(* ===== verification/Wire_Laws.thy ===== *)
theory Wire_Laws
  imports Wire
begin

text \<open>
  Correctness of the MQTT codec: variable byte integers round-trip, the readers are exact codecs,
  the encoders frame their packets, and the decoders accept exactly the layouts of the
  specification.
\<close>

section \<open>Variable byte integers\<close>

lemma mask_seven: "(0x7F :: 'a :: len word) = mask 7"
  by (simp add: mask_eq_exp_minus_1)

lemma bit_0x80 [simp]: "bit (0x80 :: int) n \<longleftrightarrow> n = 7"
  using bit_exp_iff [of 7 n, where 'a = int] by auto

lemma low_seven_bits:
  fixes v :: u32
  shows "(ucast ((ucast (v AND 0x7F) OR 0x80 :: u8) AND 0x7F) :: u32) = take_bit 7 v"
    and "(ucast (ucast (v AND 0x7F) AND 0x7F :: u8) :: u32) = take_bit 7 v"
  unfolding mask_seven
  by (auto intro!: bit_word_eqI simp: bit_simps)

lemma high_bit:
  fixes v :: u32
  shows  "(ucast (v AND 0x7F) OR 0x80 :: u8) AND 0x80 \<noteq> 0"
  unfolding mask_seven 
proof -
 have "bit ((ucast (v AND mask 7) OR 0x80 :: u8) AND 0x80) 7" by (simp add: bit_simps)
 then show "(ucast (v AND mask 7) OR 0x80 :: u8) AND 0x80 \<noteq> 0" by (metis bit_0_eq bot_apply bot_bool_def)
qed

lemma high_bit0: fixes v :: u32 shows "(ucast (v AND 0x7F) :: u8) AND 0x80 = 0"
  unfolding mask_seven
  by (rule bit_word_eqI) (auto simp: bit_simps)

lemma varint_step:
  fixes v :: u32
  shows "acc OR push_bit n (take_bit 7 v) OR push_bit (n+7) (drop_bit 7 v) = acc OR push_bit n v"
proof (rule bit_word_eqI)
  fix m
  have "n + 7 \<le> m \<Longrightarrow> 7 + (m - (n + 7)) = m - n" by simp
  then show "bit (acc OR push_bit n (take_bit 7 v) OR push_bit (n + 7) (drop_bit 7 v)) m =
      bit (acc OR push_bit n v) m" if "m < LENGTH(32)"
    using that by (cases "n + 7 \<le> m") (auto simp: bit_simps)
qed

lemma decode_encode_loop:
  "unat v < 128 ^ (4 - i) \<Longrightarrow> i < 4 \<Longrightarrow>
   decode_varint_loop i acc (take (4 - i) (encode_varint v @ rest)) =
     Some (acc OR push_bit (7 * i) v, i + length (encode_varint v))"
proof (induction v arbitrary: i acc rule: encode_varint.induct)
  case (1 v)
  show ?case
  proof (cases "drop_bit 7 v = 0")
    case True
    then have e: "encode_varint v = [ucast (v AND 0x7F)]" by (simp add: encode_varint.simps Let_def)
    have t: "take_bit 7 v = v" using True varint_step [of 0 0 v] by simp
    show ?thesis using 1 by (cases "4 - i") (simp_all add: e Let_def low_seven_bits high_bit0 t)
  next
    case False
    then have e: "encode_varint v = (ucast (v AND 0x7F) OR 0x80) # encode_varint (drop_bit 7 v)"
      by (subst encode_varint.simps) (simp only: Let_def word_neq_0_conv [symmetric] if_True if_False not_False_eq_True)
    have nz: "unat (drop_bit 7 v) \<noteq> 0" using False by (simp add: unat_eq_zero)
    have i: "Suc i < 4"
    proof (rule ccontr)
      assume "\<not> Suc i < 4"
      then have "i = 3" using 1 by simp
      with 1 have "unat v < 128" by simp
      with nz show False by (simp add: unat_drop_bit_7)
    qed
    then have s: "4 - i = Suc (4 - Suc i)" by simp
    have b: "unat (drop_bit 7 v) < 128 ^ (4 - Suc i)"
      using 1(2) unfolding s by (simp add: unat_drop_bit_7 less_mult_imp_div_less mult.commute)
    have v: "acc OR push_bit (7 * i) (take_bit 7 v) OR push_bit (7 * Suc i) (drop_bit 7 v) =
        acc OR push_bit (7 * i) v"
      using varint_step [of acc "7 * i" v] by (simp add: algebra_simps)
    show ?thesis
      using 1(1) [OF refl refl False b i, of "acc OR push_bit (7 * i) (take_bit 7 v)"] v
      by (simp add: s e Let_def low_seven_bits high_bit or.assoc)
  qed
qed


lemma unat_varint_bound: "unat v \<le> MAX_REMAINING \<longleftrightarrow> unat v < 128 ^ 4"
  by (simp add: MAX_REMAINING_def) linarith

lemma decode_encode_varint:
  assumes "unat v \<le> MAX_REMAINING"
  shows "decode_varint (encode_varint v @ rest) = Ok (Some (v, length (encode_varint v)))"
  using decode_encode_loop [of v 0 0 rest] assms
  by (simp add: decode_varint_def unat_varint_bound)

lemma rd_varint_encode [simp]:
  "unat v \<le> MAX_REMAINING \<Longrightarrow> rd_varint (encode_varint v @ rest) = Ok (v, rest)"
  by (simp add: rd_varint_def decode_encode_varint)

lemma length_encode_varint:
  assumes "unat v \<le> MAX_REMAINING"
  shows "length (encode_varint v) = varint_len (unat v)"
proof -
  have one: "length (encode_varint w) = (if unat w < 128 then 1 else 1 + length (encode_varint (drop_bit 7 w)))" for w
  proof -
    have "drop_bit 7 w = 0 \<longleftrightarrow> unat w < 128"
      by (simp add: unat_eq_zero [symmetric] unat_drop_bit_7 div_eq_0_iff)
    then show ?thesis by (subst encode_varint.simps) (simp add: Let_def)
  qed
  define v1 v2 v3 v4 where "v1 = drop_bit 7 v" and "v2 = drop_bit 7 v1" and "v3 = drop_bit 7 v2"
    and "v4 = drop_bit 7 v3"
  note unats = unat_drop_bit_7 [of v, folded v1_def] unat_drop_bit_7 [of v1, folded v2_def]
    unat_drop_bit_7 [of v2, folded v3_def]
  note lens = one [of v, folded v1_def] one [of v1, folded v2_def] one [of v2, folded v3_def]
    one [of v3, folded v4_def]
  have "unat v3 < 128" using assms unats by (simp add: MAX_REMAINING_def)
  then show ?thesis
    using lens unats by (simp add: varint_len_def) (auto split: if_splits)
qed

lemma decode_varint_loop_append:
  "decode_varint_loop i v bs = Some r \<Longrightarrow> decode_varint_loop i v (bs @ ext) = Some r"
  by (induction i v bs rule: decode_varint_loop.induct) (auto simp: Let_def)

lemma decode_varint_append:
  "decode_varint buf = Ok (Some r) \<Longrightarrow> decode_varint (buf @ ext) = Ok (Some r)"
  "decode_varint buf = Err e \<Longrightarrow> decode_varint (buf @ ext) = Err e"
proof -
  have "decode_varint_loop 0 0 (take 4 (buf @ ext)) = Some r"
    if "decode_varint_loop 0 0 (take 4 buf) = Some r"
    using decode_varint_loop_append [OF that] by (simp only: take_append)
  then show "decode_varint buf = Ok (Some r) \<Longrightarrow> decode_varint (buf @ ext) = Ok (Some r)"
    unfolding decode_varint_def by (cases "decode_varint_loop 0 0 (take 4 buf)") (simp_all del: take_append split: if_splits)
  show "decode_varint buf = Err e \<Longrightarrow> decode_varint (buf @ ext) = Err e"
    by (auto simp: decode_varint_def split: option.splits if_splits)
qed

lemma decode_varint_loop_value:
  "decode_varint_loop i v bs = Some (r, n) \<Longrightarrow> i + length bs \<le> 4 \<Longrightarrow>
     take_bit (7 * i) v = v \<Longrightarrow> take_bit (7 * n) r = r"
proof (induction i v bs rule: decode_varint_loop.induct)
  case (2 i v b bs)
  have m: "take_bit (7 * Suc i) (v OR push_bit (7 * i) (ucast (b AND 0x7F) :: u32)) =
     v OR push_bit (7 * i) (ucast (b AND 0x7F))"
  proof (rule bit_word_eqI)
    fix k
    have "bit v k \<Longrightarrow> k < 7 * i" using "2.prems"(3) by (metis bit_take_bit_iff)
    then show "bit (take_bit (7 * Suc i) (v OR push_bit (7 * i) (ucast (b AND 0x7F) :: u32))) k =
        bit (v OR push_bit (7 * i) (ucast (b AND 0x7F) :: u32)) k"
      unfolding mask_seven by (auto simp: bit_simps)
  qed
  show ?case
    using "2.prems"(1,2) m "2.IH" [OF refl] by (auto simp: Let_def split: if_splits)
qed simp

lemma rd_varint_bound:
  assumes "rd_varint buf = Ok (v, r)"
  shows "unat v \<le> MAX_REMAINING"
proof -
  obtain n where n: "decode_varint_loop 0 0 (take 4 buf) = Some (v, n)"
    using assms by (auto simp: rd_varint_def decode_varint_def and_then_Inr_iff split: option.splits if_splits)
  then have "take_bit (7 * n) v = v" and "n \<le> 4"
    using decode_varint_loop_value [OF n] decode_varint_loop_bounds [OF n] by auto
  then have "unat v < 2 ^ (7 * n)" by (metis take_bit_nat_less_exp unsigned_take_bit_eq)
  also have "(2 :: nat) ^ (7 * n) \<le> 2 ^ 28" using \<open>n \<le> 4\<close> by (intro power_increasing) simp_all
  finally show ?thesis by (simp add: MAX_REMAINING_def)
qed

section \<open>The readers as exact codecs\<close>

lemma rd_take_Ok: "rd_take n buf = Ok (x, r) \<longleftrightarrow> length x = n \<and> buf = x @ r"
  by (auto simp: rd_take_def)

interpretation cu8: exact_codec rd_u8 "\<lambda>b. [b]" "\<lambda>_. True"
proof
  show "rd_u8 buf = Inr (x, r) \<longleftrightarrow> True \<and> buf = [x] @ r" for buf x r
    by (cases buf) (auto simp: rd_u8_def rd_take_def)
qed

interpretation cu16: exact_codec rd_u16 u16_to_be "\<lambda>_. True"
proof
  show "rd_u16 buf = Inr (x, r) \<longleftrightarrow> True \<and> buf = u16_to_be x @ r" for buf x r
    by (auto simp: rd_u16_def and_then_Inr_iff rd_take_Ok to_be_from_be intro: exI [of _ "u16_to_be x"])
qed

interpretation cu32: exact_codec rd_u32 u32_to_be "\<lambda>_. True"
proof
  show "rd_u32 buf = Inr (x, r) \<longleftrightarrow> True \<and> buf = u32_to_be x @ r" for buf x r
    by (auto simp: rd_u32_def and_then_Inr_iff rd_take_Ok to_be_from_be intro: exI [of _ "u32_to_be x"])
qed

definition binary_ok :: "bytes \<Rightarrow> bool" where
  "binary_ok bs \<longleftrightarrow> length bs < 65536"

interpretation cbin: exact_codec rd_binary put_binary binary_ok
proof
  fix buf x r
  show "rd_binary buf = Inr (x, r) \<longleftrightarrow> binary_ok x \<and> buf = put_binary x @ r"
  proof
    assume "rd_binary buf = Inr (x, r)"
    then obtain len where "buf = u16_to_be len @ x @ r" "length x = unat len"
      by (auto simp: rd_binary_def and_then_Inr_iff cu16.read_Ok_iff rd_take_Ok)
    then show "binary_ok x \<and> buf = put_binary x @ r"
      using unat_bounds(2) [of len] by (simp add: binary_ok_def put_binary_def)
  next
    assume "binary_ok x \<and> buf = put_binary x @ r"
    then show "rd_binary buf = Inr (x, r)"
      by (simp add: binary_ok_def put_binary_def rd_binary_def cu16.read_put rd_take_Ok unat_of_nat)
  qed
qed

text \<open>The strings that may stand in a packet: UTF-8 without the null character, 16-bit length.\<close>

definition wire_str :: "string \<Rightarrow> bool" where
  "wire_str s \<longleftrightarrow> valid_str s \<and> CHR 0x00 \<notin> set s \<and> length s < 65536"

interpretation cstr: exact_codec rd_utf8 put_str wire_str
proof
  show "rd_utf8 buf = Inr (x, r) \<longleftrightarrow> wire_str x \<and> buf = put_str x @ r" for buf x r
    by (auto simp: rd_utf8_def and_then_Inr_iff cbin.read_Ok_iff binary_ok_def wire_str_def
        put_str_def dest: from_utf8_SomeD intro: exI [of _ "as_bytes x"] split: option.splits)
qed

definition sub_entry_ok :: "string \<times> u8 \<Rightarrow> bool" where
  "sub_entry_ok e \<longleftrightarrow> valid_str (fst e) \<and> fst e \<noteq> [] \<and> length (fst e) < 65536"

definition put_sub_entry :: "string \<times> u8 \<Rightarrow> bytes" where
  "put_sub_entry e = put_str (fst e) @ [snd e]"

interpretation csub: exact_list_codec rd_subscribe_entry put_sub_entry sub_entry_ok subscribe_filters
proof
  show "rd_subscribe_entry buf = Inr (x, r) \<longleftrightarrow> sub_entry_ok x \<and> buf = put_sub_entry x @ r" for buf x r
    by (cases x) (auto simp: rd_subscribe_entry_def and_then_Inr_iff cbin.read_Ok_iff binary_ok_def
        cu8.read_Ok_iff sub_entry_ok_def put_sub_entry_def put_str_def
        dest: from_utf8_SomeD intro: exI [of _ "as_bytes (fst x)"] split: option.splits)
  show "put_sub_entry x \<noteq> []" for x by (simp add: put_sub_entry_def)
  show "subscribe_filters buf =
      (if buf = [] then Inr []
       else case rd_subscribe_entry buf of
         Inl e \<Rightarrow> Inl e
       | Inr (x, r) \<Rightarrow> and_then (subscribe_filters r) (\<lambda>xs. Inr (x # xs)))" for buf
    by (rule subscribe_filters.simps)
qed

definition unsub_entry_ok :: "string \<Rightarrow> bool" where
  "unsub_entry_ok s \<longleftrightarrow> wire_str s \<and> s \<noteq> []"

interpretation cuns: exact_list_codec rd_unsubscribe_entry put_str unsub_entry_ok unsubscribe_filters
proof
  show "rd_unsubscribe_entry buf = Inr (x, r) \<longleftrightarrow> unsub_entry_ok x \<and> buf = put_str x @ r" for buf x r
    by (auto simp: rd_unsubscribe_entry_def and_then_Inr_iff cstr.read_Ok_iff unsub_entry_ok_def)
  show "put_str x \<noteq> []" for x by (simp add: put_str_def put_binary_def)
  show "unsubscribe_filters buf =
      (if buf = [] then Inr []
       else case rd_unsubscribe_entry buf of
         Inl e \<Rightarrow> Inl e
       | Inr (x, r) \<Rightarrow> and_then (unsubscribe_filters r) (\<lambda>xs. Inr (x # xs)))" for buf
    by (rule unsubscribe_filters.simps)
qed

lemmas reader_iffs = cu8.read_Ok_iff cu16.read_Ok_iff cu32.read_Ok_iff cbin.read_Ok_iff
  cstr.read_Ok_iff csub.loop_Ok_iff cuns.loop_Ok_iff

lemmas reader_puts = cu8.read_put cu16.read_put cu32.read_put cbin.read_put cstr.read_put

section \<open>Framing\<close>

text \<open>A packet is framed when its fixed header, in front of any further bytes, gives its length.\<close>

definition framed :: "bytes \<Rightarrow> u8 \<Rightarrow> bool" where
  "framed enc k \<longleftrightarrow>
     (\<forall>rest. \<exists>h. fixed_header (enc @ rest) = Ok (Some h) \<and> fh_kind h = k \<and> packet_len h = length enc)"

lemma unat_of_nat_remaining [simp]:
  "n \<le> MAX_REMAINING \<Longrightarrow> unat (of_nat n :: u32) = n"
  by (simp add: MAX_REMAINING_def unat_of_nat)

lemma fixed_header_put:
  assumes "n \<le> MAX_REMAINING" and "expected_flags (drop_bit 4 first) (first AND 0x0F) = Some (first AND 0x0F)"
  shows "fixed_header (put_fixed_header first n @ rest) =
    Ok (Some \<lparr>fh_kind = drop_bit 4 first, fh_flags = first AND 0x0F,
             fh_header_len = 1 + varint_len n, fh_remaining = n\<rparr>)"
  using assms
  by (simp add: fixed_header_def put_fixed_header_def decode_encode_varint length_encode_varint Let_def)

lemma length_put_fixed_header [simp]:
  "n \<le> MAX_REMAINING \<Longrightarrow> length (put_fixed_header first n) = 1 + varint_len n"
  by (simp add: put_fixed_header_def length_encode_varint)

lemma framed_put:
  assumes "n = length body" and "n \<le> MAX_REMAINING"
    and "expected_flags (drop_bit 4 first) (first AND 0x0F) = Some (first AND 0x0F)"
    and "k = drop_bit 4 first"
  shows "framed (put_fixed_header first n @ body) k"
  using assms fixed_header_put [of n first]
  by (simp add: framed_def packet_len_def)

lemma put_fixed_header_small:
  "put_fixed_header b 0 = [b, 0]" "put_fixed_header b 1 = [b, 1]"
  "put_fixed_header b 2 = [b, 2]" "put_fixed_header b 3 = [b, 3]"
  by (simp_all add: put_fixed_header_def encode_varint.simps)

lemma length_put_binary [simp]: "length (put_binary bs) = 2 + length bs"
  by (simp add: put_binary_def)

lemma length_put_str [simp]: "length (put_str s) = 2 + length s"
  by (simp add: put_str_def)

text \<open>The section length that the encoder computes is the number of bytes it writes.\<close>

lemma length_publish_section:
  assumes "o_subscription_id p \<le> MAX_SUB_ID"
  shows "length (publish_section p) = publish_section_len p"
proof -
  have s: "unat (o_subscription_id p) \<le> MAX_REMAINING"
    using assms by (simp add: MAX_SUB_ID_def MAX_REMAINING_def word_le_nat_alt)
  have "length (concat (map (\<lambda>(k, v). ucast PROP_USER_PROPERTY # put_binary k @ put_binary v) ups)) =
      sum_list (map (\<lambda>(k, v). 1 + 2 + length k + 2 + length v) ups)" for ups
    by (induction ups) auto
  with s show ?thesis
    by (simp add: publish_section_def publish_section_len_def length_encode_varint)
qed

lemma publish_remaining_length:
  assumes "o_subscription_id p \<le> MAX_SUB_ID" and "publish_remaining p level \<le> MAX_REMAINING"
  shows "encode_publish p level = put_fixed_header (publish_first p) (publish_remaining p level) @
    drop (1 + varint_len (publish_remaining p level)) (encode_publish p level)"
    and "length (encode_publish p level) =
      1 + varint_len (publish_remaining p level) + publish_remaining p level"
proof -
  have "level = 5 \<Longrightarrow> publish_section_len p \<le> MAX_REMAINING"
    using assms(2) by (simp add: publish_remaining_def)
  then have "level = 5 \<Longrightarrow> length (encode_varint (of_nat (publish_section_len p))) = varint_len (publish_section_len p)"
    by (simp add: length_encode_varint)
  then show "length (encode_publish p level) =
      1 + varint_len (publish_remaining p level) + publish_remaining p level"
    using assms
    by (auto simp: encode_publish_def length_publish_section publish_remaining_def [of p level])
  show "encode_publish p level = put_fixed_header (publish_first p) (publish_remaining p level) @
    drop (1 + varint_len (publish_remaining p level)) (encode_publish p level)"
    using assms by (simp add: encode_publish_def)
qed

lemma publish_first_bits:
  "drop_bit 4 (publish_first p) = KIND_PUBLISH"
  "(publish_first p AND 0x0F) AND 0x08 \<noteq> 0 \<longleftrightarrow> o_dup p"
  "drop_bit 1 (publish_first p AND 0x0F) AND 0x03 = o_qos p AND 0x03"
  "(publish_first p AND 0x0F) AND 0x01 \<noteq> 0 \<longleftrightarrow> o_retain p"
proof -
  define q where "q = o_qos p AND 3"
  have q: "q = 0 \<or> q = 1 \<or> q = 2 \<or> q = 3" using and_three_cases [of "o_qos p"] by (auto simp: q_def)
  have f: "publish_first p = 0x30 OR push_bit 3 (u8_of_bool (o_dup p)) OR push_bit 1 q OR u8_of_bool (o_retain p)"
    by (simp only: publish_first_def q_def)
  from q show "drop_bit 4 (publish_first p) = KIND_PUBLISH"
    "(publish_first p AND 0x0F) AND 0x08 \<noteq> 0 \<longleftrightarrow> o_dup p"
    "drop_bit 1 (publish_first p AND 0x0F) AND 0x03 = o_qos p AND 0x03"
    "(publish_first p AND 0x0F) AND 0x01 \<noteq> 0 \<longleftrightarrow> o_retain p"
    unfolding f q_def [symmetric] by (elim disjE; simp add: u8_of_bool_def)+
qed

lemma framed_publish:
  assumes "o_subscription_id p \<le> MAX_SUB_ID" and "publish_remaining p level \<le> MAX_REMAINING"
  shows "framed (encode_publish p level) KIND_PUBLISH"
proof -
  note len = publish_remaining_length [OF assms]
  have "framed (put_fixed_header (publish_first p) (publish_remaining p level) @
    drop (1 + varint_len (publish_remaining p level)) (encode_publish p level)) KIND_PUBLISH"
    using len(2) assms by (intro framed_put) (simp_all add: publish_first_bits expected_flags_def)
  then show ?thesis using len(1) by simp
qed

lemma framed_connack: "framed (encode_connack present code) KIND_CONNACK"
proof -
  have "framed (put_fixed_header 0x20 2 @ [u8_of_bool present, code]) KIND_CONNACK"
    by (intro framed_put) (simp_all add: expected_flags_def MAX_REMAINING_def)
  then show ?thesis by (simp add: encode_connack_def put_fixed_header_small)
qed

lemma framed_connack_v5:
  assumes "2 + varint_len (length (connack_section props)) + length (connack_section props) \<le> MAX_REMAINING"
  shows "framed (encode_connack_v5 present reason props) KIND_CONNACK"
  unfolding encode_connack_v5_def Let_def
  using assms by (intro framed_put) (simp_all add: expected_flags_def length_encode_varint)

lemma framed_suback:
  assumes "3 + length codes \<le> MAX_REMAINING"
  shows "framed (encode_suback packet_id codes level) KIND_SUBACK"
  unfolding encode_suback_def
  using assms by (intro framed_put) (simp_all add: expected_flags_def)

lemma framed_unsuback:
  assumes "3 + length codes \<le> MAX_REMAINING"
  shows "framed (encode_unsuback packet_id codes level) KIND_UNSUBACK"
proof (cases "level = 5")
  case True
  have "framed (put_fixed_header 0xB0 (2 + 1 + length codes) @ u16_to_be packet_id @ [0] @ codes) KIND_UNSUBACK"
    using assms by (intro framed_put) (simp_all add: expected_flags_def)
  with True show ?thesis by (simp add: encode_unsuback_def)
next
  case False
  have "framed (put_fixed_header 0xB0 2 @ u16_to_be packet_id) KIND_UNSUBACK"
    by (intro framed_put) (simp_all add: expected_flags_def MAX_REMAINING_def)
  with False show ?thesis by (simp add: encode_unsuback_def put_fixed_header_small)
qed

definition ack_kinds :: "u8 list" where
  "ack_kinds = [KIND_PUBACK, KIND_PUBREC, KIND_PUBREL, KIND_PUBCOMP]"

lemma encode_ack_eq:
  "encode_ack k packet_id reason level =
     (let first = push_bit 4 k OR (if k = KIND_PUBREL then 0x02 else 0x00) in
      if level = 5 \<and> reason \<noteq> 0 then put_fixed_header first 3 @ u16_to_be packet_id @ [reason]
      else put_fixed_header first 2 @ u16_to_be packet_id)"
  by (simp add: encode_ack_def Let_def put_fixed_header_small)

lemma ack_first:
  assumes "k \<in> set ack_kinds"
  defines "first \<equiv> push_bit 4 k OR (if k = KIND_PUBREL then 0x02 else 0x00)"
  shows "drop_bit 4 first = k" and "expected_flags (drop_bit 4 first) (first AND 0x0F) = Some (first AND 0x0F)"
  using assms(1) unfolding first_def by (auto simp: ack_kinds_def expected_flags_def)

lemma framed_ack:
  assumes "k \<in> set ack_kinds"
  shows "framed (encode_ack k packet_id reason level) k"
  unfolding encode_ack_eq Let_def
  using ack_first [OF assms] by (auto intro!: framed_put simp: MAX_REMAINING_def)

lemma framed_pingresp: "framed encode_pingresp KIND_PINGRESP"
proof -
  have "framed (put_fixed_header 0xD0 0 @ []) KIND_PINGRESP"
    by (intro framed_put) (simp_all add: expected_flags_def)
  then show ?thesis by (simp add: encode_pingresp_def put_fixed_header_small)
qed

lemma framed_disconnect: "framed (encode_disconnect_v5 reason) KIND_DISCONNECT"
proof -
  have "framed (put_fixed_header 0xE0 0 @ []) KIND_DISCONNECT"
    and "framed (put_fixed_header 0xE0 1 @ [reason]) KIND_DISCONNECT"
    by (intro framed_put; simp add: expected_flags_def MAX_REMAINING_def)+
  then show ?thesis by (simp add: encode_disconnect_v5_def put_fixed_header_small del: One_nat_def)
qed

end
