(* ===== verification/Wire_Packets.thy ===== *)
theory Wire_Packets
  imports Wire_Laws
begin

text \<open>
  The packets of the MQTT codec: what the walk over a property section preserves, the round trip of
  a PUBLISH through encoder and decoder, and the exact layouts that the decoders accept.
\<close>

section \<open>Property sections\<close>

lemma rd_varint_small: "b AND 0x80 = 0 \<Longrightarrow> rd_varint (b # r) = Ok (ucast (b AND 0x7F), r)"
  by (simp add: rd_varint_def decode_varint_def Let_def)

lemma walk_loop_Nil [simp]: "walk_loop visit u st [] = Ok st"
  by (simp add: walk_loop.simps)

lemma walk_loop_step:
  assumes "read_property buf u = Ok (pid, v, u', r)"
  shows "walk_loop visit u st buf = and_then (visit pid v st) (\<lambda>st'. walk_loop visit u' st' r)"
proof -
  have "buf \<noteq> []" using assms read_property_length by fastforce
  with assms show ?thesis by (subst walk_loop.simps) simp
qed

definition user_prop_ok :: "string \<times> string \<Rightarrow> bool" where
  "user_prop_ok kv \<longleftrightarrow> wire_str (fst kv) \<and> wire_str (snd kv) \<and>
     length (fst kv) \<le> MAX_PROP_STRING \<and> length (snd kv) \<le> MAX_PROP_STRING"

lemma read_publish_props:
  "read_property (35 # u16_to_be a @ r) u = Ok (PROP_TOPIC_ALIAS, PvU16 a, u, r)"
  "read_property (1 # f # r) u = Ok (PROP_PAYLOAD_FORMAT, PvByte f, u, r)"
  "read_property (2 # u32_to_be e @ r) u = Ok (PROP_MESSAGE_EXPIRY, PvU32 e, u, r)"
  using cu8.read_put [of f r]
  by (simp_all add: read_property_def rd_varint_small reader_puts)

lemma read_user_prop:
  assumes "user_prop_ok (k, v)" and "u < MAX_USER_PROPS"
  shows "read_property (38 # put_str k @ put_str v @ r) u =
    Ok (PROP_USER_PROPERTY, PvPair k v, u + 1, r)"
  using assms by (simp add: read_property_def rd_varint_small reader_puts user_prop_ok_def)

text \<open>Properties that a successful round of the walk has.\<close>

definition prop_ok :: "prop_value \<Rightarrow> nat \<Rightarrow> nat \<Rightarrow> bool" where
  "prop_ok v u u' \<longleftrightarrow>
     (case v of PvPair k t \<Rightarrow> user_prop_ok (k, t) \<and> u' = u + 1 \<and> u' \<le> MAX_USER_PROPS
      | PvText t \<Rightarrow> wire_str t \<and> u' = u
      | PvVarint n \<Rightarrow> n \<le> MAX_SUB_ID \<and> u' = u
      | _ \<Rightarrow> u' = u)"

lemma rd_varint_sub_id: "rd_varint buf = Ok (v, r) \<Longrightarrow> v \<le> MAX_SUB_ID"
  using rd_varint_bound by (fastforce simp: MAX_SUB_ID_def MAX_REMAINING_def word_le_nat_alt)

lemma read_property_ok:
  "read_property buf u = Ok (pid, v, u', r) \<Longrightarrow> prop_ok v u u'"
  by (simp add: read_property_def and_then_Inr_iff prop_ok_def split: if_splits prod.splits)
    (auto simp: reader_iffs user_prop_ok_def dest: rd_varint_sub_id)

lemma walk_loop_invariant:
  assumes "walk_loop visit u st buf = Ok st'" and "I u st"
    and "\<And>pid v u u' st st'. I u st \<Longrightarrow> prop_ok v u u' \<Longrightarrow> visit pid v st = Ok st' \<Longrightarrow> I u' st'"
  shows "\<exists>u'. I u' st'"
  using assms
proof (induction visit u st buf rule: walk_loop.induct)
  case (1 visit u st buf)
  show ?case
  proof (cases "buf = []")
    case True
    with 1 show ?thesis by (auto simp: walk_loop.simps)
  next
    case False
    with "1.prems"(1) obtain pid v u2 r st2 where
      rp: "read_property buf u = Ok (pid, v, u2, r)" and vs: "visit pid v st = Ok st2"
      and w: "walk_loop visit u2 st2 r = Ok st'"
      by (subst (asm) walk_loop.simps) (auto simp: and_then_Inr_iff split: sum.splits)
    have "I u2 st2" by (rule "1.prems"(3) [OF "1.prems"(2) read_property_ok [OF rp] vs])
    from "1.IH" [OF False rp refl refl refl vs w this] "1.prems"(3) show ?thesis by blast
  qed
qed

section \<open>PUBLISH\<close>

definition out_user :: "bytes \<times> bytes \<Rightarrow> string \<times> string" where
  "out_user kv = (of_bytes (fst kv), of_bytes (snd kv))"

lemma out_user_pair: "out_user (k, v) = (of_bytes k, of_bytes v)"
  by (simp add: out_user_def)

lemma publish_visit_simps:
  "publish_visit 38 (PvPair k t) st = Ok (st\<lparr>pp_users := pp_users st @ [(k, t)]\<rparr>)"
  "publish_visit 35 (PvU16 n) st = and_then (set_once (pp_alias st) n) (\<lambda>x. Ok (st\<lparr>pp_alias := x\<rparr>))"
  "publish_visit 2 (PvU32 m) st = and_then (set_once (pp_expiry st) m) (\<lambda>x. Ok (st\<lparr>pp_expiry := x\<rparr>))"
  "b \<le> 1 \<Longrightarrow>
   publish_visit 1 (PvByte b) st = and_then (set_once (pp_format st) b) (\<lambda>x. Ok (st\<lparr>pp_format := x\<rparr>))"
  by (simp_all add: publish_visit_def)

lemma publish_props_none_fields:
  "pp_alias publish_props_none = None" "pp_format publish_props_none = None"
  "pp_expiry publish_props_none = None" "pp_users publish_props_none = []"
  by (simp_all add: publish_props_none_def)

lemma walk_user_props:
  "\<forall>kv\<in>set ups. user_prop_ok (out_user kv) \<Longrightarrow> u + length ups \<le> MAX_USER_PROPS \<Longrightarrow>
   walk_loop publish_visit u st
     (concat (map (\<lambda>(k, v). 38 # put_binary k @ put_binary v) ups)) =
   Ok (st\<lparr>pp_users := pp_users st @ map out_user ups\<rparr>)"
proof (induction ups arbitrary: u st)
  case (Cons kv ups)
  obtain k v where kv: "kv = (k, v)" by (cases kv)
  let ?rest = "concat (map (\<lambda>(k, v). 38 # put_binary k @ put_binary v) ups)"
  have "read_property (38 # put_binary k @ put_binary v @ ?rest) u =
      Ok (PROP_USER_PROPERTY, PvPair (of_bytes k) (of_bytes v), u + 1, ?rest)"
    using read_user_prop [of "of_bytes k" "of_bytes v" u ?rest] Cons.prems kv
    by (simp add: out_user_pair put_str_def)
  from walk_loop_step [OF this, of publish_visit st] Cons kv show ?case
    by (simp add: publish_visit_simps out_user_pair)
qed simp

text \<open>What a client may send: the conditions under which the broker accepts its PUBLISH.\<close>

definition publish_ok :: "publish_out \<Rightarrow> u8 \<Rightarrow> bool" where
  "publish_ok p level \<longleftrightarrow>
     o_qos p \<le> 2 \<and> (o_qos p = 0 \<longrightarrow> \<not> o_dup p) \<and> (o_qos p \<noteq> 0 \<longrightarrow> o_packet_id p \<noteq> 0) \<and>
     wire_str (o_topic p) \<and> CHR ''+'' \<notin> set (o_topic p) \<and> CHR ''#'' \<notin> set (o_topic p) \<and>
     (o_topic p = [] \<longrightarrow> level = 5 \<and> o_alias p \<noteq> 0) \<and>
     o_subscription_id p = 0 \<and> o_payload_format p \<le> 1 \<and>
     length (o_user_properties p) \<le> MAX_USER_PROPS \<and>
     (\<forall>kv\<in>set (o_user_properties p). user_prop_ok (out_user kv)) \<and>
     publish_remaining p level \<le> MAX_REMAINING"

text \<open>The packet the receiver sees: protocol level 4 has no properties.\<close>

definition publish_of :: "publish_out \<Rightarrow> u8 \<Rightarrow> publish" where
  "publish_of p level =
     \<lparr>p_dup = o_dup p, p_qos = o_qos p, p_retain = o_retain p, p_topic = o_topic p,
      p_packet_id = (if o_qos p = 0 then 0 else o_packet_id p),
      p_alias = (if level = 5 \<and> o_alias p \<noteq> 0 then Some (o_alias p) else None),
      p_payload_format = (if level = 5 then o_payload_format p else 0),
      p_message_expiry = (if level = 5 then o_message_expiry p else 0),
      p_user_properties = (if level = 5 then map out_user (o_user_properties p) else []),
      p_payload = o_payload p\<rparr>"

lemma walk_publish_section:
  assumes "publish_ok p level"
  shows "walk_properties (publish_section p) publish_visit publish_props_none =
    Ok \<lparr>pp_alias = (if o_alias p \<noteq> 0 then Some (o_alias p) else None),
        pp_format = (if o_payload_format p \<noteq> 0 then Some (o_payload_format p) else None),
        pp_expiry = (if o_message_expiry p \<noteq> 0 then Some (o_message_expiry p) else None),
        pp_users = map out_user (o_user_properties p)\<rparr>"
proof -
  have users: "walk_loop publish_visit 0 st
     (concat (map (\<lambda>(k, v). 38 # put_binary k @ put_binary v) (o_user_properties p))) =
     Ok (st\<lparr>pp_users := pp_users st @ map out_user (o_user_properties p)\<rparr>)" for st
    using assms by (intro walk_user_props) (simp_all add: publish_ok_def)
  show ?thesis
    using assms
    by (simp add: walk_properties_def publish_section_def publish_ok_def publish_props_none_def
        walk_loop_step [OF read_publish_props(1)] walk_loop_step [OF read_publish_props(2)]
        walk_loop_step [OF read_publish_props(3)]
        publish_visit_simps set_once_def users)
qed

lemma encode_publish_body:
  assumes "publish_ok p level"
  shows "decode_publish (publish_first p AND 0x0F)
     (put_str (o_topic p) @ (if o_qos p > 0 then u16_to_be (o_packet_id p) else []) @
      (if level = 5 then encode_varint (of_nat (publish_section_len p)) @ publish_section p else []) @
      o_payload p) level = Ok (publish_of p level)"
proof -
  have len: "length (publish_section p) = publish_section_len p"
    using assms by (intro length_publish_section) (simp add: publish_ok_def)
  have small: "level = 5 \<Longrightarrow> publish_section_len p \<le> MAX_REMAINING"
    using assms by (simp add: publish_ok_def publish_remaining_def)
  have props: "level = 5 \<Longrightarrow> rd_properties (encode_varint (of_nat (publish_section_len p)) @ publish_section p @ r)
     = Ok (publish_section p, r)" for r
    using small len by (simp add: rd_properties_def rd_take_Ok)
  have qos: "drop_bit 1 (publish_first p AND 0x0F) AND 0x03 = o_qos p"
    using assms by (simp only: publish_first_bits qos_and_three publish_ok_def)
  have ok: "\<not> o_qos p > 2" "\<not> (o_qos p = 0 \<and> o_dup p)" "o_qos p \<noteq> 0 \<Longrightarrow> o_packet_id p \<noteq> 0"
    "wire_str (o_topic p)" "CHR ''+'' \<notin> set (o_topic p)" "CHR ''#'' \<notin> set (o_topic p)"
    "o_topic p \<noteq> [] \<or> level = 5 \<and> o_alias p \<noteq> 0"
    using assms by (auto simp: publish_ok_def)
  show ?thesis
    unfolding decode_publish_def qos publish_first_bits(2,4) Let_def
    using ok
    by (cases "o_qos p = 0"; cases "level = 5")
      (simp_all add: cstr.read_put cu16.read_put props walk_publish_section [OF assms]
       publish_of_def publish_props_none_fields unwrap_or_def word_gt_0)
qed

section \<open>CONNECT of protocol levels 3 and 4\<close>

text \<open>The layout that MQTT 3.1 and 3.1.1 give a CONNECT body.\<close>

definition connect_name :: "u8 \<Rightarrow> string" where
  "connect_name level = (if level = 3 then ''MQIsdp'' else ''MQTT'')"

definition connect_flags :: "connect \<Rightarrow> u8" where
  "connect_flags c =
     (if c_username c \<noteq> None then 0x80 else 0) OR (if c_password c \<noteq> None then 0x40 else 0) OR
     (case c_will c of
        None \<Rightarrow> 0
      | Some w \<Rightarrow> (if w_retain w then 0x20 else 0) OR push_bit 3 (w_qos w) OR 0x04) OR
     (if c_clean_start c then 0x02 else 0)"

definition put_will :: "will option \<Rightarrow> bytes" where
  "put_will w = (case w of None \<Rightarrow> [] | Some w \<Rightarrow> put_str (w_topic w) @ put_binary (w_payload w))"

definition connect_layout :: "connect \<Rightarrow> bytes" where
  "connect_layout c =
     put_str (connect_name (c_level c)) @ [c_level c, connect_flags c] @
     u16_to_be (c_keepalive c) @ put_str (c_client_id c) @ put_will (c_will c) @
     case_option [] put_str (c_username c) @ case_option [] put_binary (c_password c)"

definition will_ok :: "will \<Rightarrow> bool" where
  "will_ok w \<longleftrightarrow> wire_str (w_topic w) \<and> binary_ok (w_payload w) \<and> w_qos w \<le> 2"

definition connect_ok :: "connect \<Rightarrow> bool" where
  "connect_ok c \<longleftrightarrow>
     (c_level c = 3 \<or> c_level c = 4) \<and> wire_str (c_client_id c) \<and>
     (\<forall>w. c_will c = Some w \<longrightarrow> will_ok w) \<and>
     (\<forall>s. c_username c = Some s \<longrightarrow> wire_str s) \<and>
     (\<forall>s. c_password c = Some s \<longrightarrow> binary_ok s \<and> c_username c \<noteq> None) \<and>
     c_properties c = None"

definition flag_fields :: "u8 \<Rightarrow> bool \<Rightarrow> bool \<Rightarrow> u8 \<Rightarrow> bool \<Rightarrow> bool \<Rightarrow> bool \<Rightarrow> bool" where
  "flag_fields flags clean wl wq wr pw un \<longleftrightarrow>
     \<not> (flags AND 0x01 \<noteq> 0) \<and> clean = (flags AND 0x02 \<noteq> 0) \<and> wl = (flags AND 0x04 \<noteq> 0) \<and>
     wq = (drop_bit 3 flags AND 0x03) \<and> wr = (flags AND 0x20 \<noteq> 0) \<and>
     pw = (flags AND 0x40 \<noteq> 0) \<and> un = (flags AND 0x80 \<noteq> 0)"

definition flag_byte :: "bool \<Rightarrow> bool \<Rightarrow> u8 \<Rightarrow> bool \<Rightarrow> bool \<Rightarrow> bool \<Rightarrow> u8" where
  "flag_byte clean wl wq wr pw un =
     (if un then 0x80 else 0) OR (if pw then 0x40 else 0) OR (if wr then 0x20 else 0) OR
     push_bit 3 wq OR (if wl then 0x04 else 0) OR (if clean then 0x02 else 0)"

lemma flag_fieldsD:
  assumes "flag_fields flags clean wl wq wr pw un"
  shows "flags AND 0x01 = 0" "flags AND 0x02 = 0 \<longleftrightarrow> \<not> clean"
    "flags AND 0x04 = 0 \<longleftrightarrow> \<not> wl" "drop_bit 3 flags AND 0x03 = wq"
    "flags AND 0x20 = 0 \<longleftrightarrow> \<not> wr" "flags AND 0x40 = 0 \<longleftrightarrow> \<not> pw"
    "flags AND 0x80 = 0 \<longleftrightarrow> \<not> un"
  using assms by (simp_all add: flag_fields_def)

lemma flag_byte_fields:
  assumes "wq = 0 \<or> wq = 1 \<or> wq = 2 \<or> wq = 3"
  shows "flag_fields (flag_byte clean wl wq wr pw un) clean wl wq wr pw un"
  unfolding flag_fields_def flag_byte_def
  using assms by (elim disjE; cases clean; cases wl; cases wr; cases pw; cases un; simp)

lemma flag_fields_unique:
  assumes "flag_fields flags clean wl wq wr pw un"
  shows "flags = flag_byte clean wl wq wr pw un"
proof -
  have m: "(3 :: u8) = mask 2" by (simp add: mask_eq_exp_minus_1)
  from assms have *: "\<not> bit flags 0" "clean = bit flags 1" "wl = bit flags 2" "wr = bit flags 5"
    "pw = bit flags 6" "un = bit flags 7" "wq = drop_bit 3 flags AND mask 2"
    unfolding flag_fields_def byte_bits m by blast+
  show ?thesis
    unfolding byte_eq_bits flag_byte_def *(2-7) using *(1)
    by (simp add: bit_simps)
qed

lemma decode_will_v4D:
  "decode_will level wl wq wr buf = Ok (w, r) \<Longrightarrow> level \<noteq> 5 \<Longrightarrow>
     wl = (w \<noteq> None) \<and> buf = put_will w @ r \<and>
     (\<forall>x. w = Some x \<longrightarrow> w_qos x = wq \<and> w_retain x = wr \<and> wire_str (w_topic x) \<and> binary_ok (w_payload x))"
  by (auto simp: decode_will_def and_then_Inr_iff reader_iffs put_will_def split: if_splits)

lemma decode_will_v4I:
  assumes "level \<noteq> 5" and "\<forall>x. w = Some x \<longrightarrow> will_ok x"
  shows "decode_will level (w \<noteq> None) (case w of None \<Rightarrow> 0 | Some x \<Rightarrow> w_qos x)
     (case w of None \<Rightarrow> False | Some x \<Rightarrow> w_retain x) (put_will w @ r) = Ok (w, r)"
  using assms
  by (auto simp: decode_will_def reader_puts put_will_def will_ok_def split: option.splits)

lemma rd_opt_Ok:
  "rd_opt flag rd buf = Ok (x, r) \<longleftrightarrow>
     (if flag then \<exists>y. x = Some y \<and> rd buf = Ok (y, r) else x = None \<and> buf = r)"
  by (auto simp: rd_opt_def and_then_Inr_iff)

lemma connect_flags_byte:
  "connect_flags c = flag_byte (c_clean_start c) (c_will c \<noteq> None)
     (case c_will c of None \<Rightarrow> 0 | Some w \<Rightarrow> w_qos w)
     (case c_will c of None \<Rightarrow> False | Some w \<Rightarrow> w_retain w)
     (c_password c \<noteq> None) (c_username c \<noteq> None)"
  by (auto simp: connect_flags_def flag_byte_def or.assoc split: option.splits)

lemma wire_str_protocol: "wire_str (connect_name level)"
  by (simp add: connect_name_def wire_str_def valid_str_ascii)

lemma connect_flags_fields:
  assumes "connect_ok c"
  shows "flag_fields (connect_flags c) (c_clean_start c) (c_will c \<noteq> None)
     (case c_will c of None \<Rightarrow> 0 | Some w \<Rightarrow> w_qos w)
     (case c_will c of None \<Rightarrow> False | Some w \<Rightarrow> w_retain w)
     (c_password c \<noteq> None) (c_username c \<noteq> None)"
  unfolding connect_flags_byte
  by (rule flag_byte_fields) (use assms in \<open>auto simp: connect_ok_def will_ok_def dest: qos_le_two split: option.splits\<close>)

lemma decode_connect_layout:
  assumes "connect_ok c"
  shows "decode_connect (connect_layout c) = Ok c"
proof -
  let ?q = "case c_will c of None \<Rightarrow> 0 | Some w \<Rightarrow> w_qos w"
    and ?r = "case c_will c of None \<Rightarrow> False | Some w \<Rightarrow> w_retain w" and ?F = "connect_flags c"
  note F = flag_fieldsD [OF connect_flags_fields [OF assms]]
  have q: "\<not> (?q > 2 \<or> (c_will c = None \<and> (?q \<noteq> 0 \<or> ?r)))"
    using assms by (auto simp: connect_ok_def will_ok_def split: option.splits)
  have lv: "c_level c \<noteq> 5" using assms by (auto simp: connect_ok_def)
  have u: "rd_opt (c_username c \<noteq> None) rd_utf8 (case_option [] put_str (c_username c) @ r) = Ok (c_username c, r)" for r
    using assms by (auto simp: rd_opt_def cstr.read_put connect_ok_def split: option.splits)
  have p: "rd_opt (c_password c \<noteq> None) rd_binary (case_option [] put_binary (c_password c)) = Ok (c_password c, [])"
    using assms cbin.read_put [of _ "[]"] by (auto simp: rd_opt_def connect_ok_def split: option.splits)
  have w: "decode_will (c_level c) (c_will c \<noteq> None) ?q ?r (put_will (c_will c) @ r) = Ok (c_will c, r)" for r
    using assms lv by (intro decode_will_v4I) (auto simp: connect_ok_def)
  have nm: "rd_binary (put_str (connect_name (c_level c)) @ r) = Ok (as_bytes (connect_name (c_level c)), r)" for r
    using wire_str_protocol [of "c_level c"]
    by (simp add: put_str_def cbin.read_put binary_ok_def wire_str_def)
  have b: "rd_u8 (x # r) = Ok (x, r)" for x r using cu8.read_put [of x r] by simp
  have pw: "\<not> (c_level c < 5 \<and> c_password c \<noteq> None \<and> \<not> c_username c \<noteq> None)"
    using assms by (auto simp: connect_ok_def)
  have name: "connect_name (c_level c) = ''MQTT'' \<and> (c_level c = 4 \<or> c_level c = 5) \<or> connect_name (c_level c) = ''MQIsdp'' \<and> c_level c = 3"
    using assms by (auto simp: connect_ok_def connect_name_def)
  have cid: "wire_str (c_client_id c)" and pr: "c_properties c = None"
    using assms by (simp_all add: connect_ok_def)
  show ?thesis
    unfolding decode_connect_def connect_layout_def Let_def
    apply (simp only: append_assoc nm and_then_simps prod.case append_Cons append_Nil b as_bytes_eq_iff name simp_thms if_False if_True F)
    using q pw cid pr lv
    by (simp add: u p w cstr.read_put cu16.read_put decode_connect_properties_def del: not_None_eq)
qed

lemma if_nested_Inl: "(if a then if b then Inl e else Inl e' else m) = Inr x \<longleftrightarrow> \<not> a \<and> m = Inr x"
  by simp

lemma decode_connect_OkE:
  assumes "decode_connect body = Ok c"
  obtains name level flags keepalive r1 r2 r3 r4 cid r0 where
    "body = put_binary name @ [level, flags] @ u16_to_be keepalive @ r0"
    and "name = as_bytes ''MQTT'' \<and> (level = 4 \<or> level = 5) \<or> name = as_bytes ''MQIsdp'' \<and> level = 3"
    and "flags AND 0x01 = 0"
    and "\<not> (drop_bit 3 flags AND 0x03 > 2 \<or> (\<not> (flags AND 0x04 \<noteq> 0) \<and>
        (drop_bit 3 flags AND 0x03 \<noteq> 0 \<or> flags AND 0x20 \<noteq> 0)))"
    and "\<not> (level < 5 \<and> flags AND 0x40 \<noteq> 0 \<and> \<not> (flags AND 0x80 \<noteq> 0))"
    and "decode_connect_properties level r0 = Ok (c_properties c, r1)"
    and "wire_str cid" "r1 = put_str cid @ r2"
    and "decode_will level (flags AND 0x04 \<noteq> 0) (drop_bit 3 flags AND 0x03) (flags AND 0x20 \<noteq> 0) r2 = Ok (c_will c, r3)"
    and "rd_opt (flags AND 0x80 \<noteq> 0) rd_utf8 r3 = Ok (c_username c, r4)"
    and "rd_opt (flags AND 0x40 \<noteq> 0) rd_binary r4 = Ok (c_password c, [])"
    and "c_level c = level" "c_clean_start c = (flags AND 0x02 \<noteq> 0)" "c_keepalive c = keepalive"
      "c_client_id c = cid"
  using assms unfolding decode_connect_def
  by (auto simp: and_then_Inr_iff reader_iffs Let_def if_nested_Inl)

lemma decode_connect_v4_sound:
  assumes "decode_connect body = Ok c" and "c_level c \<noteq> 5"
  shows "connect_ok c \<and> body = connect_layout c"
proof -
  from assms(1) obtain name level flags keepalive r1 r2 r3 r4 cid r0 where
    body: "body = put_binary name @ [level, flags] @ u16_to_be keepalive @ r0"
    and proto: "name = as_bytes ''MQTT'' \<and> (level = 4 \<or> level = 5) \<or> name = as_bytes ''MQIsdp'' \<and> level = 3"
    and f0: "flags AND 0x01 = 0"
    and wq: "\<not> (drop_bit 3 flags AND 0x03 > 2 \<or> (\<not> (flags AND 0x04 \<noteq> 0) \<and>
        (drop_bit 3 flags AND 0x03 \<noteq> 0 \<or> flags AND 0x20 \<noteq> 0)))"
    and pwu: "\<not> (level < 5 \<and> flags AND 0x40 \<noteq> 0 \<and> \<not> (flags AND 0x80 \<noteq> 0))"
    and props: "decode_connect_properties level r0 = Ok (c_properties c, r1)"
    and cid: "wire_str cid" "r1 = put_str cid @ r2"
    and will: "decode_will level (flags AND 0x04 \<noteq> 0) (drop_bit 3 flags AND 0x03) (flags AND 0x20 \<noteq> 0) r2 = Ok (c_will c, r3)"
    and un: "rd_opt (flags AND 0x80 \<noteq> 0) rd_utf8 r3 = Ok (c_username c, r4)"
    and pw: "rd_opt (flags AND 0x40 \<noteq> 0) rd_binary r4 = Ok (c_password c, [])"
    and c: "c_level c = level" "c_clean_start c = (flags AND 0x02 \<noteq> 0)" "c_keepalive c = keepalive"
      "c_client_id c = cid"
    by (rule decode_connect_OkE)
  have lv: "level \<noteq> 5" using assms(2) c by simp
  then have props: "c_properties c = None" "r1 = r0"
    using props by (auto simp: decode_connect_properties_def)
  note will = decode_will_v4D [OF will lv]
  note un = un [unfolded rd_opt_Ok] and pw = pw [unfolded rd_opt_Ok]
  let ?q = "case c_will c of None \<Rightarrow> 0 | Some w \<Rightarrow> w_qos w"
    and ?r = "case c_will c of None \<Rightarrow> False | Some w \<Rightarrow> w_retain w"
  have "flag_fields flags (c_clean_start c) (c_will c \<noteq> None) ?q ?r (c_password c \<noteq> None) (c_username c \<noteq> None)"
    using f0 c(2) will wq un pw unfolding flag_fields_def
    by (cases "c_will c") (auto split: if_splits)
  then have flags: "flags = connect_flags c"
    by (simp add: connect_flags_byte flag_fields_unique)
  have name: "put_binary name = put_str (connect_name level)"
    using proto lv by (auto simp: connect_name_def put_str_def)
  have un': "r3 = case_option [] put_str (c_username c) @ r4" "\<forall>s. c_username c = Some s \<longrightarrow> wire_str s"
    using un by (auto simp: reader_iffs split: if_splits)
  have pw': "r4 = case_option [] put_binary (c_password c)" "\<forall>s. c_password c = Some s \<longrightarrow> binary_ok s"
    using pw by (auto simp: reader_iffs split: if_splits)
  have "level = 3 \<or> level = 4" using proto lv by auto
  moreover from this have "level < 5" by auto
  moreover have "\<forall>w. c_will c = Some w \<longrightarrow> will_ok w"
    using will wq by (auto simp: will_ok_def)
  moreover have "c_password c \<noteq> None \<longrightarrow> c_username c \<noteq> None"
    using pwu \<open>level < 5\<close> un pw by (auto split: if_splits)
  ultimately have "connect_ok c"
    using c cid props un'(2) pw'(2) by (auto simp: connect_ok_def)
  moreover have "body = connect_layout c"
    unfolding connect_layout_def body name flags [symmetric]
    using c cid(2) props un'(1) pw'(1) will by simp
  ultimately show ?thesis by blast
qed

section \<open>SUBSCRIBE, UNSUBSCRIBE, acknowledgements and DISCONNECT\<close>

lemma decode_subscribe_v4:
  assumes "level \<noteq> 5"
  shows "decode_subscribe body level = Ok s \<longleftrightarrow>
     s_packet_id s \<noteq> 0 \<and> s_subscription_id s = 0 \<and> s_filters s \<noteq> [] \<and>
     (\<forall>e\<in>set (s_filters s). sub_entry_ok e) \<and>
     body = u16_to_be (s_packet_id s) @ concat (map put_sub_entry (s_filters s))"
  using assms
  by (cases s) (auto simp: decode_subscribe_def and_then_Inr_iff reader_iffs unwrap_or_def)

lemma decode_unsubscribe_v4:
  assumes "level \<noteq> 5"
  shows "decode_unsubscribe body level = Ok s \<longleftrightarrow>
     u_packet_id s \<noteq> 0 \<and> u_filters s \<noteq> [] \<and> (\<forall>e\<in>set (u_filters s). unsub_entry_ok e) \<and>
     body = u16_to_be (u_packet_id s) @ concat (map put_str (u_filters s))"
  using assms
  by (cases s) (auto simp: decode_unsubscribe_def and_then_Inr_iff reader_iffs)

lemma decode_encode_ack:
  assumes "packet_id \<noteq> 0"
  shows "decode_ack (drop 2 (encode_ack k packet_id reason level)) level =
     Ok (packet_id, if level = 5 then reason else 0)"
proof -
  have b: "rd_u8 (x # r) = Ok (x, r)" for x r using cu8.read_put [of x r] by simp
  have u: "rd_u16 (u16_to_be packet_id) = Ok (packet_id, [])" using cu16.read_put [of packet_id "[]"] by simp
  show ?thesis
    using assms by (simp add: encode_ack_def Let_def decode_ack_def cu16.read_put u b)
qed

lemma decode_encode_disconnect:
  "decode_disconnect (drop 2 (encode_disconnect_v5 reason)) 5 = Ok reason"
  using cu8.read_put [of reason "[]"]
  by (simp add: encode_disconnect_v5_def decode_disconnect_def)


section \<open>Bounds on what the decoders accept at every protocol level\<close>

definition users_bounded :: "(string \<times> string) list \<Rightarrow> bool" where
  "users_bounded ups \<longleftrightarrow> length ups \<le> MAX_USER_PROPS \<and> (\<forall>kv\<in>set ups. user_prop_ok kv)"

definition publish_wf :: "u8 \<Rightarrow> publish \<Rightarrow> bool" where
  "publish_wf level p \<longleftrightarrow>
     p_qos p \<le> 2 \<and> (p_qos p = 0 \<longrightarrow> \<not> p_dup p \<and> p_packet_id p = 0) \<and>
     (p_qos p \<noteq> 0 \<longrightarrow> p_packet_id p \<noteq> 0) \<and> wire_str (p_topic p) \<and>
     CHR ''+'' \<notin> set (p_topic p) \<and> CHR ''#'' \<notin> set (p_topic p) \<and>
     (p_topic p = [] \<longrightarrow> p_alias p \<noteq> None) \<and> (level \<noteq> 5 \<longrightarrow> p_alias p = None) \<and>
     p_payload_format p \<le> 1 \<and> users_bounded (p_user_properties p)"

definition publish_inv :: "nat \<Rightarrow> publish_props \<Rightarrow> bool" where
  "publish_inv u pp \<longleftrightarrow>
     length (pp_users pp) = u \<and> u \<le> MAX_USER_PROPS \<and> (\<forall>kv\<in>set (pp_users pp). user_prop_ok kv) \<and>
     (\<forall>b. pp_format pp = Some b \<longrightarrow> b \<le> 1)"

lemma publish_visit_inv:
  "publish_inv u st \<Longrightarrow> prop_ok v u u' \<Longrightarrow> publish_visit pid v st = Ok st' \<Longrightarrow> publish_inv u' st'"
  by (cases v) (auto simp: publish_visit_def publish_inv_def prop_ok_def set_once_def and_then_Inr_iff
      split: if_splits)

lemma publish_inv_none: "publish_inv 0 publish_props_none"
  by (simp add: publish_inv_def publish_props_none_def)

lemma publish_props_inv:
  assumes "walk_properties section publish_visit publish_props_none = Ok pp"
  shows "\<exists>u. publish_inv u pp"
  using walk_loop_invariant [where I = publish_inv, OF assms [unfolded walk_properties_def] publish_inv_none]
    publish_visit_inv by blast

lemma decode_publish_bounds:
  assumes "decode_publish flags body level = Ok p"
  shows "publish_wf level p"
proof -
  let ?q = "drop_bit 1 flags AND 0x03"
  from assms obtain topic r0 packet_id r1 pp r2 where q: "\<not> ?q > 2" "\<not> (?q = 0 \<and> flags AND 0x08 \<noteq> 0)"
    and t: "rd_utf8 body = Ok (topic, r0)"
    and i: "(if ?q > 0 then and_then (rd_u16 r0) (\<lambda>(pid, r).
             if pid = 0 then Err (Malformed ''packet identifier is 0'') else Ok (pid, r))
         else Ok (0, r0)) = Ok (packet_id, r1)"
    and pp: "(if level = 5 then
           and_then (rd_properties r1) (\<lambda>(section, r).
             and_then (walk_properties section publish_visit publish_props_none)
               (\<lambda>pp. Ok (pp, r)))
         else Ok (publish_props_none, r1)) = Ok (pp, r2)"
    and tp: "\<not> (topic = [] \<and> pp_alias pp = None)" "CHR ''+'' \<notin> set topic" "CHR ''#'' \<notin> set topic"
    and p: "p = \<lparr>p_dup = (flags AND 0x08 \<noteq> 0), p_qos = ?q, p_retain = (flags AND 0x01 \<noteq> 0), p_topic = topic,
               p_packet_id = packet_id, p_alias = pp_alias pp,
               p_payload_format = unwrap_or (pp_format pp) 0,
               p_message_expiry = unwrap_or (pp_expiry pp) 0,
               p_user_properties = pp_users pp, p_payload = r2\<rparr>"
    unfolding decode_publish_def Let_def by (auto simp: and_then_Inr_iff simp del: if_split)
  obtain u where u: "publish_inv u pp"
    using pp publish_props_inv publish_inv_none by (auto simp: and_then_Inr_iff split: if_splits)
  have a: "level \<noteq> 5 \<Longrightarrow> pp_alias pp = None"
    using pp by (auto simp: publish_props_none_def)
  have "wire_str topic" using t by (simp add: reader_iffs)
  with q i u a tp show ?thesis
    unfolding p publish_wf_def users_bounded_def publish_inv_def
    by (auto simp: and_then_Inr_iff unwrap_or_def word_gt_0 not_less split: if_splits option.splits)
qed


definition connect_wf :: "connect \<Rightarrow> bool" where
  "connect_wf c \<longleftrightarrow>
     (c_level c = 3 \<or> c_level c = 4 \<or> c_level c = 5) \<and> (c_properties c = None \<longleftrightarrow> c_level c \<noteq> 5) \<and>
     wire_str (c_client_id c) \<and> (\<forall>w. c_will c = Some w \<longrightarrow> will_ok w) \<and>
     (\<forall>p. c_properties c = Some p \<longrightarrow>
        cp_receive_maximum p \<noteq> Some 0 \<and> cp_maximum_packet_size p \<noteq> Some 0 \<and>
        (\<forall>b. cp_request_response_info p = Some b \<longrightarrow> b \<le> 1) \<and>
        (\<forall>b. cp_request_problem_info p = Some b \<longrightarrow> b \<le> 1) \<and>
        users_bounded (cp_user_properties p))"

definition connect_inv :: "nat \<Rightarrow> connect_properties \<times> bool \<Rightarrow> bool" where
  "connect_inv u st \<longleftrightarrow>
     (let p = fst st in
      length (cp_user_properties p) = u \<and> u \<le> MAX_USER_PROPS \<and>
      (\<forall>kv\<in>set (cp_user_properties p). user_prop_ok kv) \<and>
      cp_receive_maximum p \<noteq> Some 0 \<and> cp_maximum_packet_size p \<noteq> Some 0 \<and>
      (\<forall>b. cp_request_response_info p = Some b \<longrightarrow> b \<le> 1) \<and>
      (\<forall>b. cp_request_problem_info p = Some b \<longrightarrow> b \<le> 1))"

lemma connect_visit_inv:
  "connect_inv u st \<Longrightarrow> prop_ok v u u' \<Longrightarrow> connect_visit pid v st = Ok st' \<Longrightarrow> connect_inv u' st'"
  by (cases v) (auto simp: connect_visit_def connect_inv_def prop_ok_def set_once_def and_then_Inr_iff
      Let_def split: if_splits prod.splits)

lemma connect_inv_default: "connect_inv 0 (connect_properties_default, False)"
  by (simp add: connect_inv_def connect_properties_default_def)

lemma connect_props_inv:
  assumes "walk_properties section connect_visit (connect_properties_default, False) = Ok st"
  shows "\<exists>u. connect_inv u st"
  using walk_loop_invariant [where I = connect_inv, OF assms [unfolded walk_properties_def] connect_inv_default]
    connect_visit_inv by blast

lemma decode_will_ok:
  "decode_will level wl wq wr buf = Ok (w, r) \<Longrightarrow> \<not> wq > 2 \<Longrightarrow> w = Some x \<Longrightarrow> will_ok x"
  by (auto simp: decode_will_def and_then_Inr_iff reader_iffs will_ok_def split: if_splits)

lemma decode_connect_bounds:
  assumes "decode_connect body = Ok c"
  shows "connect_wf c"
proof -
  from assms obtain name level flags keepalive r1 r2 r3 r4 cid r0 where
    body: "body = put_binary name @ [level, flags] @ u16_to_be keepalive @ r0"
    and proto: "name = as_bytes ''MQTT'' \<and> (level = 4 \<or> level = 5) \<or> name = as_bytes ''MQIsdp'' \<and> level = 3"
    and f0: "flags AND 0x01 = 0"
    and wq: "\<not> (drop_bit 3 flags AND 0x03 > 2 \<or> (\<not> (flags AND 0x04 \<noteq> 0) \<and>
        (drop_bit 3 flags AND 0x03 \<noteq> 0 \<or> flags AND 0x20 \<noteq> 0)))"
    and pwu: "\<not> (level < 5 \<and> flags AND 0x40 \<noteq> 0 \<and> \<not> (flags AND 0x80 \<noteq> 0))"
    and props: "decode_connect_properties level r0 = Ok (c_properties c, r1)"
    and cid: "wire_str cid" "r1 = put_str cid @ r2"
    and will: "decode_will level (flags AND 0x04 \<noteq> 0) (drop_bit 3 flags AND 0x03) (flags AND 0x20 \<noteq> 0) r2 = Ok (c_will c, r3)"
    and un: "rd_opt (flags AND 0x80 \<noteq> 0) rd_utf8 r3 = Ok (c_username c, r4)"
    and pw: "rd_opt (flags AND 0x40 \<noteq> 0) rd_binary r4 = Ok (c_password c, [])"
    and c: "c_level c = level" "c_clean_start c = (flags AND 0x02 \<noteq> 0)" "c_keepalive c = keepalive"
      "c_client_id c = cid"
    by (rule decode_connect_OkE)
  from wq have wq: "\<not> drop_bit 3 flags AND 0x03 > 2" by blast
  have "(c_properties c = None) = (level \<noteq> 5)"
    and pr: "\<And>p. c_properties c = Some p \<Longrightarrow> \<exists>u b. connect_inv u (p, b)"
    using props connect_props_inv
    by (fastforce simp: decode_connect_properties_def and_then_Inr_iff split: if_splits)+
  moreover have "\<And>w. c_will c = Some w \<Longrightarrow> will_ok w"
    using decode_will_ok [OF will wq] by blast
  ultimately show ?thesis
    using proto c cid
    by (fastforce simp: connect_wf_def connect_inv_def users_bounded_def)
qed

section \<open>Properties\<close>

text \<open>
  C1. A PUBLISH that satisfies the rules for a client packet goes through the encoder and the decoder
  unchanged at every protocol level: whatever bytes follow it in the stream, the fixed header gives
  its kind and its exact length, and decoding its body gives back the same packet (without the
  properties below level 5, where the format has none).
\<close>

theorem publish_roundtrip:
  assumes "publish_ok p level"
  shows "\<exists>h. fixed_header (encode_publish p level @ rest) = Ok (Some h) \<and>
    fh_kind h = KIND_PUBLISH \<and> packet_len h = length (encode_publish p level) \<and>
    decode_publish (fh_flags h) (drop (fh_header_len h) (encode_publish p level)) level =
      Ok (publish_of p level)"
proof -
  let ?n = "publish_remaining p level" and ?f = "publish_first p"
  have n: "?n \<le> MAX_REMAINING" and s: "o_subscription_id p \<le> MAX_SUB_ID"
    using assms by (simp_all add: publish_ok_def)
  have flags: "expected_flags (drop_bit 4 ?f) (?f AND 0x0F) = Some (?f AND 0x0F)"
    by (simp add: publish_first_bits(1) expected_flags_def)
  have e: "encode_publish p level @ rest =
      put_fixed_header ?f ?n @ (drop (1 + varint_len ?n) (encode_publish p level) @ rest)"
    using publish_remaining_length(1) [OF s n] by (metis append.assoc)
  have "decode_publish (?f AND 0x0F) (drop (1 + varint_len ?n) (encode_publish p level)) level =
      Ok (publish_of p level)"
    using encode_publish_body [OF assms] n by (simp add: encode_publish_def)
  then show ?thesis
    using fixed_header_put [OF n flags] publish_remaining_length(2) [OF s n]
    by (simp only: e) (simp add: packet_len_def publish_first_bits(1))
qed

definition sample_publish :: publish_out where
  "sample_publish =
     \<lparr>o_dup = True, o_qos = 1, o_retain = False, o_topic = ''a/b'', o_packet_id = 7, o_alias = 2,
      o_subscription_id = 0, o_payload_format = 1, o_message_expiry = 60,
      o_user_properties = [(as_bytes ''k'', as_bytes ''v'')], o_payload = [1, 2, 3]\<rparr>"

lemma sample_publish_ok: "publish_ok sample_publish 5"
  by (simp add: sample_publish_def publish_ok_def wire_str_def valid_str_ascii
      user_prop_ok_def out_user_def publish_remaining_def publish_section_len_def
      varint_len_def MAX_REMAINING_def MAX_USER_PROPS_def MAX_PROP_STRING_def)

theorem publish_roundtrip_witness:
  "publish_ok sample_publish 5 \<and>
   (\<exists>h. fixed_header (encode_publish sample_publish 5 @ [0xC0, 0]) = Ok (Some h) \<and>
     fh_kind h = KIND_PUBLISH \<and> packet_len h = length (encode_publish sample_publish 5) \<and>
     decode_publish (fh_flags h) (drop (fh_header_len h) (encode_publish sample_publish 5)) 5 =
       Ok (publish_of sample_publish 5))"
  using publish_roundtrip [OF sample_publish_ok] sample_publish_ok by blast

text \<open>
  C2. Every packet the broker sends is framed: followed by any bytes, its fixed header is accepted
  and gives the packet kind and exactly the number of bytes that the encoder wrote, as long as the
  packet fits the remaining-length limit and the subscription identifier is in range.
\<close>

theorem broker_packets_framed:
  assumes "o_subscription_id p \<le> MAX_SUB_ID" and "publish_remaining p level \<le> MAX_REMAINING"
    and "2 + varint_len (length (connack_section props)) + length (connack_section props) \<le> MAX_REMAINING"
    and "3 + length codes \<le> MAX_REMAINING"
    and "kind \<in> set ack_kinds"
  shows "framed (encode_publish p level) KIND_PUBLISH \<and>
    framed (encode_connack present code) KIND_CONNACK \<and>
    framed (encode_connack_v5 present code props) KIND_CONNACK \<and>
    framed (encode_suback packet_id codes level) KIND_SUBACK \<and>
    framed (encode_unsuback packet_id codes level) KIND_UNSUBACK \<and>
    framed (encode_ack kind packet_id code level) kind \<and>
    framed encode_pingresp KIND_PINGRESP \<and>
    framed (encode_disconnect_v5 code) KIND_DISCONNECT"
  by (intro conjI framed_publish framed_connack framed_connack_v5 framed_suback framed_unsuback
      framed_ack framed_pingresp framed_disconnect assms)

definition sample_connack :: connack_properties where
  "sample_connack =
     \<lparr>ca_session_expiry = Some 30, ca_receive_maximum = None, ca_maximum_packet_size = None,
      ca_topic_alias_maximum = Some 8, ca_assigned_client_id = None,
      ca_reason_string = Some ''ok'', ca_user_properties = []\<rparr>"

theorem broker_packets_framed_witness:
  "framed (encode_publish sample_publish 5) KIND_PUBLISH \<and>
   framed (encode_connack_v5 True 0 sample_connack) KIND_CONNACK \<and>
   framed (encode_suback 9 [0, 1] 5) KIND_SUBACK \<and>
   framed (encode_ack KIND_PUBREL 9 0x92 5) KIND_PUBREL"
proof -
  have "o_subscription_id sample_publish \<le> MAX_SUB_ID"
    "publish_remaining sample_publish 5 \<le> MAX_REMAINING"
    using sample_publish_ok by (simp_all add: publish_ok_def)
  moreover have "2 + varint_len (length (connack_section sample_connack)) +
      length (connack_section sample_connack) \<le> MAX_REMAINING"
    by (simp add: sample_connack_def connack_section_def put_opt_def varint_len_def MAX_REMAINING_def)
  moreover have "3 + length [0 :: u8, 1] \<le> MAX_REMAINING" by (simp add: MAX_REMAINING_def)
  moreover have "KIND_PUBREL \<in> set ack_kinds" by (simp add: ack_kinds_def)
  ultimately show ?thesis
    using broker_packets_framed [of sample_publish 5 sample_connack "[0, 1]" KIND_PUBREL True 0 9]
      broker_packets_framed [of sample_publish 5 sample_connack "[0, 1]" KIND_PUBREL True "0x92" 9]
    by blast
qed

text \<open>
  C3. For protocol levels 3 and 4 the CONNECT decoder accepts exactly the layout of the
  specification: a body decodes to a packet if and only if the packet is well formed and the body
  is its layout, so nothing is lost, reordered, or accepted in a second form.
\<close>

theorem connect_v4_exact:
  assumes "c_level c \<noteq> 5"
  shows "decode_connect body = Ok c \<longleftrightarrow> connect_ok c \<and> body = connect_layout c"
  using decode_connect_v4_sound [OF _ assms] decode_connect_layout by blast

definition sample_connect :: connect where
  "sample_connect =
     \<lparr>c_level = 4, c_clean_start = True, c_keepalive = 60, c_client_id = ''dev1'',
      c_will = Some \<lparr>w_topic = ''w'', w_payload = [9], w_qos = 2, w_retain = True\<rparr>,
      c_username = Some ''u'', c_password = Some [1, 2], c_properties = None\<rparr>"

theorem connect_v4_exact_witness:
  "c_level sample_connect \<noteq> 5 \<and> connect_ok sample_connect \<and>
   decode_connect (connect_layout sample_connect) = Ok sample_connect"
proof -
  have l: "c_level sample_connect \<noteq> 5" by (simp add: sample_connect_def)
  have "connect_ok sample_connect"
    by (simp add: sample_connect_def connect_ok_def will_ok_def wire_str_def valid_str_ascii
        binary_ok_def)
  with l show ?thesis using connect_v4_exact [OF l] by blast
qed

text \<open>
  C4. What the decoders let through at every protocol level is bounded. A PUBLISH has QoS 0, 1 or 2,
  a packet identifier exactly when its QoS is not 0, no duplicate flag at QoS 0, a topic without
  wildcards that is empty only with an alias, no alias below level 5, and at most 16 user properties
  of at most 1024 bytes each. A CONNECT has a known level, properties exactly at level 5, a valid
  will, no zero receive maximum or packet size, and the same bound on its user properties.
\<close>

theorem decoders_bounded:
  assumes "decode_publish flags body level = Ok p" and "decode_connect cbody = Ok c"
  shows "publish_wf level p \<and> connect_wf c"
  using decode_publish_bounds [OF assms(1)] decode_connect_bounds [OF assms(2)] by blast

theorem decoders_bounded_witness:
  "publish_wf 5 (publish_of sample_publish 5) \<and> connect_wf sample_connect"
proof (rule decoders_bounded)
  show "decode_publish (publish_first sample_publish AND 0x0F)
     (put_str (o_topic sample_publish) @
      (if o_qos sample_publish > 0 then u16_to_be (o_packet_id sample_publish) else []) @
      (if (5 :: u8) = 5 then encode_varint (of_nat (publish_section_len sample_publish)) @
        publish_section sample_publish else []) @
      o_payload sample_publish) 5 = Ok (publish_of sample_publish 5)"
    by (rule encode_publish_body [OF sample_publish_ok])
  show "decode_connect (connect_layout sample_connect) = Ok sample_connect"
    by (rule decode_connect_layout)
      (simp add: sample_connect_def connect_ok_def will_ok_def wire_str_def valid_str_ascii
        binary_ok_def)
qed

text \<open>
  C5. Below protocol level 5 the SUBSCRIBE and UNSUBSCRIBE decoders accept exactly a nonzero packet
  identifier followed by one or more entries, each a nonempty UTF-8 filter (and its options byte).
\<close>

theorem subscribe_v4_exact:
  assumes "level \<noteq> 5"
  shows "(decode_subscribe body level = Ok s \<longleftrightarrow>
       s_packet_id s \<noteq> 0 \<and> s_subscription_id s = 0 \<and> s_filters s \<noteq> [] \<and>
       (\<forall>e\<in>set (s_filters s). sub_entry_ok e) \<and>
       body = u16_to_be (s_packet_id s) @ concat (map put_sub_entry (s_filters s))) \<and>
    (decode_unsubscribe body level = Ok u \<longleftrightarrow>
       u_packet_id u \<noteq> 0 \<and> u_filters u \<noteq> [] \<and> (\<forall>e\<in>set (u_filters u). unsub_entry_ok e) \<and>
       body = u16_to_be (u_packet_id u) @ concat (map put_str (u_filters u)))"
  using decode_subscribe_v4 [OF assms] decode_unsubscribe_v4 [OF assms] by blast

theorem subscribe_v4_exact_witness:
  "decode_subscribe (u16_to_be 10 @ concat (map put_sub_entry [(''a/#'', 1), (''b'', 0)])) 4 =
     Ok \<lparr>s_packet_id = 10, s_subscription_id = 0, s_filters = [(''a/#'', 1), (''b'', 0)]\<rparr>"
  using subscribe_v4_exact [of 4 "u16_to_be 10 @ concat (map put_sub_entry [(''a/#'', 1), (''b'', 0)])"
      "\<lparr>s_packet_id = 10, s_subscription_id = 0, s_filters = [(''a/#'', 1), (''b'', 0)]\<rparr>"]
  by (simp add: sub_entry_ok_def valid_str_ascii)

end
