(* ===== verification/BrokerLink.thy ===== *)
theory BrokerLink
  imports Broker_Prelude
begin

text \<open>
  The BrokerLink crate (\<^verbatim>\<open>crates/brokerlink/src\<close>), the framed link between the protocol edge and the
  kernel: operation codes, frame header and frame, the incremental codec, the framed transport over
  a byte stream, and the lane dispatcher. A byte stream is the list of results that successive
  socket reads give; what a transport writes is the bytes it appends to its stream, and the outcome
  of each write is an argument.
\<close>

section \<open>Errors and operation codes\<close>

datatype brokerlink_error =
  InvalidMagic u8 u8
| UnsupportedVersion u8
| UnknownOpcode u16
| FrameTooLarge nat nat
| IncompleteFrame nat nat
| Io string
| ConnectionClosed
| Transport string

datatype opcode =
  Ping | Pong
| BindConnection | SessionBinding | UnbindConnection
| PublishIn | PublishOut | PubAckIn | PubAckOut | PubRecIn | PubRecOut | PubRelIn | PubRelOut
| PubCompIn | PubCompOut
| SubscribeIn | SubAckOut | UnsubscribeIn | UnsubAckOut
| DisconnectIn | ConnClose
| Credit

fun opcode_to_u16 :: "opcode \<Rightarrow> u16" where
  "opcode_to_u16 Ping = 0x0001"
| "opcode_to_u16 Pong = 0x0002"
| "opcode_to_u16 BindConnection = 0x0010"
| "opcode_to_u16 SessionBinding = 0x0011"
| "opcode_to_u16 UnbindConnection = 0x0012"
| "opcode_to_u16 PublishIn = 0x0020"
| "opcode_to_u16 PublishOut = 0x0021"
| "opcode_to_u16 PubAckIn = 0x0022"
| "opcode_to_u16 PubAckOut = 0x0023"
| "opcode_to_u16 PubRecIn = 0x0024"
| "opcode_to_u16 PubRecOut = 0x0025"
| "opcode_to_u16 PubRelIn = 0x0026"
| "opcode_to_u16 PubRelOut = 0x0027"
| "opcode_to_u16 PubCompIn = 0x0028"
| "opcode_to_u16 PubCompOut = 0x0029"
| "opcode_to_u16 SubscribeIn = 0x0030"
| "opcode_to_u16 SubAckOut = 0x0031"
| "opcode_to_u16 UnsubscribeIn = 0x0032"
| "opcode_to_u16 UnsubAckOut = 0x0033"
| "opcode_to_u16 DisconnectIn = 0x0040"
| "opcode_to_u16 ConnClose = 0x0041"
| "opcode_to_u16 Credit = 0x0042"

definition opcode_try_from :: "u16 \<Rightarrow> brokerlink_error + opcode" where
  "opcode_try_from v =
     (if v = 0x0001 then Ok Ping
      else if v = 0x0002 then Ok Pong
      else if v = 0x0010 then Ok BindConnection
      else if v = 0x0011 then Ok SessionBinding
      else if v = 0x0012 then Ok UnbindConnection
      else if v = 0x0020 then Ok PublishIn
      else if v = 0x0021 then Ok PublishOut
      else if v = 0x0022 then Ok PubAckIn
      else if v = 0x0023 then Ok PubAckOut
      else if v = 0x0024 then Ok PubRecIn
      else if v = 0x0025 then Ok PubRecOut
      else if v = 0x0026 then Ok PubRelIn
      else if v = 0x0027 then Ok PubRelOut
      else if v = 0x0028 then Ok PubCompIn
      else if v = 0x0029 then Ok PubCompOut
      else if v = 0x0030 then Ok SubscribeIn
      else if v = 0x0031 then Ok SubAckOut
      else if v = 0x0032 then Ok UnsubscribeIn
      else if v = 0x0033 then Ok UnsubAckOut
      else if v = 0x0040 then Ok DisconnectIn
      else if v = 0x0041 then Ok ConnClose
      else if v = 0x0042 then Ok Credit
      else Err (UnknownOpcode v))"

section \<open>Header and frame\<close>

definition MAGIC :: bytes where
  "MAGIC = [0x42, 0x4C]"

definition PROTOCOL_VERSION_1 :: u8 where
  "PROTOCOL_VERSION_1 = 1"

definition HEADER_LEN :: nat where
  "HEADER_LEN = 28"

definition DEFAULT_MAX_FRAME_SIZE :: nat where
  "DEFAULT_MAX_FRAME_SIZE = 64 * 1024 * 1024"

record frame_header =
  h_version :: u8
  h_flags :: u8
  h_opcode :: opcode
  h_conn_id :: u64
  h_sequence_no :: u64
  h_meta_len :: u16
  h_payload_len :: u32

definition header_new :: "opcode \<Rightarrow> u64 \<Rightarrow> u64 \<Rightarrow> u16 \<Rightarrow> u32 \<Rightarrow> frame_header" where
  "header_new opcode conn_id sequence_no meta_len payload_len =
     \<lparr>h_version = PROTOCOL_VERSION_1, h_flags = 0, h_opcode = opcode, h_conn_id = conn_id,
      h_sequence_no = sequence_no, h_meta_len = meta_len, h_payload_len = payload_len\<rparr>"

definition total_body_len :: "frame_header \<Rightarrow> nat" where
  "total_body_len h = unat (h_meta_len h) + unat (h_payload_len h)"

definition header_encode :: "frame_header \<Rightarrow> bytes" where
  "header_encode h =
     MAGIC @ [h_version h, h_flags h] @ u16_to_be (opcode_to_u16 (h_opcode h)) @
     u64_to_be (h_conn_id h) @ u64_to_be (h_sequence_no h) @ u16_to_be (h_meta_len h) @
     u32_to_be (h_payload_len h)"

text \<open>The header decoder over a cursor: the header and the bytes after it.\<close>

definition header_decode :: "bytes \<Rightarrow> brokerlink_error + (frame_header \<times> bytes)" where
  "header_decode src =
     (if length src < HEADER_LEN then Err (IncompleteFrame HEADER_LEN (length src))
      else
        let m0 = src ! 0; m1 = src ! 1 in
        if [m0, m1] \<noteq> MAGIC then Err (InvalidMagic m0 m1)
        else let version = src ! 2 in
        if version \<noteq> PROTOCOL_VERSION_1 then Err (UnsupportedVersion version)
        else and_then (opcode_try_from (u16_from_be (take 2 (drop 4 src)))) (\<lambda>opcode.
          Ok (\<lparr>h_version = version, h_flags = src ! 3, h_opcode = opcode,
               h_conn_id = u64_from_be (take 8 (drop 6 src)),
               h_sequence_no = u64_from_be (take 8 (drop 14 src)),
               h_meta_len = u16_from_be (take 2 (drop 22 src)),
               h_payload_len = u32_from_be (take 4 (drop 24 src))\<rparr>,
              drop HEADER_LEN src)))"

record broker_frame =
  f_header :: frame_header
  f_metadata :: bytes
  f_payload :: bytes

definition frame_new ::
  "opcode \<Rightarrow> u64 \<Rightarrow> u64 \<Rightarrow> bytes \<Rightarrow> bytes \<Rightarrow> brokerlink_error + broker_frame" where
  "frame_new opcode conn_id sequence_no metadata payload =
     (if length metadata > 65535 then Err (FrameTooLarge (length metadata) 65535)
      else if length payload > 4294967295 then Err (FrameTooLarge (length payload) 4294967295)
      else Ok \<lparr>f_header = header_new opcode conn_id sequence_no (of_nat (length metadata))
                 (of_nat (length payload)),
               f_metadata = metadata, f_payload = payload\<rparr>)"

text \<open>\<open>ping\<close> and \<open>pong\<close> expect the construction to succeed.\<close>

definition expect :: "'e + 'a \<Rightarrow> 'a run" where
  "expect r = (case r of Inl e \<Rightarrow> Panic | Inr x \<Rightarrow> Returns x)"

definition frame_ping :: "u64 \<Rightarrow> u64 \<Rightarrow> broker_frame run" where
  "frame_ping conn_id sequence_no = expect (frame_new Ping conn_id sequence_no [] [])"

definition frame_pong :: "u64 \<Rightarrow> u64 \<Rightarrow> broker_frame run" where
  "frame_pong conn_id sequence_no = expect (frame_new Pong conn_id sequence_no [] [])"

definition total_frame_len :: "broker_frame \<Rightarrow> nat" where
  "total_frame_len f = HEADER_LEN + length (f_metadata f) + length (f_payload f)"

definition frame_encode :: "broker_frame \<Rightarrow> bytes" where
  "frame_encode f = header_encode (f_header f) @ f_metadata f @ f_payload f"

section \<open>Codec\<close>

definition codec_encode :: "nat \<Rightarrow> broker_frame \<Rightarrow> brokerlink_error + bytes" where
  "codec_encode max_frame_size f =
     (if total_frame_len f > max_frame_size
      then Err (FrameTooLarge (total_frame_len f) max_frame_size)
      else Ok (frame_encode f))"

text \<open>
  \<open>Ok None\<close> asks for more bytes and leaves the buffer as it is; a decoded frame comes with the bytes
  left in the buffer.
\<close>

definition codec_decode ::
  "nat \<Rightarrow> bytes \<Rightarrow> brokerlink_error + (broker_frame \<times> bytes) option" where
  "codec_decode max_frame_size src =
     (if length src < HEADER_LEN then Ok None
      else
        let m0 = src ! 0; m1 = src ! 1 in
        if [m0, m1] \<noteq> MAGIC then Err (InvalidMagic m0 m1)
        else let version = src ! 2 in
        if version \<noteq> PROTOCOL_VERSION_1 then Err (UnsupportedVersion version)
        else and_then (opcode_try_from (u16_from_be (take 2 (drop 4 src)))) (\<lambda>opcode.
          let meta_len = unat (u16_from_be (take 2 (drop 22 src)));
              payload_len = unat (u32_from_be (take 4 (drop 24 src)));
              frame_len = HEADER_LEN + (meta_len + payload_len) in
          if frame_len > max_frame_size then Err (FrameTooLarge frame_len max_frame_size)
          else if length src < frame_len then Ok None
          else
            let body = drop HEADER_LEN src;
                header = \<lparr>h_version = version, h_flags = src ! 3, h_opcode = opcode,
                          h_conn_id = u64_from_be (take 8 (drop 6 src)),
                          h_sequence_no = u64_from_be (take 8 (drop 14 src)),
                          h_meta_len = of_nat meta_len, h_payload_len = of_nat payload_len\<rparr> in
            Ok (Some (\<lparr>f_header = header, f_metadata = take meta_len body,
                       f_payload = take payload_len (drop meta_len body)\<rparr>,
                      drop payload_len (drop meta_len body)))))"

section \<open>Framed transport\<close>

text \<open>What one read of the socket gives: bytes, the end of the stream, or an error.\<close>

datatype read_result = Got bytes | ReadFailed string

text \<open>
  What \<open>write_all\<close> followed by \<open>flush\<close> does: the bytes are written, the write fails after a first part
  of them, or only the flush fails. Both errors become an \<open>Io\<close> error.
\<close>

datatype write_result = Written | WriteFailed nat string | FlushFailed string

fun write_flush :: "write_result \<Rightarrow> bytes \<Rightarrow> bytes \<Rightarrow> (brokerlink_error + unit) \<times> bytes" where
  "write_flush Written out buf = (Ok (), out @ buf)"
| "write_flush (WriteFailed n e) out buf = (Err (Io e), out @ take n buf)"
| "write_flush (FlushFailed e) out buf = (Err (Io e), out @ buf)"

text \<open>A transport, by the bytes it has written; a send that fails may have written some.\<close>

definition transport_send ::
  "nat \<Rightarrow> write_result \<Rightarrow> bytes \<Rightarrow> broker_frame \<Rightarrow> (brokerlink_error + unit) \<times> bytes" where
  "transport_send max_frame_size w out f =
     (case codec_encode max_frame_size f of Err e \<Rightarrow> (Err e, out) | Ok buf \<Rightarrow> write_flush w out buf)"

fun encode_all :: "nat \<Rightarrow> broker_frame list \<Rightarrow> brokerlink_error + bytes" where
  "encode_all max_frame_size [] = Ok []"
| "encode_all max_frame_size (f # fs) =
    and_then (codec_encode max_frame_size f) (\<lambda>buf.
      and_then (encode_all max_frame_size fs) (\<lambda>rest. Ok (buf @ rest)))"

definition transport_send_batch ::
  "nat \<Rightarrow> write_result \<Rightarrow> bytes \<Rightarrow> broker_frame list \<Rightarrow> (brokerlink_error + unit) \<times> bytes" where
  "transport_send_batch max_frame_size w out fs =
     (if fs = [] then (Ok (), out)
      else case encode_all max_frame_size fs of Err e \<Rightarrow> (Err e, out) | Ok buf \<Rightarrow> write_flush w out buf)"

text \<open>
  The receive loop: decode what is buffered, else read once more. A read of no bytes is the end of
  the stream. The result comes with the new buffer and the reads that were not used.
\<close>

fun transport_recv ::
  "nat \<Rightarrow> bytes \<Rightarrow> read_result list \<Rightarrow> (brokerlink_error + broker_frame) \<times> bytes \<times> read_result list" where
  "transport_recv max_frame_size buf reads =
     (case codec_decode max_frame_size buf of
        Inl e \<Rightarrow> (Err e, buf, reads)
      | Inr (Some (f, rest)) \<Rightarrow> (Ok f, rest, reads)
      | Inr None \<Rightarrow>
          (case reads of
             Got (b # bs) # more_reads \<Rightarrow> transport_recv max_frame_size (buf @ b # bs) more_reads
           | ReadFailed e # more_reads \<Rightarrow> (Err (Io e), buf, more_reads)
           | _ \<Rightarrow> (if buf = [] then Err ConnectionClosed else Err (IncompleteFrame 1 (length buf)),
                   buf, tl reads)))"

declare transport_recv.simps [simp del]

section \<open>Lane dispatcher\<close>

text \<open>The lanes are the transports, here by the bytes each has written.\<close>

definition lanes_new :: "'l list \<Rightarrow> 'l list run" where
  "lanes_new lanes = (if lanes = [] then Panic else Returns lanes)"

definition lane_for_conn :: "'l list \<Rightarrow> u64 \<Rightarrow> nat" where
  "lane_for_conn lanes conn_id = unat conn_id mod length lanes"

definition get_lane :: "'l list \<Rightarrow> u64 \<Rightarrow> 'l" where
  "get_lane lanes conn_id = lanes ! lane_for_conn lanes conn_id"

definition lane_dispatch ::
  "nat \<Rightarrow> write_result \<Rightarrow> bytes list \<Rightarrow> broker_frame \<Rightarrow> (brokerlink_error + unit) \<times> bytes list" where
  "lane_dispatch max_frame_size w lanes f =
     (let conn_id = h_conn_id (f_header f);
          (res, out) = transport_send max_frame_size w (get_lane lanes conn_id) f in
      (res, lanes[lane_for_conn lanes conn_id := out]))"

section \<open>Round trips of the codec\<close>

lemma opcode_try_from_to_u16 [simp]: "opcode_try_from (opcode_to_u16 opc) = Ok opc"
  by (cases opc) (simp_all add: opcode_try_from_def)

lemma opcode_try_from_Ok: "opcode_try_from v = Ok opc \<longleftrightarrow> v = opcode_to_u16 opc"
proof
  show "opcode_try_from v = Ok opc \<Longrightarrow> v = opcode_to_u16 opc"
    by (simp add: opcode_try_from_def split: if_split_asm)
qed auto

lemma length_header_encode [simp]: "length (header_encode h) = HEADER_LEN"
  by (simp add: header_encode_def MAGIC_def HEADER_LEN_def)

definition frame_ok :: "nat \<Rightarrow> broker_frame \<Rightarrow> bool" where
  "frame_ok max_frame_size f \<longleftrightarrow>
     h_version (f_header f) = PROTOCOL_VERSION_1 \<and>
     unat (h_meta_len (f_header f)) = length (f_metadata f) \<and>
     unat (h_payload_len (f_header f)) = length (f_payload f) \<and>
     total_frame_len f \<le> max_frame_size"

lemma header_fields:
  assumes "src = header_encode h @ rest"
  shows "length src \<ge> HEADER_LEN" "src ! 0 = 0x42" "src ! 1 = 0x4C" "src ! 2 = h_version h" "src ! 3 = h_flags h"
    "u16_from_be (take 2 (drop 4 src)) = opcode_to_u16 (h_opcode h)"
    "u64_from_be (take 8 (drop 6 src)) = h_conn_id h"
    "u64_from_be (take 8 (drop 14 src)) = h_sequence_no h"
    "u16_from_be (take 2 (drop 22 src)) = h_meta_len h"
    "u32_from_be (take 4 (drop 24 src)) = h_payload_len h"
    "drop HEADER_LEN src = rest"
  using assms by (simp_all add: header_encode_def MAGIC_def HEADER_LEN_def)

text \<open>Conversely a buffer of at least a header's length is the encoding of the fields read from it.\<close>

lemma header_of_fields:
  assumes "length src \<ge> HEADER_LEN" "[src ! 0, src ! 1] = MAGIC"
    and "h_version h = src ! 2" "h_flags h = src ! 3"
    and "opcode_to_u16 (h_opcode h) = u16_from_be (take 2 (drop 4 src))"
    and "h_conn_id h = u64_from_be (take 8 (drop 6 src))"
    and "h_sequence_no h = u64_from_be (take 8 (drop 14 src))"
    and "h_meta_len h = u16_from_be (take 2 (drop 22 src))"
    and "h_payload_len h = u32_from_be (take 4 (drop 24 src))"
  shows "src = header_encode h @ drop HEADER_LEN src"
proof -
  have split: "drop i src = take n (drop i src) @ drop (i + n) src" for i n
    by (metis add.commute append_take_drop_id drop_drop)
  have "src = take 4 src @ drop 4 src" by simp
  also have "take 4 src = [src ! 0, src ! 1, src ! 2, src ! 3]"
    using assms(1) by (intro nth_equalityI) (auto simp: HEADER_LEN_def less_Suc_eq numeral_nat nth_Cons')
  also have "drop 4 src = take 2 (drop 4 src) @ take 8 (drop 6 src) @ take 8 (drop 14 src) @
      take 2 (drop 22 src) @ take 4 (drop 24 src) @ drop 28 src"
    using split [of 4 2] split [of 6 8] split [of 14 8] split [of 22 2] split [of 24 4] by simp
  finally show ?thesis
    using assms(1,3-) by (simp add: header_encode_def HEADER_LEN_def to_be_from_be assms(2) [symmetric])
qed

lemma codec_decode_encode:
  assumes "frame_ok mx f"
  shows "codec_decode mx (frame_encode f @ rest) = Ok (Some (f, rest))"
proof -
  define src where "src = frame_encode f @ rest"
  let ?h = "f_header f"
  have "src = header_encode ?h @ (f_metadata f @ f_payload f @ rest)"
    by (simp add: src_def frame_encode_def)
  note fields = header_fields [OF this]
  have lens: "unat (h_meta_len ?h) = length (f_metadata f)" "unat (h_payload_len ?h) = length (f_payload f)"
    "h_version ?h = PROTOCOL_VERSION_1" "HEADER_LEN + (length (f_metadata f) + length (f_payload f)) \<le> mx"
    using assms by (simp_all add: frame_ok_def total_frame_len_def)
  have of_lens: "of_nat (length (f_metadata f)) = h_meta_len ?h" "of_nat (length (f_payload f)) = h_payload_len ?h"
    using lens(1,2) [symmetric] by simp_all
  have "\<not> length src < HEADER_LEN + (length (f_metadata f) + length (f_payload f))"
    by (simp add: src_def frame_encode_def)
  then have "codec_decode mx src = Ok (Some (f, rest))"
    using fields lens of_lens by (simp add: codec_decode_def Let_def MAGIC_def)
  then show ?thesis by (simp add: src_def)
qed

lemma codec_decode_SomeD:
  assumes "codec_decode mx src = Ok (Some (f, rest))"
  shows "frame_ok mx f \<and> src = frame_encode f @ rest"
proof -
  let ?m = "unat (u16_from_be (take 2 (drop 22 src)))" and ?p = "unat (u32_from_be (take 4 (drop 24 src)))"
  let ?body = "drop HEADER_LEN src"
  from assms obtain opc where len: "length src \<ge> HEADER_LEN" and mg: "[src ! 0, src ! 1] = MAGIC"
    and v: "src ! 2 = PROTOCOL_VERSION_1" and opc: "opcode_try_from (u16_from_be (take 2 (drop 4 src))) = Ok opc"
    and mx: "HEADER_LEN + (?m + ?p) \<le> mx" and full: "HEADER_LEN + (?m + ?p) \<le> length src"
    and f: "f = \<lparr>f_header = \<lparr>h_version = src ! 2, h_flags = src ! 3, h_opcode = opc,
                          h_conn_id = u64_from_be (take 8 (drop 6 src)),
                          h_sequence_no = u64_from_be (take 8 (drop 14 src)),
                          h_meta_len = of_nat ?m, h_payload_len = of_nat ?p\<rparr>, f_metadata = take ?m ?body,
                       f_payload = take ?p (drop ?m ?body)\<rparr>"
    and rest: "rest = drop ?p (drop ?m ?body)"
    unfolding codec_decode_def Let_def by (auto simp: and_then_Inr_iff split: if_splits)
  have "src = header_encode (f_header f) @ ?body"
    by (rule header_of_fields [OF len mg]) (use opc in \<open>simp_all add: f opcode_try_from_Ok\<close>)
  moreover have "?body = f_metadata f @ f_payload f @ rest"
    unfolding f rest by (simp only: broker_frame.simps append_take_drop_id)
  ultimately have "src = frame_encode f @ rest" by (simp add: frame_encode_def)
  moreover have "frame_ok mx f"
    using v mx full by (simp add: f frame_ok_def total_frame_len_def)
  ultimately show ?thesis by blast
qed

lemma codec_decode_Some_iff:
  "codec_decode mx src = Ok (Some (f, rest)) \<longleftrightarrow> frame_ok mx f \<and> src = frame_encode f @ rest"
  using codec_decode_encode codec_decode_SomeD by blast

lemma codec_decode_Err_append:
  assumes "codec_decode mx src = Err e"
  shows "codec_decode mx (src @ ext) = Err e"
proof -
  have len: "length src \<ge> 28" using assms by (auto simp: codec_decode_def HEADER_LEN_def split: if_splits)
  then have "(src @ ext) ! 0 = src ! 0" "(src @ ext) ! 1 = src ! 1" "(src @ ext) ! 2 = src ! 2"
    "take 2 (drop 4 (src @ ext)) = take 2 (drop 4 src)"
    "take 2 (drop 22 (src @ ext)) = take 2 (drop 22 src)"
    "take 4 (drop 24 (src @ ext)) = take 4 (drop 24 src)"
    by (auto simp: nth_append)
  then show ?thesis
    using assms len unfolding codec_decode_def Let_def HEADER_LEN_def
    by (auto simp del: take_append drop_append simp: and_then_def split: if_splits sum.splits)
qed


text \<open>A strict prefix of a frame asks for more bytes: it is neither refused nor cut short.\<close>

lemma codec_decode_prefix:
  assumes "frame_ok mx f" and "frame_encode f = p @ q" and "q \<noteq> []"
  shows "codec_decode mx p = Ok None"
proof (cases "codec_decode mx p")
  case (Inl e)
  have "codec_decode mx (p @ q) = Err e" by (rule codec_decode_Err_append [OF Inl])
  with codec_decode_encode [OF assms(1), of "[]"] assms(2) show ?thesis by simp
next
  case (Inr r)
  show ?thesis
  proof (cases r)
    case (Some fr)
    obtain g rest where "fr = (g, rest)" by (cases fr)
    with Inr Some have "frame_ok mx g" "p = frame_encode g @ rest" by (simp_all add: codec_decode_Some_iff)
    then have "codec_decode mx (p @ q) = Ok (Some (g, rest @ q))" by (simp add: codec_decode_encode)
    moreover have "codec_decode mx (p @ q) = Ok (Some (f, []))"
      using codec_decode_encode [OF assms(1), of "[]"] assms(2) by simp
    ultimately show ?thesis using assms(3) by simp
  qed (use Inr in simp)
qed

text \<open>The codec as an incremental consumer that collects the decoded frames.\<close>

definition codec_step ::
  "nat \<Rightarrow> broker_frame list \<Rightarrow> bytes \<Rightarrow> (broker_frame list, broker_frame list \<times> brokerlink_error) progress" where
  "codec_step mx fs buf =
     (case codec_decode mx buf of
        Inl e \<Rightarrow> Stop (fs, e)
      | Inr None \<Rightarrow> More
      | Inr (Some (f, rest)) \<Rightarrow> Next (fs @ [f]) rest)"

lemma codec_step_Next:
  "codec_step mx fs buf = Next fs' rest \<longleftrightarrow> (\<exists>f. codec_decode mx buf = Ok (Some (f, rest)) \<and> fs' = fs @ [f])"
  by (auto simp: codec_step_def split: sum.splits option.splits)

lemma codec_step_Stop: "codec_step mx fs buf = Stop r \<longleftrightarrow> (\<exists>e. codec_decode mx buf = Err e \<and> r = (fs, e))"
  by (auto simp: codec_step_def split: sum.splits option.splits)

interpretation link: incremental "codec_step mx"
proof
  show "codec_step mx st (buf @ ext) = Next st' (rest @ ext)" if "codec_step mx st buf = Next st' rest"
    for st buf st' rest ext
    using that by (auto simp: codec_step_Next codec_decode_Some_iff)
  show "codec_step mx st (buf @ ext) = Stop r" if "codec_step mx st buf = Stop r" for st buf r ext
    using that by (auto simp: codec_step_Stop codec_decode_Err_append)
  show "length rest < length buf" if "codec_step mx st buf = Next st' rest" for st buf st' rest
    using that by (auto simp: codec_step_Next codec_decode_Some_iff frame_encode_def HEADER_LEN_def)
qed

section \<open>Transport and lanes\<close>

lemma encode_all_Ok:
  "encode_all mx fs = Ok bs \<longleftrightarrow>
     (\<forall>f\<in>set fs. total_frame_len f \<le> mx) \<and> bs = concat (map frame_encode fs)"
proof (induction fs arbitrary: bs)
  case (Cons f fs)
  then show ?case by (auto simp: codec_encode_def and_then_Inr_iff not_less)
qed auto

text \<open>One batch writes the bytes of the single sends in their order.\<close>

fun send_each :: "nat \<Rightarrow> bytes \<Rightarrow> broker_frame list \<Rightarrow> (brokerlink_error + unit) \<times> bytes" where
  "send_each mx out [] = (Ok (), out)"
| "send_each mx out (f # fs) =
    (case transport_send mx Written out f of (Err e, out') \<Rightarrow> (Err e, out') | (Ok _, out') \<Rightarrow> send_each mx out' fs)"

lemma send_each_Ok:
  "send_each mx out fs = (Ok (), out') \<longleftrightarrow>
     (\<forall>f\<in>set fs. total_frame_len f \<le> mx) \<and> out' = out @ concat (map frame_encode fs)"
proof (induction fs arbitrary: out)
  case (Cons f fs)
  then show ?case by (auto simp: transport_send_def codec_encode_def)
qed auto

lemma send_batch_Ok:
  "transport_send_batch mx Written out fs = (Ok (), out') \<longleftrightarrow>
     (\<forall>f\<in>set fs. total_frame_len f \<le> mx) \<and> out' = out @ concat (map frame_encode fs)"
proof (cases "encode_all mx fs")
  case (Inl e)
  then have "\<not> (\<forall>f\<in>set fs. total_frame_len f \<le> mx)"
    using encode_all_Ok [of mx fs "concat (map frame_encode fs)"] by auto
  with Inl show ?thesis by (auto simp: transport_send_batch_def)
next
  case (Inr bs)
  with encode_all_Ok [of mx fs bs] show ?thesis by (auto simp: transport_send_batch_def)
qed

text \<open>The bytes of a list of reads that all give bytes.\<close>

definition got :: "bytes list \<Rightarrow> read_result list" where
  "got chunks = map Got chunks"

fun recv_many ::
  "nat \<Rightarrow> nat \<Rightarrow> bytes \<Rightarrow> read_result list \<Rightarrow> (brokerlink_error + broker_frame list) \<times> bytes \<times> read_result list" where
  "recv_many mx 0 buf reads = (Ok [], buf, reads)"
| "recv_many mx (Suc n) buf reads =
    (case transport_recv mx buf reads of
       (Inl e, buf', reads') \<Rightarrow> (Err e, buf', reads')
     | (Inr f, buf', reads') \<Rightarrow>
         (case recv_many mx n buf' reads' of
            (Inl e, p) \<Rightarrow> (Err e, p)
          | (Inr fs, p) \<Rightarrow> (Ok (f # fs), p)))"

lemma transport_recv_frame:
  assumes "frame_ok mx f" and "[] \<notin> set chunks" and "buf @ concat chunks = frame_encode f @ tail"
  shows "\<exists>buf' chunks'. transport_recv mx buf (got chunks) = (Ok f, buf', got chunks') \<and>
    [] \<notin> set chunks' \<and> buf' @ concat chunks' = tail"
  using assms(2,3)
proof (induction chunks arbitrary: buf)
  case Nil
  then have "codec_decode mx buf = Ok (Some (f, tail))" using assms(1) by (simp add: codec_decode_Some_iff)
  then show ?case
    by (intro exI [of _ tail] exI [of _ "[]"]) (simp add: transport_recv.simps)
next
  case (Cons c cs)
  show ?case
  proof (cases "length (frame_encode f) \<le> length buf")
    case True
    with Cons.prems(2) obtain r where r: "buf = frame_encode f @ r"
      by (metis append_eq_append_conv_if append_take_drop_id)
    then have "codec_decode mx buf = Ok (Some (f, r))" using assms(1) by (simp add: codec_decode_Some_iff)
    then show ?thesis
      using r Cons.prems by (intro exI [of _ r] exI [of _ "c # cs"]) (simp add: transport_recv.simps)
  next
    case False
    obtain q where "buf = frame_encode f @ q \<or> buf @ q = frame_encode f"
      using Cons.prems(2) by (auto simp: append_eq_append_conv2)
    then have q: "frame_encode f = buf @ q" using False by auto
    then have "q \<noteq> []" using False by auto
    with q have none: "codec_decode mx buf = Ok None" using codec_decode_prefix assms(1) by blast
    obtain b bs where c: "c = b # bs" using Cons.prems(1) by (cases c) auto
    have "transport_recv mx buf (got (c # cs)) = transport_recv mx (buf @ c) (got cs)"
      by (simp add: transport_recv.simps [of mx buf] none c got_def)
    with Cons show ?thesis by auto
  qed
qed

lemma recv_many_frames:
  assumes "\<forall>f\<in>set fs. frame_ok mx f" and "[] \<notin> set chunks"
    and "buf @ concat chunks = concat (map frame_encode fs) @ tail"
  shows "\<exists>buf' chunks'. recv_many mx (length fs) buf (got chunks) = (Ok fs, buf', got chunks') \<and>
    [] \<notin> set chunks' \<and> buf' @ concat chunks' = tail"
  using assms
proof (induction fs arbitrary: buf chunks)
  case (Cons f fs)
  from transport_recv_frame [of mx f chunks buf "concat (map frame_encode fs) @ tail"] Cons.prems
  obtain buf1 chunks1 where "transport_recv mx buf (got chunks) = (Ok f, buf1, got chunks1)"
    "[] \<notin> set chunks1" "buf1 @ concat chunks1 = concat (map frame_encode fs) @ tail" by auto
  with Cons.IH [of chunks1 buf1] Cons.prems show ?case by fastforce
qed auto

text \<open>
  The frames of a sequence dispatched over the lanes, each with the outcome of its write, up to the
  first error.
\<close>

fun dispatch_all ::
  "nat \<Rightarrow> bytes list \<Rightarrow> (write_result \<times> broker_frame) list \<Rightarrow> (brokerlink_error + unit) \<times> bytes list" where
  "dispatch_all mx lanes [] = (Ok (), lanes)"
| "dispatch_all mx lanes ((w, f) # jobs) =
    (case lane_dispatch mx w lanes f of (Err e, lanes') \<Rightarrow> (Err e, lanes') | (Ok _, lanes') \<Rightarrow> dispatch_all mx lanes' jobs)"

definition on_lane :: "nat \<Rightarrow> nat \<Rightarrow> broker_frame \<Rightarrow> bool" where
  "on_lane n i f \<longleftrightarrow> unat (h_conn_id (f_header f)) mod n = i"

text \<open>The frames written whole before the first failed write, and the bytes that this write left on a lane.\<close>

definition sent_frames :: "(write_result \<times> broker_frame) list \<Rightarrow> broker_frame list" where
  "sent_frames jobs = map snd (takeWhile (\<lambda>j. fst j = Written) jobs)"

definition broken_off :: "nat \<Rightarrow> nat \<Rightarrow> (write_result \<times> broker_frame) list \<Rightarrow> bytes" where
  "broken_off n i jobs =
     (case dropWhile (\<lambda>j. fst j = Written) jobs of
        (w, f) # _ \<Rightarrow> if on_lane n i f then snd (write_flush w [] (frame_encode f)) else []
      | [] \<Rightarrow> [])"

lemma write_flush_append: "write_flush w out buf = (fst (write_flush w [] buf), out @ snd (write_flush w [] buf))"
  by (cases w) simp_all

lemma write_flush_Ok: "(\<exists>u. fst (write_flush w out buf) = Ok u) \<longleftrightarrow> w = Written"
  by (cases w) simp_all

lemma lane_dispatch_cases:
  assumes "total_frame_len f \<le> mx" and "lanes \<noteq> []"
  shows "lane_dispatch mx w lanes f = (fst (write_flush w [] (frame_encode f)),
    map (\<lambda>i. lanes ! i @ (if on_lane (length lanes) i f then snd (write_flush w [] (frame_encode f)) else [])) [0..<length lanes])"
proof -
  let ?i = "unat (h_conn_id (f_header f)) mod length lanes" and ?b = "snd (write_flush w [] (frame_encode f))"
  have "lanes[?i := lanes ! ?i @ ?b] = map (\<lambda>i. lanes ! i @ (if on_lane (length lanes) i f then ?b else [])) [0..<length lanes]"
    by (rule nth_equalityI) (auto simp: on_lane_def nth_list_update)
  moreover have "write_flush w (lanes ! ?i) (frame_encode f) = (fst (write_flush w [] (frame_encode f)), lanes ! ?i @ ?b)"
    by (rule write_flush_append)
  ultimately show ?thesis using assms
    by (simp add: lane_dispatch_def transport_send_def codec_encode_def get_lane_def lane_for_conn_def Let_def)
qed

lemma dispatch_all_lanes:
  assumes "\<forall>j\<in>set jobs. total_frame_len (snd j) \<le> mx" and "lanes \<noteq> []"
  shows "\<exists>res lanes'. dispatch_all mx lanes jobs = (res, lanes') \<and> length lanes' = length lanes
    \<and> (res = Ok () \<longleftrightarrow> (\<forall>j\<in>set jobs. fst j = Written))
    \<and> (\<forall>i < length lanes. lanes' ! i =
       lanes ! i @ concat (map frame_encode (filter (on_lane (length lanes) i) (sent_frames jobs)))
         @ broken_off (length lanes) i jobs)"
  using assms
proof (induction jobs arbitrary: lanes)
  case (Cons job jobs)
  obtain w f where job: "job = (w, f)" by (cases job)
  let ?b = "snd (write_flush w [] (frame_encode f))"
  define lanes1 where
    "lanes1 = map (\<lambda>i. lanes ! i @ (if on_lane (length lanes) i f then ?b else [])) [0..<length lanes]"
  have d: "lane_dispatch mx w lanes f = (fst (write_flush w [] (frame_encode f)), lanes1)"
    using Cons.prems by (simp add: lane_dispatch_cases lanes1_def job)
  have l1: "length lanes1 = length lanes" "lanes1 \<noteq> []"
    "\<And>i. i < length lanes \<Longrightarrow> lanes1 ! i = lanes ! i @ (if on_lane (length lanes) i f then ?b else [])"
    using Cons.prems(2) by (simp_all add: lanes1_def)
  show ?case
  proof (cases "w = Written")
    case True
    from Cons.IH [of lanes1] Cons.prems l1 obtain res lanes' where
      "dispatch_all mx lanes1 jobs = (res, lanes')" "length lanes' = length lanes"
      "res = Ok () \<longleftrightarrow> (\<forall>j\<in>set jobs. fst j = Written)"
      "\<And>i. i < length lanes \<Longrightarrow> lanes' ! i = lanes1 ! i
         @ concat (map frame_encode (filter (on_lane (length lanes) i) (sent_frames jobs))) @ broken_off (length lanes) i jobs"
      by (auto simp: job)
    with True d l1(3) show ?thesis by (intro exI [of _ res] exI [of _ lanes']) (auto simp: job sent_frames_def broken_off_def)
  next
    case False
    then obtain e where e: "fst (write_flush w [] (frame_encode f)) = Err e" by (cases w) auto
    with False d l1 show ?thesis
      by (intro exI [of _ "Err e"] exI [of _ lanes1]) (auto simp: job sent_frames_def broken_off_def)
  qed
qed (simp add: sent_frames_def broken_off_def)

section \<open>Properties\<close>

text \<open>
  C38. The frame codec is exact: for every size limit, decoding a buffer gives a frame and a rest
  exactly when the frame is well formed within the limit and the buffer is its encoding followed by
  the rest. So encoding and decoding are inverse, and no frame has a second encoding.
\<close>

theorem frame_codec_exact:
  "codec_decode mx src = Ok (Some (f, rest)) \<longleftrightarrow> frame_ok mx f \<and> src = frame_encode f @ rest"
  by (rule codec_decode_Some_iff)

text \<open>
  C39. Decoding a byte stream does not depend on how the socket cuts it: feeding the chunks one after
  the other gives the same frames, the same error and the same unread bytes as decoding the whole
  stream at once, also when the stream is malformed or ends inside a frame.
\<close>

theorem frame_stream_chunking:
  "feed (codec_step mx) (Inr (fs, [])) chunks = drain (codec_step mx) fs (concat chunks)"
proof -
  have "drain (codec_step mx) fs [] = Inr (fs, [])"
    by (simp add: drain.simps codec_step_def codec_decode_def HEADER_LEN_def)
  with link.feed_concat [of mx fs "[]" chunks] show ?thesis by simp
qed

text \<open>
  C40. Order and completeness of the link. Well-formed frames are dispatched over the lanes, up to the
  first write or flush that fails. The dispatch succeeds exactly when no write failed. A receiver of
  a lane that reads the written bytes in arbitrary nonempty chunks gets exactly the frames of the
  connections of that lane that were written whole, in the order of dispatch; what is left over is
  what the failed write put on this lane, and nothing if no write failed or it was on another lane.
  So the frames of one connection keep their order.
\<close>

theorem lanes_deliver_in_order:
  assumes "\<forall>j\<in>set jobs. frame_ok mx (snd j)" and "0 < n" and "i < n"
  shows "\<exists>res lanes. dispatch_all mx (replicate n []) jobs = (res, lanes) \<and>
    (res = Ok () \<longleftrightarrow> sent_frames jobs = map snd jobs) \<and>
    (\<forall>chunks. [] \<notin> set chunks \<and> concat chunks = lanes ! i \<longrightarrow>
      (\<exists>buf chunks'. recv_many mx (length (filter (on_lane n i) (sent_frames jobs))) [] (got chunks) =
          (Ok (filter (on_lane n i) (sent_frames jobs)), buf, got chunks')
        \<and> buf @ concat chunks' = broken_off n i jobs))"
proof -
  have len: "\<forall>j\<in>set jobs. total_frame_len (snd j) \<le> mx" using assms(1) by (auto simp: frame_ok_def)
  then obtain res lanes where l: "dispatch_all mx (replicate n []) jobs = (res, lanes)"
    "res = Ok () \<longleftrightarrow> (\<forall>j\<in>set jobs. fst j = Written)"
    "\<forall>i < n. lanes ! i = concat (map frame_encode (filter (on_lane n i) (sent_frames jobs))) @ broken_off n i jobs"
    using dispatch_all_lanes [of jobs mx "replicate n []"] assms(2) by auto
  have "(\<forall>j\<in>set jobs. fst j = Written) \<longleftrightarrow> takeWhile (\<lambda>j. fst j = Written) jobs = jobs"
    by (auto simp: takeWhile_eq_all_conv)
  also have "\<dots> \<longleftrightarrow> length (takeWhile (\<lambda>j. fst j = Written) jobs) = length jobs"
    by (metis takeWhile_eq_take take_all_iff order_refl)
  also have "\<dots> \<longleftrightarrow> sent_frames jobs = map snd jobs"
    unfolding sent_frames_def by (metis length_map takeWhile_eq_take take_all_iff order_refl)
  finally have res: "res = Ok () \<longleftrightarrow> sent_frames jobs = map snd jobs" using l(2) by simp
  have ok: "\<forall>f\<in>set (filter (on_lane n i) (sent_frames jobs)). frame_ok mx f"
    using assms(1) by (auto simp: sent_frames_def dest!: set_takeWhileD)
  have "\<exists>buf chunks'. recv_many mx (length (filter (on_lane n i) (sent_frames jobs))) [] (got chunks) =
      (Ok (filter (on_lane n i) (sent_frames jobs)), buf, got chunks') \<and> buf @ concat chunks' = broken_off n i jobs"
    if "[] \<notin> set chunks" "concat chunks = lanes ! i" for chunks
    using recv_many_frames [OF ok that(1), of "[]" "broken_off n i jobs"] that(2) l(3) assms(3) by auto
  with l(1) res show ?thesis by blast
qed

definition sample_frame :: "u64 \<Rightarrow> u64 \<Rightarrow> broker_frame" where
  "sample_frame conn seq =
     \<lparr>f_header = header_new PublishIn conn seq 1 2, f_metadata = [7], f_payload = [8, 9]\<rparr>"

text \<open>Three sends, of which the last breaks off after 30 bytes.\<close>

definition sample_jobs :: "(write_result \<times> broker_frame) list" where
  "sample_jobs = [(Written, sample_frame 3 1), (Written, sample_frame 4 1), (WriteFailed 30 ''reset'', sample_frame 5 1)]"

theorem lanes_deliver_in_order_witness:
  "\<exists>res lanes. dispatch_all 100 (replicate 2 []) sample_jobs = (res, lanes) \<and> res \<noteq> Ok () \<and>
     (\<exists>buf chunks'. recv_many 100 1 [] (got (map (\<lambda>b. [b]) (lanes ! 1))) = (Ok [sample_frame 3 1], buf, got chunks')
       \<and> buf @ concat chunks' = take 30 (frame_encode (sample_frame 5 1)))"
proof -
  have ok: "\<forall>j\<in>set sample_jobs. frame_ok 100 (snd j)"
    by (simp add: sample_jobs_def sample_frame_def frame_ok_def header_new_def total_frame_len_def HEADER_LEN_def)
  have sent: "sent_frames sample_jobs = [sample_frame 3 1, sample_frame 4 1]" "map snd sample_jobs \<noteq> sent_frames sample_jobs"
    by (simp_all add: sent_frames_def sample_jobs_def)
  have lane: "filter (on_lane 2 1) (sent_frames sample_jobs) = [sample_frame 3 1]"
    by (simp add: sent on_lane_def sample_frame_def header_new_def)
  have broken: "broken_off 2 1 sample_jobs = take 30 (frame_encode (sample_frame 5 1))"
    by (simp add: broken_off_def sample_jobs_def on_lane_def) (simp add: sample_frame_def header_new_def)
  have one: "length [sample_frame 3 1] = 1" by simp
  have zero_less_two: "0 < (2 :: nat)" and one_less_two: "1 < (2 :: nat)" by simp_all
  have bytewise: "[] \<notin> set (map (\<lambda>b. [b]) xs) \<and> concat (map (\<lambda>b. [b]) xs) = xs" for xs :: bytes
    by (induction xs) auto
  obtain res lanes where d: "dispatch_all 100 (replicate 2 []) sample_jobs = (res, lanes)"
    and r: "res = Ok () \<longleftrightarrow> sent_frames sample_jobs = map snd sample_jobs"
    and g: "\<And>chunks. [] \<notin> set chunks \<and> concat chunks = lanes ! 1 \<Longrightarrow>
      \<exists>buf chunks'. recv_many 100 (length (filter (on_lane 2 1) (sent_frames sample_jobs))) [] (got chunks) =
          (Ok (filter (on_lane 2 1) (sent_frames sample_jobs)), buf, got chunks')
        \<and> buf @ concat chunks' = broken_off 2 1 sample_jobs"
    using lanes_deliver_in_order [OF ok zero_less_two one_less_two] by (elim exE conjE) blast
  from r sent(2) have "res \<noteq> Ok ()" by auto
  with d g [OF bytewise, unfolded lane broken one] show ?thesis by blast
qed

text \<open>
  Batching is only an optimisation: sending a batch writes the same bytes as sending its frames
  one by one, whenever all writes succeed.
\<close>

theorem send_batch_equals_sends:
  "transport_send_batch mx Written out fs = (Ok (), out') \<longleftrightarrow> send_each mx out fs = (Ok (), out')"
  by (simp add: send_batch_Ok send_each_Ok)

end
