(* ===== verification/Subscriptions.thy ===== *)
theory Subscriptions
  imports Topics
begin

text \<open>
  The data of the subscription router (\<^verbatim>\<open>crates/broker-router/src/lib.rs\<close>, first part): one client's
  subscription, the options byte of MQTT 5, tenant normalisation, the delayed and the shared filter
  prefixes, and the configuration names of rewrite scopes and shared-group strategies.
\<close>

section \<open>Text helpers of the standard library\<close>

text \<open>The UTF-8 forms of the characters with the White\_Space property, as \<open>trim\<close> removes them.\<close>

definition white_space :: "string list" where
  "white_space =
     [[CHR 0x09], [CHR 0x0A], [CHR 0x0B], [CHR 0x0C], [CHR 0x0D], [CHR 0x20],
      [CHR 0xC2, CHR 0x85], [CHR 0xC2, CHR 0xA0], [CHR 0xE1, CHR 0x9A, CHR 0x80]] @
     map (\<lambda>b. [CHR 0xE2, CHR 0x80, char_of b]) ([0x80..<0x8B] @ [0xA8 :: nat, 0xA9, 0xAF]) @
     [[CHR 0xE2, CHR 0x81, CHR 0x9F], [CHR 0xE3, CHR 0x80, CHR 0x80]]"

function trim_start :: "string \<Rightarrow> string" where
  "trim_start s =
     (case find (\<lambda>w. w \<noteq> [] \<and> prefix w s) white_space of
        None \<Rightarrow> s
      | Some w \<Rightarrow> trim_start (drop (length w) s))"
  by pat_completeness auto

termination trim_start
proof (relation "measure length", goal_cases)
  case (2 s w)
  then have "w \<noteq> [] \<and> prefix w s" by (auto simp: find_Some_iff)
  then show ?case by (cases w) (auto simp: prefix_def)
qed simp

function trim_end :: "string \<Rightarrow> string" where
  "trim_end s =
     (case find (\<lambda>w. w \<noteq> [] \<and> suffix w s) white_space of
        None \<Rightarrow> s
      | Some w \<Rightarrow> trim_end (take (length s - length w) s))"
  by pat_completeness auto

termination trim_end
proof (relation "measure length", goal_cases)
  case (2 s w)
  then have "w \<noteq> [] \<and> suffix w s" by (auto simp: find_Some_iff)
  then show ?case by (cases w) (auto simp: suffix_def)
qed simp

declare trim_start.simps [simp del] trim_end.simps [simp del]

definition trim :: "string \<Rightarrow> string" where
  "trim s = trim_end (trim_start s)"

definition ascii_lower :: "char \<Rightarrow> char" where
  "ascii_lower c =
     (let n = of_char c in if 65 \<le> n \<and> n \<le> (90 :: nat) then char_of (n + 32) else c)"

definition to_ascii_lowercase :: "string \<Rightarrow> string" where
  "to_ascii_lowercase s = map ascii_lower s"

text \<open>\<open>str::parse::<u64>\<close>: digits with an optional plus sign, no overflow.\<close>

definition is_digit :: "char \<Rightarrow> bool" where
  "is_digit c \<longleftrightarrow> (48 :: nat) \<le> of_char c \<and> of_char c \<le> (57 :: nat)"

definition digits_value :: "string \<Rightarrow> nat" where
  "digits_value s = foldl (\<lambda>acc c. acc * 10 + (of_char c - 48)) 0 s"

definition parse_u64 :: "string \<Rightarrow> u64 option" where
  "parse_u64 s =
     (let d = (case s of c # r \<Rightarrow> if c = CHR ''+'' then r else s | [] \<Rightarrow> []) in
      if d = [] \<or> \<not> list_all is_digit d \<or> digits_value d \<ge> 2 ^ 64 then None
      else Some (of_nat (digits_value d)))"

section \<open>Subscriptions\<close>

definition DEFAULT_TENANT_ID :: string where
  "DEFAULT_TENANT_ID = ''default''"

definition MAX_TENANT_ID_LEN :: nat where
  "MAX_TENANT_ID_LEN = 128"

definition MAX_SUBSCRIPTION_ID :: u32 where
  "MAX_SUBSCRIPTION_ID = 268435455"

record subscription =
  sub_client_id :: string
  sub_conn_id :: u64
  sub_qos :: qos
  sub_group :: "string option"
  sub_tenant :: string
  sub_no_local :: bool
  sub_retain_as_published :: bool
  sub_retain_handling :: u8
  sub_subscription_id :: u32

definition sub_new :: "string \<Rightarrow> u64 \<Rightarrow> qos \<Rightarrow> subscription" where
  "sub_new client_id conn_id qos =
     \<lparr>sub_client_id = client_id, sub_conn_id = conn_id, sub_qos = qos, sub_group = None,
      sub_tenant = DEFAULT_TENANT_ID, sub_no_local = False, sub_retain_as_published = False,
      sub_retain_handling = 0, sub_subscription_id = 0\<rparr>"

definition sub_shared :: "string \<Rightarrow> u64 \<Rightarrow> qos \<Rightarrow> string \<Rightarrow> subscription" where
  "sub_shared client_id conn_id qos grp =
     \<lparr>sub_client_id = client_id, sub_conn_id = conn_id, sub_qos = qos, sub_group = Some grp,
      sub_tenant = DEFAULT_TENANT_ID, sub_no_local = False, sub_retain_as_published = False,
      sub_retain_handling = 0, sub_subscription_id = 0\<rparr>"

definition sub_with_options ::
  "string \<Rightarrow> u64 \<Rightarrow> qos \<Rightarrow> bool \<Rightarrow> bool \<Rightarrow> u8 \<Rightarrow> u32 \<Rightarrow> subscription" where
  "sub_with_options client_id conn_id qos no_local rap rh sid =
     (sub_new client_id conn_id qos)
       \<lparr>sub_no_local := no_local, sub_retain_as_published := rap,
        sub_retain_handling := (if rh \<le> 2 then rh else 0),
        sub_subscription_id := (if sid \<le> MAX_SUBSCRIPTION_ID then sid else 0)\<rparr>"

definition normalize_tenant :: "string \<Rightarrow> string" where
  "normalize_tenant tenant =
     (if tenant = [] \<or> length tenant > MAX_TENANT_ID_LEN then DEFAULT_TENANT_ID else tenant)"

definition sub_new_in_tenant :: "string \<Rightarrow> u64 \<Rightarrow> qos \<Rightarrow> string \<Rightarrow> subscription" where
  "sub_new_in_tenant client_id conn_id qos tenant =
     (sub_new client_id conn_id qos)\<lparr>sub_tenant := normalize_tenant tenant\<rparr>"

definition sub_shared_in_tenant :: "string \<Rightarrow> u64 \<Rightarrow> qos \<Rightarrow> string \<Rightarrow> string \<Rightarrow> subscription" where
  "sub_shared_in_tenant client_id conn_id qos grp tenant =
     (sub_shared client_id conn_id qos grp)\<lparr>sub_tenant := normalize_tenant tenant\<rparr>"

definition decode_options_byte :: "u8 \<Rightarrow> (qos \<times> bool \<times> bool \<times> u8) option" where
  "decode_options_byte opts =
     (if opts AND 0xC0 \<noteq> 0 then None
      else case qos_try_from (opts AND 0x03) of
        Inl e \<Rightarrow> None
      | Inr qos \<Rightarrow>
          let nl = (opts AND 0x04 \<noteq> 0); rap = (opts AND 0x08 \<noteq> 0);
              rh = drop_bit 4 (opts AND 0x30) in
          if rh > 2 then None else Some (qos, nl, rap, rh))"

definition encode_options_byte :: "qos \<Rightarrow> bool \<Rightarrow> bool \<Rightarrow> u8 \<Rightarrow> u8" where
  "encode_options_byte qos no_local rap rh =
     (let opts = qos_to_u8 qos AND 0x03;
          opts = (if no_local then opts OR 0x04 else opts);
          opts = (if rap then opts OR 0x08 else opts) in
      opts OR push_bit 4 (min rh 2 AND 0x03))"

section \<open>Filter prefixes\<close>

definition strip_delayed_prefix :: "string \<Rightarrow> (u64 \<times> string) option" where
  "strip_delayed_prefix topic =
     (case strip_prefix ''$delayed/'' topic of
        None \<Rightarrow> None
      | Some rest \<Rightarrow>
          (case split_once (CHR ''/'') rest of
             None \<Rightarrow> None
           | Some (secs, inner) \<Rightarrow>
               if inner = [] then None
               else map_option (\<lambda>delay. (delay, inner)) (parse_u64 secs)))"

text \<open>The inner filter is validated again, so its validation may panic as well.\<close>

definition split_shared_filter ::
  "topic_filter \<Rightarrow> (string option \<times> topic_filter) option run" where
  "split_shared_filter f =
     (let raw = filter_as_str f in
      case strip_prefix ''$share/'' raw of
        None \<Rightarrow> Returns (Some (None, f))
      | Some rest \<Rightarrow>
          (case split_once (CHR ''/'') rest of
             None \<Rightarrow> Returns None
           | Some (grp, inner) \<Rightarrow>
               if grp = [] \<or> inner = [] then Returns None
               else case filter_new inner of
                 Panic \<Rightarrow> Panic
               | Returns (Inl e) \<Rightarrow> Returns None
               | Returns (Inr inner_filter) \<Rightarrow> Returns (Some (Some grp, inner_filter))))"

section \<open>Configuration names\<close>

datatype rewrite_scope = Both | PublishOnly | SubscribeOnly

definition rewrite_scope_parse :: "string \<Rightarrow> rewrite_scope option" where
  "rewrite_scope_parse name =
     (let n = to_ascii_lowercase (trim name) in
      if n = ''publish'' \<or> n = ''pub'' then Some PublishOnly
      else if n = ''subscribe'' \<or> n = ''sub'' then Some SubscribeOnly
      else if n = ''both'' \<or> n = ''all'' then Some Both
      else None)"

fun rewrite_scope_as_str :: "rewrite_scope \<Rightarrow> string" where
  "rewrite_scope_as_str Both = ''both''"
| "rewrite_scope_as_str PublishOnly = ''publish''"
| "rewrite_scope_as_str SubscribeOnly = ''subscribe''"

definition applies_to_publish :: "rewrite_scope \<Rightarrow> bool" where
  "applies_to_publish s \<longleftrightarrow> s = PublishOnly \<or> s = Both"

definition applies_to_subscribe :: "rewrite_scope \<Rightarrow> bool" where
  "applies_to_subscribe s \<longleftrightarrow> s = SubscribeOnly \<or> s = Both"

datatype shared_strategy = RoundRobin | Random | HashClientId | HashTopic | Sticky

datatype shared_strategy_error = UnknownStrategy string | EmptyGroup | TooManyGroups nat

definition shared_strategy_parse :: "string \<Rightarrow> shared_strategy_error + shared_strategy" where
  "shared_strategy_parse name =
     (let n = to_ascii_lowercase (trim name) in
      if n = ''round_robin'' \<or> n = ''round-robin'' \<or> n = ''roundrobin'' then Ok RoundRobin
      else if n = ''random'' then Ok Random
      else if n = ''hash_clientid'' \<or> n = ''hash-clientid'' \<or> n = ''hash-client-id'' then Ok HashClientId
      else if n = ''hash_topic'' \<or> n = ''hash-topic'' then Ok HashTopic
      else if n = ''sticky'' then Ok Sticky
      else Err (UnknownStrategy n))"

fun shared_strategy_as_str :: "shared_strategy \<Rightarrow> string" where
  "shared_strategy_as_str RoundRobin = ''round_robin''"
| "shared_strategy_as_str Random = ''random''"
| "shared_strategy_as_str HashClientId = ''hash_clientid''"
| "shared_strategy_as_str HashTopic = ''hash_topic''"
| "shared_strategy_as_str Sticky = ''sticky''"

section \<open>Properties\<close>

text \<open>The layout of the options byte that MQTT 5 gives.\<close>

definition options_layout :: "u8 \<Rightarrow> bool \<Rightarrow> bool \<Rightarrow> u8 \<Rightarrow> u8" where
  "options_layout q nl rap h =
     q OR (if nl then 0x04 else 0) OR (if rap then 0x08 else 0) OR push_bit 4 h"

lemma options_layout_fields:
  assumes "q = 0 \<or> q = 1 \<or> q = 2 \<or> q = 3" and "h = 0 \<or> h = 1 \<or> h = 2 \<or> h = 3"
  shows "options_layout q nl rap h AND 0xC0 = 0" "options_layout q nl rap h AND 0x03 = q"
    "options_layout q nl rap h AND 0x04 = 0 \<longleftrightarrow> \<not> nl"
    "options_layout q nl rap h AND 0x08 = 0 \<longleftrightarrow> \<not> rap"
    "drop_bit 4 (options_layout q nl rap h AND 0x30) = h"
  unfolding options_layout_def using assms
  by (elim disjE; cases nl; cases rap; simp)+

lemma options_layout_unique:
  fixes opts :: u8
  assumes "opts AND 0xC0 = 0"
  shows "opts = options_layout (opts AND 0x03) (opts AND 0x04 \<noteq> 0) (opts AND 0x08 \<noteq> 0)
     (drop_bit 4 (opts AND 0x30))"
proof -
  have "bit (opts AND 0xC0) n = bit (0 :: u8) n" for n using assms by simp
  from this [of 6] this [of 7] have "\<not> bit opts 6" "\<not> bit opts 7" by (simp_all add: bit_simps)
  then show ?thesis
    unfolding byte_eq_bits options_layout_def byte_bits by (simp add: bit_simps)
qed

lemma retain_handling_cases: "min rh 2 = 0 \<or> min rh 2 = 1 \<or> min rh 2 = 2 \<or> min rh 2 = (3 :: u8)"
  using qos_le_two [of "min rh 2"] by simp

lemma encode_options_byte_layout:
  "encode_options_byte q nl rap rh = options_layout (qos_to_u8 q) nl rap (min rh 2)"
proof -
  have "min rh 2 AND 3 = min rh 2" by (rule qos_and_three) simp
  moreover have "qos_to_u8 q AND 3 = qos_to_u8 q" by (cases q) simp_all
  ultimately show ?thesis
    by (simp add: encode_options_byte_def options_layout_def Let_def or.assoc)
qed

lemma qos_to_u8_cases: "qos_to_u8 q = 0 \<or> qos_to_u8 q = 1 \<or> qos_to_u8 q = 2 \<or> qos_to_u8 q = 3"
  by (cases q) simp_all

text \<open>
  The options byte of a subscription round-trips: decoding an encoded byte gives its fields
  (with the retain handling capped at 2), and every byte that decodes is the encoding of its fields.
  Bytes with a reserved bit, QoS 3 or retain handling 3 are refused.
\<close>

theorem options_byte_roundtrip:
  "decode_options_byte (encode_options_byte q nl rap rh) = Some (q, nl, rap, min rh 2) \<and>
   (decode_options_byte opts = Some (q', nl', rap', rh') \<longleftrightarrow>
      rh' \<le> 2 \<and> opts = encode_options_byte q' nl' rap' rh')"
proof
  show enc: "decode_options_byte (encode_options_byte q nl rap rh) = Some (q, nl, rap, min rh 2)" for q nl rap rh
    using options_layout_fields [OF qos_to_u8_cases retain_handling_cases, of q nl rap rh]
    by (simp add: decode_options_byte_def encode_options_byte_layout Let_def not_less)
  show "decode_options_byte opts = Some (q', nl', rap', rh') \<longleftrightarrow>
      rh' \<le> 2 \<and> opts = encode_options_byte q' nl' rap' rh'"
  proof
    assume d: "decode_options_byte opts = Some (q', nl', rap', rh')"
    then have "opts AND 0xC0 = 0" "opts AND 0x03 = qos_to_u8 q'" "nl' = (opts AND 0x04 \<noteq> 0)"
      "rap' = (opts AND 0x08 \<noteq> 0)" "rh' = drop_bit 4 (opts AND 0x30)" "rh' \<le> 2"
      by (auto simp: decode_options_byte_def Let_def qos_try_from_Ok not_less split: if_splits sum.splits)
    with options_layout_unique [of opts] show "rh' \<le> 2 \<and> opts = encode_options_byte q' nl' rap' rh'"
      by (simp add: encode_options_byte_layout min_def)
  next
    assume "rh' \<le> 2 \<and> opts = encode_options_byte q' nl' rap' rh'"
    with enc [of q' nl' rap' rh'] show "decode_options_byte opts = Some (q', nl', rap', rh')"
      by (simp add: min_def)
  qed
qed

end
