(* ===== verification/Trie.thy ===== *)
theory Trie
  imports Subscriptions
begin

text \<open>
  The subscription trie of the router (\<^verbatim>\<open>crates/broker-router/src/lib.rs\<close>): insertion and removal with
  path copying, the probes, and the match walk. A hash map is an association list and a hash set a
  list, both without duplicates (an invariant below); their iteration order is the order of the
  list, and every statement holds for all orders. Shared \<open>Arc\<close> pointers are the values they point to:
  path copying makes an update a function from the old snapshot to a new one.
\<close>

section \<open>The trie and its operations\<close>

datatype trie = TrieNode
  (children: "(string \<times> trie) list")
  (single_wildcard: "trie option")
  (multi_wildcard_subs: "subscription list")
  (exact_subs: "subscription list")

definition empty_node :: trie where
  "empty_node = TrieNode [] None [] []"

text \<open>\<open>remove\<close> followed by \<open>insert\<close> of a hash map.\<close>

definition put_child :: "string \<Rightarrow> trie \<Rightarrow> (string \<times> trie) list \<Rightarrow> (string \<times> trie) list" where
  "put_child level child cs = (level, child) # AList.delete level cs"

definition owned_by :: "string \<Rightarrow> string \<Rightarrow> subscription \<Rightarrow> bool" where
  "owned_by client_id tenant s \<longleftrightarrow> sub_client_id s = client_id \<and> sub_tenant s = tenant"

text \<open>\<open>any\<close>, then \<open>retain\<close>, then \<open>insert\<close>: the new set and whether the entry existed.\<close>

definition replace_sub :: "subscription list \<Rightarrow> subscription \<Rightarrow> subscription list \<times> bool" where
  "replace_sub subs sub =
     (let mine = owned_by (sub_client_id sub) (sub_tenant sub) in
      (sub # filter (\<lambda>s. \<not> mine s) subs, \<exists>s\<in>set subs. mine s))"

definition insert_exact :: "trie \<Rightarrow> subscription \<Rightarrow> trie \<times> bool" where
  "insert_exact child sub =
     (case child of TrieNode cs sw mw ex \<Rightarrow>
        let (ex', existed) = replace_sub ex sub in (TrieNode cs sw mw ex', \<not> existed))"

text \<open>The levels are the ones from the position on; splitting a filter always gives at least one.\<close>

fun insert_owned :: "trie \<Rightarrow> string list \<Rightarrow> subscription \<Rightarrow> trie \<times> bool" where
  "insert_owned node [] sub = (node, False)"
| "insert_owned (TrieNode cs sw mw ex) (level # rest) sub =
    (if level = ''#'' then
       let (mw', existed) = replace_sub mw sub in (TrieNode cs sw mw' ex, \<not> existed)
     else if level = ''+'' then
       let child = (case sw of Some child \<Rightarrow> child | None \<Rightarrow> empty_node);
           (next_child, added) =
             (if rest = [] then insert_exact child sub else insert_owned child rest sub) in
       (TrieNode cs (Some next_child) mw ex, added)
     else
       let child = (case map_of cs level of Some child \<Rightarrow> child | None \<Rightarrow> empty_node);
           (next_child, added) =
             (if rest = [] then insert_exact child sub else insert_owned child rest sub) in
       (TrieNode (put_child level next_child cs) sw mw ex, added))"

fun terminal_contains :: "trie \<Rightarrow> string list \<Rightarrow> string \<Rightarrow> string \<Rightarrow> bool" where
  "terminal_contains node [] client_id tenant = False"
| "terminal_contains (TrieNode cs sw mw ex) (level # rest) client_id tenant =
    (if level = ''#'' then list_ex (owned_by client_id tenant) mw
     else
       case (if level = ''+'' then sw else map_of cs level) of
         None \<Rightarrow> False
       | Some child \<Rightarrow>
           if rest = [] then list_ex (owned_by client_id tenant) (exact_subs child)
           else terminal_contains child rest client_id tenant)"

fun path_exists :: "trie \<Rightarrow> string list \<Rightarrow> bool" where
  "path_exists node [] = True"
| "path_exists (TrieNode cs sw mw ex) (level # rest) =
    (if level = ''#'' then True
     else
       case (if level = ''+'' then sw else map_of cs level) of
         None \<Rightarrow> False
       | Some child \<Rightarrow> path_exists child rest)"

definition is_empty_node :: "trie \<Rightarrow> bool" where
  "is_empty_node node \<longleftrightarrow>
     exact_subs node = [] \<and> multi_wildcard_subs node = [] \<and> children node = [] \<and>
     single_wildcard node = None"

definition retain_other :: "string \<Rightarrow> string \<Rightarrow> subscription list \<Rightarrow> subscription list" where
  "retain_other client_id tenant subs = filter (\<lambda>s. \<not> owned_by client_id tenant s) subs"

definition remove_exact :: "trie \<Rightarrow> string \<Rightarrow> string \<Rightarrow> trie \<times> bool" where
  "remove_exact child client_id tenant =
     (case child of TrieNode cs sw mw ex \<Rightarrow>
        let ex' = retain_other client_id tenant ex in
        (TrieNode cs sw mw ex', length ex' \<noteq> length ex))"

fun remove_owned :: "trie \<Rightarrow> string list \<Rightarrow> string \<Rightarrow> string \<Rightarrow> trie \<times> bool" where
  "remove_owned node [] client_id tenant = (node, False)"
| "remove_owned (TrieNode cs sw mw ex) (level # rest) client_id tenant =
    (if level = ''#'' then
       let mw' = retain_other client_id tenant mw in
       (TrieNode cs sw mw' ex, length mw' \<noteq> length mw)
     else if level = ''+'' then
       (case sw of
          None \<Rightarrow> (TrieNode cs sw mw ex, False)
        | Some child \<Rightarrow>
            let (next_child, changed) =
                  (if rest = [] then remove_exact child client_id tenant
                   else remove_owned child rest client_id tenant) in
            if \<not> changed then (TrieNode cs (Some next_child) mw ex, False)
            else (TrieNode cs (if is_empty_node next_child then None else Some next_child) mw ex, True))
     else
       (case map_of cs level of
          None \<Rightarrow> (TrieNode cs sw mw ex, False)
        | Some child \<Rightarrow>
            let (next_child, changed) =
                  (if rest = [] then remove_exact child client_id tenant
                   else remove_owned child rest client_id tenant) in
            if \<not> changed then (TrieNode (put_child level next_child cs) sw mw ex, False)
            else (TrieNode (if is_empty_node next_child then AList.delete level cs
                            else put_child level next_child cs) sw mw ex, True)))"

text \<open>\<open>extend\<close> of a hash set.\<close>

definition extend :: "'a list \<Rightarrow> 'a list \<Rightarrow> 'a list" where
  "extend matched subs = fold List.insert subs matched"

definition extend_opt :: "(trie \<Rightarrow> 'b \<Rightarrow> 'b) \<Rightarrow> trie option \<Rightarrow> 'b \<Rightarrow> 'b" where
  "extend_opt f child matched = (case child of None \<Rightarrow> matched | Some c \<Rightarrow> f c matched)"

lemma extend_opt_cong [fundef_cong]:
  "child = child' \<Longrightarrow> m = m' \<Longrightarrow> (\<And>c. child' = Some c \<Longrightarrow> f c m' = g c m') \<Longrightarrow>
   extend_opt f child m = extend_opt g child' m'"
  by (cases child') (simp_all add: extend_opt_def)

definition extend_terminal :: "trie \<Rightarrow> subscription list \<Rightarrow> subscription list" where
  "extend_terminal child matched =
     extend (extend matched (multi_wildcard_subs child)) (exact_subs child)"

lemma split_once_length: "split_once c s = Some (h, t) \<Longrightarrow> length t < length s"
  by (auto simp: split_once_Some)

function match_recursive :: "trie \<Rightarrow> string \<Rightarrow> subscription list \<Rightarrow> subscription list" where
  "match_recursive node topic matched =
     (let matched = extend matched (multi_wildcard_subs node) in
      case split_once (CHR ''/'') topic of
        Some (head, tail) \<Rightarrow>
          let matched = extend_opt (\<lambda>child. match_recursive child tail) (map_of (children node) head) matched in
          extend_opt (\<lambda>child. match_recursive child tail) (single_wildcard node) matched
      | None \<Rightarrow>
          let matched = extend_opt extend_terminal (map_of (children node) topic) matched in
          extend_opt extend_terminal (single_wildcard node) matched)"
  by pat_completeness auto

termination match_recursive
  by (relation "measure (\<lambda>(_, topic, _). length topic)") (auto dest: split_once_length)

declare match_recursive.simps [simp del]

text \<open>The tenant-scoped walk: the set so far and the number of entries of other tenants.\<close>

definition collect_in_tenant ::
  "string \<Rightarrow> subscription list \<Rightarrow> subscription list \<times> u64 \<Rightarrow> subscription list \<times> u64" where
  "collect_in_tenant tenant subs acc =
     fold (\<lambda>sub (matched, skipped).
       if sub_tenant sub = tenant then (List.insert sub matched, skipped)
       else (matched, skipped + 1)) subs acc"

definition collect_terminal :: "string \<Rightarrow> trie \<Rightarrow> subscription list \<times> u64 \<Rightarrow> subscription list \<times> u64" where
  "collect_terminal tenant child acc =
     collect_in_tenant tenant (exact_subs child)
       (collect_in_tenant tenant (multi_wildcard_subs child) acc)"

function match_recursive_in_tenant ::
  "trie \<Rightarrow> string \<Rightarrow> string \<Rightarrow> subscription list \<times> u64 \<Rightarrow> subscription list \<times> u64" where
  "match_recursive_in_tenant node topic tenant acc =
     (let acc = collect_in_tenant tenant (multi_wildcard_subs node) acc in
      case split_once (CHR ''/'') topic of
        Some (head, tail) \<Rightarrow>
          let acc = extend_opt (\<lambda>child. match_recursive_in_tenant child tail tenant)
                      (map_of (children node) head) acc in
          extend_opt (\<lambda>child. match_recursive_in_tenant child tail tenant) (single_wildcard node) acc
      | None \<Rightarrow>
          let acc = extend_opt (collect_terminal tenant) (map_of (children node) topic) acc in
          extend_opt (collect_terminal tenant) (single_wildcard node) acc)"
  by pat_completeness auto

termination match_recursive_in_tenant
  by (relation "measure (\<lambda>(_, topic, _, _). length topic)") (auto dest: split_once_length)

declare match_recursive_in_tenant.simps [simp del]

section \<open>The table that a trie stands for\<close>

text \<open>The subscriptions stored under the levels of a filter.\<close>

fun subs_at :: "trie \<Rightarrow> string list \<Rightarrow> subscription list" where
  "subs_at node [] = exact_subs node"
| "subs_at (TrieNode cs sw mw ex) (level # rest) =
    (if level = ''#'' then mw
     else case (if level = ''+'' then sw else map_of cs level) of
       None \<Rightarrow> []
     | Some child \<Rightarrow> subs_at child rest)"

text \<open>Filters that validation accepts have \<open>#\<close> at most as the last level.\<close>

definition hash_last :: "string list \<Rightarrow> bool" where
  "hash_last ls \<longleftrightarrow> ''#'' \<notin> set (butlast ls)"

lemma hash_last_simps [simp]:
  "hash_last []" "hash_last (''#'' # ls) \<longleftrightarrow> ls = []" "l \<noteq> ''#'' \<Longrightarrow> hash_last (l # ls) \<longleftrightarrow> hash_last ls"
  by (auto simp: hash_last_def)

definition insert_at :: "trie \<Rightarrow> string list \<Rightarrow> subscription \<Rightarrow> trie \<times> bool" where
  "insert_at t ls sub = (if ls = [] then insert_exact t sub else insert_owned t ls sub)"

definition remove_at :: "trie \<Rightarrow> string list \<Rightarrow> string \<Rightarrow> string \<Rightarrow> trie \<times> bool" where
  "remove_at t ls c n = (if ls = [] then remove_exact t c n else remove_owned t ls c n)"

lemma insert_at_Nil [simp]: "insert_at t [] sub = insert_exact t sub"
  by (simp add: insert_at_def)

lemma insert_at_Cons [simp]:
  "insert_at (TrieNode cs sw mw ex) (level # rest) sub =
    (if level = ''#'' then
       let (mw', existed) = replace_sub mw sub in (TrieNode cs sw mw' ex, \<not> existed)
     else if level = ''+'' then
       let (c, added) = insert_at (case sw of Some child \<Rightarrow> child | None \<Rightarrow> empty_node) rest sub in
       (TrieNode cs (Some c) mw ex, added)
     else
       let (c, added) = insert_at (case map_of cs level of Some child \<Rightarrow> child | None \<Rightarrow> empty_node) rest sub in
       (TrieNode (put_child level c cs) sw mw ex, added))"
  by (simp add: insert_at_def Let_def)

lemma remove_at_Nil [simp]: "remove_at t [] c n = remove_exact t c n"
  by (simp add: remove_at_def)

lemma remove_at_Cons [simp]:
  "remove_at (TrieNode cs sw mw ex) (level # rest) c n =
    (if level = ''#'' then
       (TrieNode cs sw (retain_other c n mw) ex, length (retain_other c n mw) \<noteq> length mw)
     else if level = ''+'' then
       (case sw of
          None \<Rightarrow> (TrieNode cs sw mw ex, False)
        | Some child \<Rightarrow>
            let (next_child, changed) = remove_at child rest c n in
            if \<not> changed then (TrieNode cs (Some next_child) mw ex, False)
            else (TrieNode cs (if is_empty_node next_child then None else Some next_child) mw ex, True))
     else
       (case map_of cs level of
          None \<Rightarrow> (TrieNode cs sw mw ex, False)
        | Some child \<Rightarrow>
            let (next_child, changed) = remove_at child rest c n in
            if \<not> changed then (TrieNode (put_child level next_child cs) sw mw ex, False)
            else (TrieNode (if is_empty_node next_child then AList.delete level cs
                            else put_child level next_child cs) sw mw ex, True)))"
  by (simp add: remove_at_def Let_def split: option.split)

lemma subs_at_empty_node [simp]: "subs_at empty_node ls = []"
  by (cases ls) (simp_all add: empty_node_def)

lemma subs_at_is_empty_node: "is_empty_node t \<Longrightarrow> subs_at t ls = []"
  by (cases t; cases ls) (simp_all add: is_empty_node_def)

lemma map_of_put_child [simp]: "map_of (put_child level c cs) k = (if k = level then Some c else map_of cs k)"
  by (simp add: put_child_def delete_conv)

lemma map_of_delete_child [simp]: "map_of (AList.delete level cs) k = (if k = level then None else map_of cs k)"
  by (simp add: delete_conv)

lemma subs_at_insert_exact:
  "subs_at (fst (insert_exact t sub)) gl = (if gl = [] then fst (replace_sub (exact_subs t) sub) else subs_at t gl)"
  "snd (insert_exact t sub) = (\<not> snd (replace_sub (exact_subs t) sub))"
  by (cases t; cases gl; auto simp: insert_exact_def split: prod.split)+

lemma subs_at_insert:
  "hash_last fl \<Longrightarrow> hash_last gl \<Longrightarrow> subs_at (fst (insert_at t fl sub)) gl =
    (if gl = fl then fst (replace_sub (subs_at t fl) sub) else subs_at t gl)"
proof (induction fl arbitrary: t gl)
  case Nil
  then show ?case by (simp add: subs_at_insert_exact)
next
  case (Cons level rest)
  obtain cs sw mw ex where t: "t = TrieNode cs sw mw ex" by (cases t)
  show ?case
  proof (cases gl)
    case Nil
    then show ?thesis by (auto simp: t split: prod.split option.split)
  next
    case (Cons l ls)
    show ?thesis
    proof (cases "level = ''#''")
      case True
      then show ?thesis using Cons.prems Cons by (auto simp: t split: prod.split option.split)
    next
      case False
      define c where "c = (case (if level = ''+'' then sw else map_of cs level) of None \<Rightarrow> empty_node | Some c \<Rightarrow> c)"
      obtain c' b where c': "insert_at c rest sub = (c', b)" by (cases "insert_at c rest sub")
      have IH: "subs_at c' ls = (if ls = rest then fst (replace_sub (subs_at c rest) sub) else subs_at c ls)"
        if "l = level"
        using Cons.IH [of ls c] Cons.prems Cons False that c' by simp
      show ?thesis
        using False IH c' by (auto simp: t Cons c_def split: option.splits)
    qed
  qed
qed

lemma insert_at_added:
  "hash_last fl \<Longrightarrow> snd (insert_at t fl sub) = (\<not> snd (replace_sub (subs_at t fl) sub))"
proof (induction fl arbitrary: t)
  case Nil
  then show ?case by (simp add: subs_at_insert_exact)
next
  case (Cons level rest)
  obtain cs sw mw ex where t: "t = TrieNode cs sw mw ex" by (cases t)
  show ?case
  proof (cases "level = ''#''")
    case True
    then show ?thesis using Cons by (auto simp: t Let_def split: prod.split)
  next
    case False
    define c where "c = (case (if level = ''+'' then sw else map_of cs level) of None \<Rightarrow> empty_node | Some c \<Rightarrow> c)"
    obtain c' b where c': "insert_at c rest sub = (c', b)" by (cases "insert_at c rest sub")
    have "b = (\<not> snd (replace_sub (subs_at c rest) sub))"
      using Cons False c' by (metis hash_last_simps(3) snd_conv)
    then show ?thesis using False c' by (auto simp: t c_def split: option.splits)
  qed
qed

lemma retain_other_changed:
  "length (retain_other c n subs) \<noteq> length subs \<longleftrightarrow> list_ex (owned_by c n) subs"
proof -
  have "length (filter P subs) = length subs \<longleftrightarrow> (\<forall>x\<in>set subs. P x)" for P
    using length_filter_less [of _ subs P] by (metis filter_True less_irrefl)
  then show ?thesis by (auto simp: retain_other_def list_ex_iff)
qed

lemma subs_at_remove_exact:
  "subs_at (fst (remove_exact t c n)) gl = (if gl = [] then retain_other c n (exact_subs t) else subs_at t gl)"
  "snd (remove_exact t c n) = list_ex (owned_by c n) (exact_subs t)"
  by (cases t; cases gl; simp add: remove_exact_def Let_def retain_other_changed)+

lemma remove_at_changed:
  "hash_last fl \<Longrightarrow> snd (remove_at t fl c n) = list_ex (owned_by c n) (subs_at t fl)"
proof (induction fl arbitrary: t)
  case Nil
  then show ?case by (simp add: subs_at_remove_exact)
next
  case (Cons level rest)
  obtain cs sw mw ex where t: "t = TrieNode cs sw mw ex" by (cases t)
  have IH: "level \<noteq> ''#'' \<Longrightarrow> snd (remove_at d rest c n) = list_ex (owned_by c n) (subs_at d rest)" for d
    using Cons by simp
  show ?case
    using IH by (auto simp: t retain_other_changed Let_def case_prod_unfold split: option.split)
qed

lemma subs_at_remove:
  "hash_last fl \<Longrightarrow> hash_last gl \<Longrightarrow> subs_at (fst (remove_at t fl c n)) gl =
    (if gl = fl then retain_other c n (subs_at t fl) else subs_at t gl)"
proof (induction fl arbitrary: t gl)
  case Nil
  then show ?case by (simp add: subs_at_remove_exact)
next
  case (Cons level rest)
  obtain cs sw mw ex where t: "t = TrieNode cs sw mw ex" by (cases t)
  show ?case
  proof (cases gl)
    case Nil
    then show ?thesis by (auto simp: t Let_def case_prod_unfold split: option.split)
  next
    case (Cons l ls)
    have IH: "subs_at (fst (remove_at d rest c n)) ls = (if ls = rest then retain_other c n (subs_at d rest) else subs_at d ls)"
      if "l = level" "level \<noteq> ''#''" for d
      using Cons.IH [of ls d] Cons.prems Cons that by simp
    have empty: "(if ls = rest then retain_other c n (subs_at d rest) else subs_at d ls) = []"
      if "is_empty_node (fst (remove_at d rest c n))" "l = level" "level \<noteq> ''#''" for d
      using IH [OF that(2,3), of d] subs_at_is_empty_node [OF that(1)] by simp
    show ?thesis
    proof (cases "level = ''#''")
      case True
      then show ?thesis using Cons.prems Cons by (auto simp: t split: option.split)
    next
      case False
      show ?thesis
        using False IH [OF _ False] empty [OF _ _ False]
        by (auto simp: t Cons Let_def case_prod_unfold retain_other_def split: option.split)
    qed
  qed
qed
lemma terminal_contains_subs_at:
  "fl \<noteq> [] \<Longrightarrow> hash_last fl \<Longrightarrow> terminal_contains t fl c n = list_ex (owned_by c n) (subs_at t fl)"
proof (induction t fl c n rule: terminal_contains.induct)
  case (2 cs sw mw ex level rest c n)
  then show ?case by (cases "rest = []") (auto split: option.split)
qed simp

lemma terminal_contains_path: "terminal_contains t fl c n \<Longrightarrow> path_exists t fl"
proof (induction t fl c n rule: terminal_contains.induct)
  case (2 cs sw mw ex level rest c n)
  then show ?case by (auto split: option.splits if_splits)
qed simp

section \<open>Structural invariant\<close>

definition owners :: "subscription list \<Rightarrow> (string \<times> string) list" where
  "owners subs = map (\<lambda>s. (sub_client_id s, sub_tenant s)) subs"

text \<open>
  Distinct keys that are not wildcards, one entry per client and tenant in each set, and no dead
  branch: every node below the root leads to a subscription.
\<close>

inductive trie_inv :: "trie \<Rightarrow> bool" where
  "distinct (map fst cs) \<Longrightarrow>
   (\<forall>(k, c)\<in>set cs. k \<noteq> ''#'' \<and> k \<noteq> ''+'' \<and> trie_inv c \<and> \<not> is_empty_node c) \<Longrightarrow>
   (\<forall>c. sw = Some c \<longrightarrow> trie_inv c \<and> \<not> is_empty_node c) \<Longrightarrow>
   distinct (owners mw) \<Longrightarrow> distinct (owners ex) \<Longrightarrow> trie_inv (TrieNode cs sw mw ex)"

inductive_simps trie_inv_node: "trie_inv (TrieNode cs sw mw ex)"

lemma trie_inv_empty [simp]: "trie_inv empty_node"
  by (simp add: empty_node_def trie_inv_node owners_def)

lemma trie_inv_child:
  assumes "trie_inv (TrieNode cs sw mw ex)"
  shows "trie_inv (case (if level = ''+'' then sw else map_of cs level) of None \<Rightarrow> empty_node | Some c \<Rightarrow> c)"
  using assms by (auto simp: trie_inv_node split: option.split dest: map_of_SomeD)

lemma distinct_owners_replace:
  "distinct (owners subs) \<Longrightarrow> distinct (owners (fst (replace_sub subs sub)))"
  by (auto simp: owners_def replace_sub_def owned_by_def Let_def distinct_map inj_on_def)

lemma distinct_owners_retain: "distinct (owners subs) \<Longrightarrow> distinct (owners (retain_other c n subs))"
  by (auto simp: owners_def retain_other_def distinct_map inj_on_def)

lemma replace_sub_not_Nil [simp]: "fst (replace_sub subs sub) \<noteq> []"
  by (simp add: replace_sub_def Let_def)

lemma set_put_child: "set (put_child l c cs) = insert (l, c) (set (AList.delete l cs))"
  by (simp add: put_child_def)

lemma set_delete_child: "(k, c) \<in> set (AList.delete l cs) \<longleftrightarrow> k \<noteq> l \<and> (k, c) \<in> set cs"
  by (auto simp: AList.delete_eq)

lemma distinct_put_child: "distinct (map fst cs) \<Longrightarrow> distinct (map fst (put_child l c cs))"
  by (auto simp: put_child_def distinct_delete set_delete_child)

lemma insert_at_not_empty: "hash_last fl \<Longrightarrow> \<not> is_empty_node (fst (insert_at t fl sub))"
proof -
  assume h: "hash_last fl"
  have "subs_at (fst (insert_at t fl sub)) fl \<noteq> []" using subs_at_insert [OF h h] by simp
  then show ?thesis using subs_at_is_empty_node by blast
qed

lemma trie_inv_insert: "trie_inv t \<Longrightarrow> hash_last fl \<Longrightarrow> trie_inv (fst (insert_at t fl sub))"
proof (induction fl arbitrary: t)
  case Nil
  then show ?case
    by (cases t) (auto simp: insert_exact_def trie_inv_node Let_def case_prod_unfold intro: distinct_owners_replace)
next
  case (Cons level rest)
  obtain cs sw mw ex where t: "t = TrieNode cs sw mw ex" by (cases t)
  show ?case
  proof (cases "level = ''#''")
    case True
    then show ?thesis
      using Cons.prems by (auto simp: t trie_inv_node case_prod_unfold Let_def intro: distinct_owners_replace)
  next
    case False
    define c where "c = (case (if level = ''+'' then sw else map_of cs level) of None \<Rightarrow> empty_node | Some c \<Rightarrow> c)"
    have "hash_last rest" using Cons.prems False by simp
    moreover have "trie_inv c" using trie_inv_child Cons.prems(1) unfolding c_def t by blast
    ultimately have c': "trie_inv (fst (insert_at c rest sub))" "\<not> is_empty_node (fst (insert_at c rest sub))"
      using Cons.IH insert_at_not_empty by blast+
    have "fst (insert_at t (level # rest) sub) =
        (if level = ''+'' then TrieNode cs (Some (fst (insert_at c rest sub))) mw ex
         else TrieNode (put_child level (fst (insert_at c rest sub)) cs) sw mw ex)"
      using False by (simp add: t c_def case_prod_unfold Let_def)
    then show ?thesis
      using c' Cons.prems(1) False
      by (auto simp: t trie_inv_node set_put_child set_delete_child distinct_put_child)
  qed
qed

lemma remove_at_unchanged:
  assumes "hash_last fl" "\<not> snd (remove_at t fl c n)"
  shows "is_empty_node (fst (remove_at t fl c n)) \<longleftrightarrow> is_empty_node t"
proof -
  obtain cs sw mw ex where t: "t = TrieNode cs sw mw ex" by (cases t)
  show ?thesis
    using assms(2)
    by (cases fl) (auto simp: t remove_exact_def Let_def is_empty_node_def put_child_def retain_other_def
        case_prod_unfold split: option.splits if_splits)
qed

lemma trie_inv_remove: "trie_inv t \<Longrightarrow> hash_last fl \<Longrightarrow> trie_inv (fst (remove_at t fl c n))"
proof (induction fl arbitrary: t)
  case Nil
  then show ?case
    by (cases t) (auto simp: remove_exact_def trie_inv_node Let_def intro: distinct_owners_retain)
next
  case (Cons level rest)
  obtain cs sw mw ex where t: "t = TrieNode cs sw mw ex" by (cases t)
  show ?case
  proof (cases "level = ''#''")
    case True
    then show ?thesis
      using Cons.prems by (auto simp: t trie_inv_node intro: distinct_owners_retain)
  next
    case False
    have r: "hash_last rest" using Cons.prems False by simp
    have IH: "trie_inv (fst (remove_at d rest c n))" if "trie_inv d" for d
      using Cons.IH [OF that r] .
    have ne: "\<not> is_empty_node (fst (remove_at d rest c n))" if "\<not> is_empty_node d" "\<not> snd (remove_at d rest c n)" for d
      using remove_at_unchanged [OF r that(2)] that(1) by simp
    show ?thesis
      using Cons.prems(1) False IH ne
      by (auto simp: t trie_inv_node set_put_child set_delete_child distinct_put_child Let_def
          case_prod_unfold distinct_delete split: option.split dest!: map_of_SomeD)
  qed
qed

section \<open>The match walk\<close>

text \<open>The subscriptions of all stored filters that match the levels of a topic.\<close>

definition matching :: "trie \<Rightarrow> string list \<Rightarrow> subscription set" where
  "matching t ls = {s. \<exists>fl. fl \<noteq> [] \<and> hash_last fl \<and> levels_match fl ls \<and> s \<in> set (subs_at t fl)}"

definition matching_opt :: "trie option \<Rightarrow> string list \<Rightarrow> subscription set" where
  "matching_opt t ls = (case t of None \<Rightarrow> {} | Some c \<Rightarrow> matching c ls)"

definition terminal_opt :: "trie option \<Rightarrow> subscription set" where
  "terminal_opt t = (case t of None \<Rightarrow> {} | Some c \<Rightarrow> set (multi_wildcard_subs c) \<union> set (exact_subs c))"

lemma trie_inv_reserved:
  "trie_inv (TrieNode cs sw mw ex) \<Longrightarrow> map_of cs ''#'' = None \<and> map_of cs ''+'' = None"
  by (auto simp: trie_inv_node map_of_eq_None_iff)

lemma subs_at_Cons:
  "subs_at t (l # ls) = (if l = ''#'' then multi_wildcard_subs t
     else case (if l = ''+'' then single_wildcard t else map_of (children t) l) of
       None \<Rightarrow> [] | Some c \<Rightarrow> subs_at c ls)"
  by (cases t) simp

lemma matching_step:
  assumes "trie_inv t" and "ls \<noteq> []"
  shows "matching t (l # ls) = set (multi_wildcard_subs t) \<union> matching_opt (map_of (children t) l) ls \<union>
    matching_opt (single_wildcard t) ls"
proof (intro equalityI subsetI)
  fix s assume "s \<in> matching t (l # ls)"
  then obtain f fl where f: "hash_last (f # fl)" "levels_match (f # fl) (l # ls)" "s \<in> set (subs_at t (f # fl))"
    by (auto simp: matching_def neq_Nil_conv)
  have "fl \<noteq> []" if "f \<noteq> ''#''" using f(2) that assms(2) by auto
  with f show "s \<in> set (multi_wildcard_subs t) \<union> matching_opt (map_of (children t) l) ls \<union>
      matching_opt (single_wildcard t) ls"
    by (auto simp: subs_at_Cons matching_def matching_opt_def level_ok_def split: if_splits option.splits)
next
  have res: "map_of (children t) ''#'' = None" "map_of (children t) ''+'' = None"
    using trie_inv_reserved [of "children t" "single_wildcard t"] assms(1) by (cases t; auto)+
  fix s assume "s \<in> set (multi_wildcard_subs t) \<union> matching_opt (map_of (children t) l) ls \<union>
      matching_opt (single_wildcard t) ls"
  then consider "s \<in> set (multi_wildcard_subs t)"
    | c fl where "map_of (children t) l = Some c" "hash_last fl" "levels_match fl ls" "s \<in> set (subs_at c fl)"
    | c fl where "single_wildcard t = Some c" "hash_last fl" "levels_match fl ls" "s \<in> set (subs_at c fl)"
    by (auto simp: matching_opt_def matching_def split: option.splits)
  then show "s \<in> matching t (l # ls)"
  proof cases
    case 1
    then show ?thesis unfolding matching_def by (intro CollectI exI [of _ "[''#'']"]) (simp add: subs_at_Cons)
  next
    case (2 c fl)
    then have "l \<noteq> ''#''" "l \<noteq> ''+''" using res by auto
    with 2 show ?thesis
      unfolding matching_def by (intro CollectI exI [of _ "l # fl"]) (simp add: subs_at_Cons level_ok_def)
  next
    case (3 c fl)
    then show ?thesis
      unfolding matching_def by (intro CollectI exI [of _ "''+'' # fl"]) (simp add: subs_at_Cons level_ok_def)
  qed
qed

lemma levels_match_Nil: "hash_last fl \<Longrightarrow> levels_match fl [] \<longleftrightarrow> fl = [] \<or> fl = [''#'']"
  by (cases fl) auto

lemma matching_last:
  assumes "trie_inv t"
  shows "matching t [l] = set (multi_wildcard_subs t) \<union> terminal_opt (map_of (children t) l) \<union>
    terminal_opt (single_wildcard t)"
proof (intro equalityI subsetI)
  fix s assume "s \<in> matching t [l]"
  then obtain f fl where f: "hash_last (f # fl)" "levels_match (f # fl) [l]" "s \<in> set (subs_at t (f # fl))"
    by (auto simp: matching_def neq_Nil_conv)
  then have "f = ''#'' \<or> (level_ok f l \<and> (fl = [] \<or> fl = [''#'']))"
    using levels_match_Nil [of fl] by auto
  with f show "s \<in> set (multi_wildcard_subs t) \<union> terminal_opt (map_of (children t) l) \<union>
      terminal_opt (single_wildcard t)"
    by (auto simp: subs_at_Cons terminal_opt_def level_ok_def split: if_splits option.splits)
next
  have res: "map_of (children t) ''#'' = None" "map_of (children t) ''+'' = None"
    using trie_inv_reserved [of "children t" "single_wildcard t"] assms(1) by (cases t; auto)+
  fix s assume "s \<in> set (multi_wildcard_subs t) \<union> terminal_opt (map_of (children t) l) \<union>
      terminal_opt (single_wildcard t)"
  then consider "s \<in> set (multi_wildcard_subs t)"
    | c fl where "map_of (children t) l = Some c" "fl = [] \<or> fl = [''#'']" "s \<in> set (subs_at c fl)"
    | c fl where "single_wildcard t = Some c" "fl = [] \<or> fl = [''#'']" "s \<in> set (subs_at c fl)"
    by (fastforce simp: terminal_opt_def subs_at_Cons split: option.splits)
  then show "s \<in> matching t [l]"
  proof cases
    case 1
    then show ?thesis unfolding matching_def by (intro CollectI exI [of _ "[''#'']"]) (simp add: subs_at_Cons)
  next
    case (2 c fl)
    then have "l \<noteq> ''#''" "l \<noteq> ''+''" using res by auto
    with 2 show ?thesis
      unfolding matching_def by (intro CollectI exI [of _ "l # fl"]) (auto simp: subs_at_Cons level_ok_def)
  next
    case (3 c fl)
    then show ?thesis
      unfolding matching_def by (intro CollectI exI [of _ "''+'' # fl"]) (auto simp: subs_at_Cons level_ok_def)
  qed
qed

lemma set_extend [simp]: "set (extend matched subs) = set matched \<union> set subs"
  unfolding extend_def by (induction subs arbitrary: matched) auto

lemma distinct_extend: "distinct matched \<Longrightarrow> distinct (extend matched subs)"
  unfolding extend_def by (induction subs arbitrary: matched) auto

lemma levels_split_once:
  "levels topic = (case split_once (CHR ''/'') topic of None \<Rightarrow> [topic] | Some (h, t) \<Rightarrow> h # levels t)"
  by (rule split_on_split_once)

lemma trie_inv_children:
  "trie_inv t \<Longrightarrow> map_of (children t) l = Some c \<Longrightarrow> trie_inv c"
  "trie_inv t \<Longrightarrow> single_wildcard t = Some c \<Longrightarrow> trie_inv c"
  by (cases t; auto simp: trie_inv_node dest: map_of_SomeD)+

lemma match_recursive_matching:
  "trie_inv t \<Longrightarrow> set (match_recursive t topic matched) = set matched \<union> matching t (levels topic)"
proof (induction t topic matched rule: match_recursive.induct)
  case (1 t topic matched)
  show ?case
  proof (cases "split_once (CHR ''/'') topic")
    case None
    then have "levels topic = [topic]" by (simp add: levels_split_once)
    with None show ?thesis
      using matching_last [OF "1.prems"]
      by (subst match_recursive.simps)
        (auto simp: extend_opt_def extend_terminal_def terminal_opt_def split: option.splits)
  next
    case (Some ht)
    obtain h r where ht: "ht = (h, r)" by (cases ht)
    let ?m = "extend matched (multi_wildcard_subs t)"
    let ?m2 = "extend_opt (\<lambda>child. match_recursive child r) (map_of (children t) h) ?m"
    have lv: "levels topic = h # levels r" using Some ht levels_split_once [of topic] by simp
    have m2: "set ?m2 = set ?m \<union> matching_opt (map_of (children t) h) (levels r)"
      using "1.IH"(1) [OF refl Some ht [symmetric]] trie_inv_children [OF "1.prems"]
      by (auto simp: extend_opt_def matching_opt_def split: option.splits)
    have "set (extend_opt (\<lambda>child. match_recursive child r) (single_wildcard t) ?m2) =
        set ?m2 \<union> matching_opt (single_wildcard t) (levels r)"
      using "1.IH"(2) [OF refl Some ht [symmetric] refl] trie_inv_children [OF "1.prems"]
      by (auto simp: extend_opt_def matching_opt_def split: option.splits)
    with m2 show ?thesis
      using matching_step [OF "1.prems", of "levels r" h] Some ht
      by (subst match_recursive.simps) (auto simp: lv Let_def)
  qed
qed

lemma distinct_match_recursive: "distinct matched \<Longrightarrow> distinct (match_recursive t topic matched)"
proof (induction t topic matched rule: match_recursive.induct)
  case (1 t topic matched)
  have m: "distinct (extend matched (multi_wildcard_subs t))" using "1.prems" by (rule distinct_extend)
  show ?case
  proof (cases "split_once (CHR ''/'') topic")
    case None
    then show ?thesis
      using m by (subst match_recursive.simps)
        (auto simp: Let_def extend_opt_def extend_terminal_def intro!: distinct_extend split: option.splits)
  next
    case (Some ht)
    obtain h r where ht: "(h, r) = ht" by (cases ht) auto
    let ?m = "extend matched (multi_wildcard_subs t)"
    let ?m2 = "extend_opt (\<lambda>child. match_recursive child r) (map_of (children t) h) ?m"
    have "distinct ?m2"
      using "1.IH"(1) [OF refl Some ht _ m] m by (auto simp: extend_opt_def split: option.splits)
    then have "distinct (extend_opt (\<lambda>child. match_recursive child r) (single_wildcard t) ?m2)"
      using "1.IH"(2) [OF refl Some ht refl] by (auto simp: extend_opt_def split: option.splits)
    then show ?thesis
      using Some ht by (subst match_recursive.simps) (auto simp: Let_def)
  qed
qed

lemma collect_in_tenant_fst:
  "set (fst (collect_in_tenant tn subs acc)) = set (fst acc) \<union> {s \<in> set subs. sub_tenant s = tn}"
  unfolding collect_in_tenant_def by (induction subs arbitrary: acc) (auto simp: case_prod_unfold)

lemma match_in_tenant_matching:
  "trie_inv t \<Longrightarrow> set (fst (match_recursive_in_tenant t topic tn acc)) =
     set (fst acc) \<union> {s \<in> matching t (levels topic). sub_tenant s = tn}"
proof (induction t topic tn acc rule: match_recursive_in_tenant.induct)
  case (1 t topic tn acc)
  show ?case
  proof (cases "split_once (CHR ''/'') topic")
    case None
    then have "levels topic = [topic]" by (simp add: levels_split_once)
    with None show ?thesis
      using matching_last [OF "1.prems"]
      by (subst match_recursive_in_tenant.simps)
        (auto simp: extend_opt_def collect_terminal_def terminal_opt_def collect_in_tenant_fst split: option.splits)
  next
    case (Some ht)
    obtain h r where ht: "(h, r) = ht" by (cases ht) auto
    let ?m = "collect_in_tenant tn (multi_wildcard_subs t) acc"
    let ?m2 = "extend_opt (\<lambda>child. match_recursive_in_tenant child r tn) (map_of (children t) h) ?m"
    have lv: "levels topic = h # levels r" using Some ht levels_split_once [of topic] by auto
    have m2: "set (fst ?m2) = set (fst ?m) \<union> {s \<in> matching_opt (map_of (children t) h) (levels r). sub_tenant s = tn}"
      using "1.IH"(1) [OF refl Some ht] trie_inv_children [OF "1.prems"]
      by (auto simp: extend_opt_def matching_opt_def split: option.splits)
    have "set (fst (extend_opt (\<lambda>child. match_recursive_in_tenant child r tn) (single_wildcard t) ?m2)) =
        set (fst ?m2) \<union> {s \<in> matching_opt (single_wildcard t) (levels r). sub_tenant s = tn}"
      using "1.IH"(2) [OF refl Some ht refl] trie_inv_children [OF "1.prems"]
      by (auto simp: extend_opt_def matching_opt_def split: option.splits)
    with m2 show ?thesis
      using matching_step [OF "1.prems", of "levels r" h] Some ht [symmetric]
      by (subst match_recursive_in_tenant.simps) (auto simp: lv Let_def collect_in_tenant_fst)
  qed
qed

text \<open>No dead branches: a node that is not empty holds a subscription somewhere below it.\<close>

lemma nonempty_node_subs:
  "trie_inv t \<Longrightarrow> \<not> is_empty_node t \<Longrightarrow> \<exists>fl. hash_last fl \<and> subs_at t fl \<noteq> []"
proof (induction t rule: trie_inv.induct)
  case (1 cs sw mw ex)
  show ?case
  proof (cases "ex \<noteq> [] \<or> mw \<noteq> []")
    case True
    then show ?thesis
    proof
      assume "ex \<noteq> []" then show ?thesis by (intro exI [of _ "[]"]) simp
    next
      assume "mw \<noteq> []" then show ?thesis by (intro exI [of _ "[''#'']"]) simp
    qed
  next
    case False
    show ?thesis
    proof (cases sw)
      case (Some c)
      with "1.IH"(2) obtain fl where "hash_last fl" "subs_at c fl \<noteq> []" by blast
      with Some show ?thesis by (intro exI [of _ "''+'' # fl"]) simp
    next
      case None
      with False "1.prems" obtain k c where kc: "(k, c) \<in> set cs" by (cases cs) (auto simp: is_empty_node_def)
      with "1.IH"(1) obtain fl where fl: "hash_last fl" "subs_at c fl \<noteq> []" by blast
      have "map_of cs k = Some c" using kc "1.hyps"(1) by simp
      with fl kc "1.IH"(1) show ?thesis by (intro exI [of _ "k # fl"]) auto
    qed
  qed
qed

lemma trie_without_entries:
  assumes "trie_inv t" and "\<And>fl. hash_last fl \<Longrightarrow> subs_at t fl = []"
  shows "t = empty_node"
proof -
  have "is_empty_node t" using nonempty_node_subs [OF assms(1)] assms(2) by blast
  then show ?thesis by (cases t) (simp add: is_empty_node_def empty_node_def)
qed

section \<open>Interface: an index of subscriptions\<close>

text \<open>
  What the router relies on: an index stores, per filter, at most one subscription of a client in a
  tenant; adding replaces it, deleting removes it, other filters and other clients are not touched,
  and the walk finds exactly the subscriptions of the matching filters. The table of an index gives
  for a filter, a client and a tenant the subscription they have.
\<close>

definition table_of ::
  "('t \<Rightarrow> string list \<Rightarrow> subscription list) \<Rightarrow> 't \<Rightarrow> string list \<Rightarrow> string \<Rightarrow> string \<Rightarrow> subscription option" where
  "table_of look t ls c n = find (owned_by c n) (look t ls)"

locale subscription_index =
  fixes inv :: "'t \<Rightarrow> bool"
    and fresh :: 't
    and look :: "'t \<Rightarrow> string list \<Rightarrow> subscription list"
    and add :: "'t \<Rightarrow> string list \<Rightarrow> subscription \<Rightarrow> 't \<times> bool"
    and del :: "'t \<Rightarrow> string list \<Rightarrow> string \<Rightarrow> string \<Rightarrow> 't \<times> bool"
    and has :: "'t \<Rightarrow> string list \<Rightarrow> string \<Rightarrow> string \<Rightarrow> bool"
    and walk :: "'t \<Rightarrow> string \<Rightarrow> subscription set"
  assumes inv_fresh: "inv fresh"
    and look_fresh: "look fresh ls = []"
    and inv_add: "inv t \<Longrightarrow> ls \<noteq> [] \<Longrightarrow> hash_last ls \<Longrightarrow> inv (fst (add t ls sub))"
    and inv_del: "inv t \<Longrightarrow> ls \<noteq> [] \<Longrightarrow> hash_last ls \<Longrightarrow> inv (fst (del t ls c n))"
    and look_add: "ls \<noteq> [] \<Longrightarrow> hash_last ls \<Longrightarrow> hash_last ks \<Longrightarrow> look (fst (add t ls sub)) ks =
      (if ks = ls then sub # filter (\<lambda>s. \<not> owned_by (sub_client_id sub) (sub_tenant sub) s) (look t ls)
       else look t ks)"
    and look_del: "ls \<noteq> [] \<Longrightarrow> hash_last ls \<Longrightarrow> hash_last ks \<Longrightarrow> look (fst (del t ls c n)) ks =
      (if ks = ls then filter (\<lambda>s. \<not> owned_by c n s) (look t ls) else look t ks)"
    and snd_add: "ls \<noteq> [] \<Longrightarrow> hash_last ls \<Longrightarrow>
      snd (add t ls sub) = (\<not> list_ex (owned_by (sub_client_id sub) (sub_tenant sub)) (look t ls))"
    and snd_del: "ls \<noteq> [] \<Longrightarrow> hash_last ls \<Longrightarrow> snd (del t ls c n) = list_ex (owned_by c n) (look t ls)"
    and has_look: "ls \<noteq> [] \<Longrightarrow> hash_last ls \<Longrightarrow> has t ls c n = list_ex (owned_by c n) (look t ls)"
    and look_owners: "inv t \<Longrightarrow> hash_last ls \<Longrightarrow> distinct (owners (look t ls))"
    and walk_look: "inv t \<Longrightarrow> walk t topic =
      {s. \<exists>ls. ls \<noteq> [] \<and> hash_last ls \<and> levels_match ls (levels topic) \<and> s \<in> set (look t ls)}"
begin

abbreviation table :: "'t \<Rightarrow> string list \<Rightarrow> string \<Rightarrow> string \<Rightarrow> subscription option" where
  "table \<equiv> table_of look"

lemma table_fresh: "table fresh ls c n = None"
  by (simp add: table_of_def look_fresh)

lemma find_filter_other:
  "find (owned_by c n) (filter (\<lambda>s. \<not> owned_by c' n' s) xs) =
     (if c = c' \<and> n = n' then None else find (owned_by c n) xs)"
  unfolding owned_by_def [abs_def] by (induction xs) auto

lemma table_add:
  "ls \<noteq> [] \<Longrightarrow> hash_last ls \<Longrightarrow> hash_last ks \<Longrightarrow> table (fst (add t ls sub)) ks c n =
     (if ks = ls \<and> c = sub_client_id sub \<and> n = sub_tenant sub then Some sub else table t ks c n)"
proof -
  have "owned_by c n sub \<longleftrightarrow> c = sub_client_id sub \<and> n = sub_tenant sub" by (auto simp: owned_by_def)
  then show "ls \<noteq> [] \<Longrightarrow> hash_last ls \<Longrightarrow> hash_last ks \<Longrightarrow> table (fst (add t ls sub)) ks c n =
     (if ks = ls \<and> c = sub_client_id sub \<and> n = sub_tenant sub then Some sub else table t ks c n)"
    by (auto simp: table_of_def look_add find_filter_other)
qed

lemma table_del:
  "ls \<noteq> [] \<Longrightarrow> hash_last ls \<Longrightarrow> hash_last ks \<Longrightarrow> table (fst (del t ls c' n')) ks c n =
     (if ks = ls \<and> c = c' \<and> n = n' then None else table t ks c n)"
  by (auto simp: table_of_def look_del find_filter_other)

lemma has_table: "ls \<noteq> [] \<Longrightarrow> hash_last ls \<Longrightarrow> has t ls c n \<longleftrightarrow> table t ls c n \<noteq> None"
  by (auto simp: has_look table_of_def find_None_iff list_ex_iff)

lemma added_table:
  "ls \<noteq> [] \<Longrightarrow> hash_last ls \<Longrightarrow>
   snd (add t ls sub) \<longleftrightarrow> table t ls (sub_client_id sub) (sub_tenant sub) = None"
  by (auto simp: snd_add table_of_def find_None_iff list_ex_iff)

lemma removed_table: "ls \<noteq> [] \<Longrightarrow> hash_last ls \<Longrightarrow> snd (del t ls c n) \<longleftrightarrow> table t ls c n \<noteq> None"
  by (auto simp: snd_del table_of_def find_None_iff list_ex_iff)

lemma mem_table:
  assumes "inv t" and "hash_last ls"
  shows "s \<in> set (look t ls) \<longleftrightarrow> table t ls (sub_client_id s) (sub_tenant s) = Some s"
proof
  assume s: "s \<in> set (look t ls)"
  have d: "distinct (owners (look t ls))" by (rule look_owners [OF assms])
  obtain s' where s': "table t ls (sub_client_id s) (sub_tenant s) = Some s'"
    using s by (cases "table t ls (sub_client_id s) (sub_tenant s)")
      (auto simp: table_of_def find_None_iff owned_by_def)
  then have "s' \<in> set (look t ls)" "owned_by (sub_client_id s) (sub_tenant s) s'"
    by (auto simp: table_of_def find_Some_iff)
  with s d have "s' = s" by (auto simp: owners_def distinct_map owned_by_def dest: inj_onD)
  with s' show "table t ls (sub_client_id s) (sub_tenant s) = Some s" by simp
qed (auto simp: table_of_def find_Some_iff)

lemma walk_table:
  "inv t \<Longrightarrow> walk t topic =
     {s. \<exists>ls. ls \<noteq> [] \<and> hash_last ls \<and> levels_match ls (levels topic) \<and>
        table t ls (sub_client_id s) (sub_tenant s) = Some s}"
  using walk_look mem_table by fastforce

end

text \<open>The trie is such an index: below the root it stores no subscription at the empty path.\<close>

definition root_inv :: "trie \<Rightarrow> bool" where
  "root_inv t \<longleftrightarrow> trie_inv t \<and> exact_subs t = []"

lemma insert_owned_at: "ls \<noteq> [] \<Longrightarrow> insert_owned t ls sub = insert_at t ls sub"
  by (simp add: insert_at_def)

lemma remove_owned_at: "ls \<noteq> [] \<Longrightarrow> remove_owned t ls c n = remove_at t ls c n"
  by (simp add: remove_at_def)

lemma distinct_owners_subs_at: "trie_inv t \<Longrightarrow> distinct (owners (subs_at t ls))"
proof (induction t ls rule: subs_at.induct)
  case (1 t)
  then show ?case by (cases t) (simp add: trie_inv_node)
next
  case (2 cs sw mw ex level rest)
  then show ?case
    by (auto simp: trie_inv_node owners_def split: option.split if_splits dest: map_of_SomeD)
qed

interpretation ix: subscription_index root_inv empty_node subs_at insert_owned remove_owned
  terminal_contains "\<lambda>t topic. set (match_recursive t topic [])"
proof
  show "root_inv empty_node" by (simp add: root_inv_def) (simp add: empty_node_def)
  show "root_inv (fst (insert_owned t ls sub))" if "root_inv t" "ls \<noteq> []" "hash_last ls" for t ls sub
    using that subs_at_insert [of ls "[]" t sub] by (simp add: root_inv_def insert_owned_at trie_inv_insert)
  show "root_inv (fst (remove_owned t ls c n))" if "root_inv t" "ls \<noteq> []" "hash_last ls" for t ls c n
    using that subs_at_remove [of ls "[]" t c n] by (simp add: root_inv_def remove_owned_at trie_inv_remove)
  show "subs_at (fst (insert_owned t ls sub)) ks =
      (if ks = ls then sub # filter (\<lambda>s. \<not> owned_by (sub_client_id sub) (sub_tenant sub) s) (subs_at t ls)
       else subs_at t ks)" if "ls \<noteq> []" "hash_last ls" "hash_last ks" for t ls ks sub
    using that by (simp add: insert_owned_at subs_at_insert replace_sub_def Let_def)
  show "subs_at (fst (remove_owned t ls c n)) ks =
      (if ks = ls then filter (\<lambda>s. \<not> owned_by c n s) (subs_at t ls) else subs_at t ks)"
    if "ls \<noteq> []" "hash_last ls" "hash_last ks" for t ls ks c n
    using that by (simp add: remove_owned_at subs_at_remove retain_other_def)
  show "snd (insert_owned t ls sub) = (\<not> list_ex (owned_by (sub_client_id sub) (sub_tenant sub)) (subs_at t ls))"
    if "ls \<noteq> []" "hash_last ls" for t ls sub
    using that by (simp add: insert_owned_at insert_at_added replace_sub_def Let_def list_ex_iff)
  show "snd (remove_owned t ls c n) = list_ex (owned_by c n) (subs_at t ls)" if "ls \<noteq> []" "hash_last ls" for t ls c n
    using that by (simp add: remove_owned_at remove_at_changed)
  show "terminal_contains t ls c n = list_ex (owned_by c n) (subs_at t ls)" if "ls \<noteq> []" "hash_last ls" for t ls c n
    using that by (rule terminal_contains_subs_at)
  show "distinct (owners (subs_at t ls))" if "root_inv t" "hash_last ls" for t ls
    using that by (simp add: root_inv_def distinct_owners_subs_at)
  show "set (match_recursive t topic []) =
      {s. \<exists>ls. ls \<noteq> [] \<and> hash_last ls \<and> levels_match ls (levels topic) \<and> s \<in> set (subs_at t ls)}"
    if "root_inv t" for t topic
    using that by (simp add: root_inv_def match_recursive_matching matching_def)
qed simp

end
