(* ===== verification/Router.thy ===== *)
theory Router
  imports Trie
begin

text \<open>
  The router (\<^verbatim>\<open>crates/broker-router/src/lib.rs\<close>, \<open>Router\<close>): subscribe and unsubscribe on the trie with the
  subscription cap, topic rewriting, the topic index, the strategies of shared groups, the picks and
  the reduction of each shared group to one member, and the match entry points. The atomics and the
  locked tables are fields of one record, and an operation is one atomic step. The regular
  expression engine is a third-party crate and a parameter (\<open>regex_engine\<close>).
\<close>

section \<open>State\<close>

definition MAX_REWRITE_RULES :: nat where
  "MAX_REWRITE_RULES = 64"

definition MAX_REWRITE_LEN :: nat where
  "MAX_REWRITE_LEN = 65535"

definition MAX_SHARED_GROUPS :: nat where
  "MAX_SHARED_GROUPS = 1024"

definition NUM_GROUP_SHARDS :: nat where
  "NUM_GROUP_SHARDS = 32"

definition MAX_SHARED_GROUPS_PER_SHARD :: nat where
  "MAX_SHARED_GROUPS_PER_SHARD = MAX_SHARED_GROUPS div NUM_GROUP_SHARDS"

definition MAX_SUBSCRIPTIONS :: nat where
  "MAX_SUBSCRIPTIONS = 100000"

definition MAX_KNOWN_TOPICS :: nat where
  "MAX_KNOWN_TOPICS = 100000"

datatype rewrite_rule_error =
  TooManyRules nat | InvalidPattern string | EmptyPattern | ReplacementTooLong nat

record rewrite_rule_config =
  rc_pattern :: string
  rc_replacement :: string
  rc_scope :: rewrite_scope

definition rewrite_rule_config_new :: "string \<Rightarrow> string \<Rightarrow> rewrite_scope \<Rightarrow> rewrite_rule_config" where
  "rewrite_rule_config_new pattern replacement scope =
     \<lparr>rc_pattern = pattern, rc_replacement = replacement, rc_scope = scope\<rparr>"

record 'rx compiled_rewrite_rule =
  cr_scope :: rewrite_scope
  cr_replacement :: string
  cr_regex :: 'rx

text \<open>The operations of the regular expression crate that the router calls.\<close>

record 'rx regex_engine =
  regex_new :: "string \<Rightarrow> 'rx option"
  regex_is_match :: "'rx \<Rightarrow> string \<Rightarrow> bool"
  regex_replace :: "'rx \<Rightarrow> string \<Rightarrow> string \<Rightarrow> string"

record rewrite_stats =
  rs_rules :: nat
  rs_rewritten :: u64
  rs_passthrough :: u64
  rs_budget_exceeded :: u64

record sticky_entry =
  se_pinned :: string
  se_fingerprint :: u64

type_synonym tenant_group_key = "string \<times> string"
type_synonym cursor_shard = "(tenant_group_key \<times> u64) list"
type_synonym sticky_shard = "(tenant_group_key \<times> sticky_entry) list"

record 'rx router =
  r_root :: trie
  r_subscription_count :: u64
  r_rr_cursors :: "cursor_shard list"
  r_strategies :: "(string \<times> shared_strategy) list"
  r_sticky :: "sticky_shard list"
  r_random_seed :: u64
  r_has_non_default :: bool
  r_known_topics :: "string list"
  r_rewrite_rules :: "'rx compiled_rewrite_rule list"
  r_rewrite_rewritten :: u64
  r_rewrite_passthrough :: u64
  r_rewrite_budget_exceeded :: u64

text \<open>The seed comes from the clock (nanoseconds, if it can be read) and the process id.\<close>

definition router_seed :: "u64 option \<Rightarrow> u32 \<Rightarrow> u64" where
  "router_seed nanos pid =
     ((case nanos of Some n \<Rightarrow> n | None \<Rightarrow> 0x9E3779B97F4A7C15) + ucast pid * 0x9E3779B97F4A7C15
        + 0x2545F4914F6CDD1D) OR 1"

definition router_new :: "u64 option \<Rightarrow> u32 \<Rightarrow> 'rx router" where
  "router_new nanos pid =
     \<lparr>r_root = empty_node, r_subscription_count = 0,
      r_rr_cursors = replicate NUM_GROUP_SHARDS [], r_strategies = [],
      r_sticky = replicate NUM_GROUP_SHARDS [], r_random_seed = router_seed nanos pid,
      r_has_non_default = False, r_known_topics = [], r_rewrite_rules = [],
      r_rewrite_rewritten = 0, r_rewrite_passthrough = 0, r_rewrite_budget_exceeded = 0\<rparr>"

section \<open>Hashes\<close>

definition fnv_step :: "u64 \<Rightarrow> u64 \<Rightarrow> u64" where
  "fnv_step hash b = (hash XOR b) * 0x100000001b3"

definition fnv1a64 :: "string \<Rightarrow> u64" where
  "fnv1a64 text = foldl (\<lambda>hash b. fnv_step hash (ucast b)) 0xcbf29ce484222325 (as_bytes text)"

definition fingerprint_members :: "subscription list \<Rightarrow> u64" where
  "fingerprint_members members =
     foldl (\<lambda>hash m.
       fnv_step (foldl (\<lambda>hash b. fnv_step hash (ucast b)) hash (as_bytes (sub_client_id m))) 0xff)
       0xcbf29ce484222325 members"

definition group_shard :: "string \<Rightarrow> nat" where
  "group_shard grp = unat (fnv1a64 grp) mod NUM_GROUP_SHARDS"

section \<open>Strategies of shared groups\<close>

definition set_shared_strategy ::
  "string \<Rightarrow> string \<Rightarrow> 'rx router \<Rightarrow> (shared_strategy_error + unit) \<times> 'rx router" where
  "set_shared_strategy grp strategy_name r =
     (if grp = [] then (Err EmptyGroup, r)
      else case shared_strategy_parse strategy_name of
        Inl e \<Rightarrow> (Err e, r)
      | Inr strategy \<Rightarrow>
          let current = r_strategies r in
          if map_of current grp = None \<and> length current \<ge> MAX_SHARED_GROUPS
          then (Err (TooManyGroups MAX_SHARED_GROUPS), r)
          else (Ok (), r\<lparr>r_strategies := AList.update grp strategy current\<rparr>))"

definition strategy_of :: "(string \<times> shared_strategy) list \<Rightarrow> string \<Rightarrow> shared_strategy" where
  "strategy_of strategies grp = (case map_of strategies grp of Some s \<Rightarrow> s | None \<Rightarrow> RoundRobin)"

definition router_shared_strategy :: "'rx router \<Rightarrow> string \<Rightarrow> shared_strategy" where
  "router_shared_strategy r grp = strategy_of (r_strategies r) grp"

definition clear_shared_strategy :: "string \<Rightarrow> 'rx router \<Rightarrow> bool \<times> 'rx router" where
  "clear_shared_strategy grp r =
     (if map_of (r_strategies r) grp = None then (False, r)
      else (True, r\<lparr>r_strategies := AList.delete grp (r_strategies r)\<rparr>))"

definition shared_strategy_count :: "'rx router \<Rightarrow> nat" where
  "shared_strategy_count r = length (r_strategies r)"

definition rr_cursor_count :: "'rx router \<Rightarrow> nat" where
  "rr_cursor_count r = sum_list (map length (r_rr_cursors r))"

definition sticky_count :: "'rx router \<Rightarrow> nat" where
  "sticky_count r = sum_list (map length (r_sticky r))"

section \<open>Topic rewriting\<close>

fun compile_rules ::
  "'rx regex_engine \<Rightarrow> rewrite_rule_config list \<Rightarrow> rewrite_rule_error + 'rx compiled_rewrite_rule list" where
  "compile_rules rx [] = Ok []"
| "compile_rules rx (config # configs) =
    (if rc_pattern config = [] then Err EmptyPattern
     else if length (rc_replacement config) > MAX_REWRITE_LEN then Err (ReplacementTooLong MAX_REWRITE_LEN)
     else case regex_new rx (rc_pattern config) of
       None \<Rightarrow> Err (InvalidPattern (rc_pattern config))
     | Some regex \<Rightarrow>
         and_then (compile_rules rx configs) (\<lambda>compiled.
           Ok (\<lparr>cr_scope = rc_scope config, cr_replacement = rc_replacement config, cr_regex = regex\<rparr> #
               compiled)))"

definition set_rewrite_rules ::
  "'rx regex_engine \<Rightarrow> rewrite_rule_config list \<Rightarrow> 'rx router \<Rightarrow> (rewrite_rule_error + unit) \<times> 'rx router" where
  "set_rewrite_rules rx configs r =
     (if length configs > MAX_REWRITE_RULES then (Err (TooManyRules MAX_REWRITE_RULES), r)
      else case compile_rules rx configs of
        Inl e \<Rightarrow> (Err e, r)
      | Inr compiled \<Rightarrow> (Ok (), r\<lparr>r_rewrite_rules := compiled\<rparr>))"

definition clear_rewrite_rules :: "'rx router \<Rightarrow> 'rx router" where
  "clear_rewrite_rules r = r\<lparr>r_rewrite_rules := []\<rparr>"

definition rewrite_rule_count :: "'rx router \<Rightarrow> nat" where
  "rewrite_rule_count r = length (r_rewrite_rules r)"

definition rewrite_stats_of :: "'rx router \<Rightarrow> rewrite_stats" where
  "rewrite_stats_of r =
     \<lparr>rs_rules = length (r_rewrite_rules r), rs_rewritten = r_rewrite_rewritten r,
      rs_passthrough = r_rewrite_passthrough r, rs_budget_exceeded = r_rewrite_budget_exceeded r\<rparr>"

text \<open>The first rule in scope that matches.\<close>

fun first_match ::
  "'rx regex_engine \<Rightarrow> bool \<Rightarrow> string \<Rightarrow> 'rx compiled_rewrite_rule list \<Rightarrow> 'rx compiled_rewrite_rule option" where
  "first_match rx is_publish input [] = None"
| "first_match rx is_publish input (rule # rules) =
    (let in_scope = (if is_publish then applies_to_publish (cr_scope rule)
                     else applies_to_subscribe (cr_scope rule)) in
     if \<not> in_scope then first_match rx is_publish input rules
     else if \<not> regex_is_match rx (cr_regex rule) input then first_match rx is_publish input rules
     else Some rule)"

definition rewrite_for ::
  "'rx regex_engine \<Rightarrow> string \<Rightarrow> bool \<Rightarrow> 'rx router \<Rightarrow> string option \<times> 'rx router" where
  "rewrite_for rx input is_publish r =
     (let budget = r\<lparr>r_rewrite_budget_exceeded := r_rewrite_budget_exceeded r + 1\<rparr>;
          pass = r\<lparr>r_rewrite_passthrough := r_rewrite_passthrough r + 1\<rparr> in
      if length input > MAX_REWRITE_LEN then (None, budget)
      else if input = [] then (None, pass)
      else if hd input = CHR ''$'' then (None, pass)
      else case first_match rx is_publish input (r_rewrite_rules r) of
        None \<Rightarrow> (None, pass)
      | Some rule \<Rightarrow>
          let out = regex_replace rx (cr_regex rule) input (cr_replacement rule) in
          if length out > MAX_REWRITE_LEN then (None, budget)
          else (Some out, r\<lparr>r_rewrite_rewritten := r_rewrite_rewritten r + 1\<rparr>))"

definition rewrite_publish :: "'rx regex_engine \<Rightarrow> string \<Rightarrow> 'rx router \<Rightarrow> string option \<times> 'rx router" where
  "rewrite_publish rx topic r = rewrite_for rx topic True r"

definition rewrite_subscribe :: "'rx regex_engine \<Rightarrow> string \<Rightarrow> 'rx router \<Rightarrow> string option \<times> 'rx router" where
  "rewrite_subscribe rx flt r = rewrite_for rx flt False r"

section \<open>Topic index\<close>

definition record_topic :: "string \<Rightarrow> 'rx router \<Rightarrow> 'rx router" where
  "record_topic topic r =
     (if topic = [] \<or> length topic > 65535 then r
      else if topic \<in> set (r_known_topics r) then r
      else if length (r_known_topics r) \<ge> MAX_KNOWN_TOPICS then r
      else r\<lparr>r_known_topics := topic # r_known_topics r\<rparr>)"

definition list_topics :: "'rx router \<Rightarrow> string list" where
  "list_topics r = take MAX_KNOWN_TOPICS (sort (r_known_topics r))"

definition contains_topic :: "string \<Rightarrow> 'rx router \<Rightarrow> bool" where
  "contains_topic topic r \<longleftrightarrow> topic \<in> set (r_known_topics r)"

section \<open>Subscribe and unsubscribe\<close>

definition router_subscribe :: "topic_filter \<Rightarrow> subscription \<Rightarrow> 'rx router \<Rightarrow> bool \<times> 'rx router" where
  "router_subscribe f sub r =
     (let r = (if sub_tenant sub \<noteq> DEFAULT_TENANT_ID then r\<lparr>r_has_non_default := True\<rparr> else r);
          current = r_root r;
          ls = levels (filter_as_str f) in
      if \<not> terminal_contains current ls (sub_client_id sub) (sub_tenant sub) \<and>
         unat (r_subscription_count r) \<ge> MAX_SUBSCRIPTIONS
      then (False, r)
      else
        let (next_root, added) = insert_owned current ls sub;
            count = (if added then r_subscription_count r + 1 else r_subscription_count r) in
        (True, r\<lparr>r_subscription_count := count, r_root := next_root\<rparr>))"

definition unsubscribe_in_tenant :: "topic_filter \<Rightarrow> string \<Rightarrow> string \<Rightarrow> 'rx router \<Rightarrow> 'rx router" where
  "unsubscribe_in_tenant f client_id tenant r =
     (let current = r_root r; ls = levels (filter_as_str f) in
      if \<not> path_exists current ls then r
      else if \<not> terminal_contains current ls client_id tenant then r
      else
        let (next_root, changed) = remove_owned current ls client_id tenant in
        if changed
        then r\<lparr>r_subscription_count := r_subscription_count r - 1, r_root := next_root\<rparr>
        else r)"

definition router_unsubscribe :: "topic_filter \<Rightarrow> string \<Rightarrow> 'rx router \<Rightarrow> 'rx router" where
  "router_unsubscribe f client_id r = unsubscribe_in_tenant f client_id DEFAULT_TENANT_ID r"

definition subscription_count :: "'rx router \<Rightarrow> nat" where
  "subscription_count r = unat (r_subscription_count r)"

section \<open>Picks\<close>

definition pick_round_robin ::
  "string \<Rightarrow> string \<Rightarrow> subscription list \<Rightarrow> 'rx router \<Rightarrow> subscription \<times> 'rx router" where
  "pick_round_robin tenant grp members r =
     (let key = (tenant, grp); i = group_shard grp; shard = r_rr_cursors r ! i in
      case map_of shard key of
        Some prev \<Rightarrow>
          (members ! (unat prev mod length members),
           r\<lparr>r_rr_cursors := (r_rr_cursors r)[i := AList.update key (prev + 1) shard]\<rparr>)
      | None \<Rightarrow>
          let shard = (if length shard \<ge> MAX_SHARED_GROUPS_PER_SHARD then
                         (case shard of (victim, _) # _ \<Rightarrow> AList.delete victim shard | [] \<Rightarrow> shard)
                       else shard) in
          (members ! 0, r\<lparr>r_rr_cursors := (r_rr_cursors r)[i := AList.update key 1 shard]\<rparr>))"

definition pick_random :: "subscription list \<Rightarrow> 'rx router \<Rightarrow> subscription \<times> 'rx router" where
  "pick_random members r =
     (let x = r_random_seed r;
          r = r\<lparr>r_random_seed := r_random_seed r + 0x9E3779B97F4A7C15\<rparr>;
          x = (if x = 0 then 0x2545F4914F6CDD1D else x);
          x = x XOR drop_bit 12 x;
          x = x XOR push_bit 25 x;
          x = x XOR drop_bit 27 x;
          mixed = x * 0x2545F4914F6CDD1D;
          index = unat (drop_bit 32 mixed) mod length members in
      (members ! index, r))"

definition pick_hash :: "subscription list \<Rightarrow> string \<Rightarrow> subscription" where
  "pick_hash members key = members ! (unat (fnv1a64 key) mod length members)"

text \<open>The pinned member, when the membership is the one it was pinned for.\<close>

definition sticky_hit :: "sticky_shard \<Rightarrow> tenant_group_key \<Rightarrow> subscription list \<Rightarrow> subscription option" where
  "sticky_hit shard key members =
     (case map_of shard key of
        None \<Rightarrow> None
      | Some entry \<Rightarrow>
          if se_fingerprint entry = fingerprint_members members
          then find (\<lambda>m. sub_client_id m = se_pinned entry) members else None)"

definition pick_sticky ::
  "string \<Rightarrow> string \<Rightarrow> subscription list \<Rightarrow> 'rx router \<Rightarrow> subscription \<times> 'rx router" where
  "pick_sticky tenant grp members r =
     (let fingerprint = fingerprint_members members; key = (tenant, grp); i = group_shard grp;
          shard = r_sticky r ! i in
      case sticky_hit shard key members of
        Some pinned \<Rightarrow> (pinned, r)
      | None \<Rightarrow>
          let pick = members ! (unat (fnv1a64 grp) mod length members);
              shard = (if map_of shard key = None \<and> length shard \<ge> MAX_SHARED_GROUPS_PER_SHARD then
                         (case shard of (victim, _) # _ \<Rightarrow> AList.delete victim shard | [] \<Rightarrow> shard)
                       else shard);
              entry = \<lparr>se_pinned = sub_client_id pick, se_fingerprint = fingerprint\<rparr> in
          (pick, r\<lparr>r_sticky := (r_sticky r)[i := AList.update key entry shard]\<rparr>))"

section \<open>Reduction of shared groups and the match entry points\<close>

text \<open>The members of the matched set by tenant and group, in order of first appearance.\<close>

fun add_member ::
  "subscription \<Rightarrow> (tenant_group_key \<times> subscription list) list \<Rightarrow> (tenant_group_key \<times> subscription list) list" where
  "add_member s groups =
     (case sub_group s of
        None \<Rightarrow> groups
      | Some grp \<Rightarrow>
          let key = (sub_tenant s, grp);
              old = (case map_of groups key of None \<Rightarrow> [] | Some ms \<Rightarrow> ms) in
          AList.update key (old @ [s]) groups)"

definition collect_groups :: "subscription list \<Rightarrow> (tenant_group_key \<times> subscription list) list" where
  "collect_groups matched = fold add_member matched []"

definition pick_member ::
  "topic \<Rightarrow> string option \<Rightarrow> tenant_group_key \<Rightarrow> subscription list \<Rightarrow> 'rx router \<Rightarrow> subscription \<times> 'rx router" where
  "pick_member topic publisher key members r =
     (let (tenant, grp) = key;
          members = sort_key sub_client_id members in
      case router_shared_strategy r grp of
        RoundRobin \<Rightarrow> pick_round_robin tenant grp members r
      | Random \<Rightarrow> pick_random members r
      | HashClientId \<Rightarrow> (pick_hash members (case publisher of Some p \<Rightarrow> p | None \<Rightarrow> []), r)
      | HashTopic \<Rightarrow> (pick_hash members (topic_as_str topic), r)
      | Sticky \<Rightarrow> pick_sticky tenant grp members r)"

fun pick_groups ::
  "topic \<Rightarrow> string option \<Rightarrow> (tenant_group_key \<times> subscription list) list \<Rightarrow> subscription list \<Rightarrow> 'rx router \<Rightarrow>
   subscription list \<times> 'rx router" where
  "pick_groups topic publisher [] matched r = (matched, r)"
| "pick_groups topic publisher ((key, members) # groups) matched r =
    (let (pick, r) = pick_member topic publisher key members r in
     pick_groups topic publisher groups (List.insert pick matched) r)"

definition balance_shared_groups ::
  "topic \<Rightarrow> string option \<Rightarrow> subscription list \<Rightarrow> 'rx router \<Rightarrow> subscription list \<times> 'rx router" where
  "balance_shared_groups topic publisher matched r =
     (if \<not> list_ex (\<lambda>s. sub_group s \<noteq> None) matched then (matched, r)
      else
        let groups = collect_groups matched;
            plain = filter (\<lambda>s. sub_group s = None) matched in
        pick_groups topic publisher groups plain r)"

definition matches_with_publisher ::
  "topic \<Rightarrow> string option \<Rightarrow> 'rx router \<Rightarrow> subscription list \<times> 'rx router" where
  "matches_with_publisher topic publisher r =
     (let matched = match_recursive (r_root r) (topic_as_str topic) [] in
      balance_shared_groups topic publisher matched r)"

definition matches :: "topic \<Rightarrow> 'rx router \<Rightarrow> subscription list \<times> 'rx router" where
  "matches topic r = matches_with_publisher topic None r"

definition collect_tenant ::
  "subscription list \<Rightarrow> string \<Rightarrow> subscription list \<times> u64 \<Rightarrow> subscription list \<times> u64" where
  "collect_tenant subs tenant acc =
     fold (\<lambda>sub (matched, skipped).
       if sub_tenant sub = tenant then (List.insert sub matched, skipped)
       else (matched, skipped + 1)) subs acc"

definition matches_in_tenant_with_publisher_counted ::
  "topic \<Rightarrow> string option \<Rightarrow> string \<Rightarrow> 'rx router \<Rightarrow> (subscription list \<times> u64) \<times> 'rx router" where
  "matches_in_tenant_with_publisher_counted topic publisher tenant r =
     (let (all, r) = matches_with_publisher topic publisher r in
      if tenant = DEFAULT_TENANT_ID \<and> \<not> r_has_non_default r then ((all, 0), r)
      else (collect_tenant all tenant ([], 0), r))"

definition matches_in_tenant_with_publisher ::
  "topic \<Rightarrow> string option \<Rightarrow> string \<Rightarrow> 'rx router \<Rightarrow> subscription list \<times> 'rx router" where
  "matches_in_tenant_with_publisher topic publisher tenant r =
     (let ((matched, _), r) = matches_in_tenant_with_publisher_counted topic publisher tenant r in
      (matched, r))"

definition matches_in_tenant_counted ::
  "topic \<Rightarrow> string option \<Rightarrow> string \<Rightarrow> 'rx router \<Rightarrow> (subscription list \<times> u64) \<times> 'rx router" where
  "matches_in_tenant_counted topic publisher tenant r =
     (let (matched, skipped) =
            match_recursive_in_tenant (r_root r) (topic_as_str topic) tenant ([], 0);
          (matched, r) = balance_shared_groups topic publisher matched r in
      ((matched, skipped), r))"

definition matches_in_tenant :: "topic \<Rightarrow> string \<Rightarrow> 'rx router \<Rightarrow> subscription list \<times> 'rx router" where
  "matches_in_tenant topic tenant r =
     (let ((matched, _), r) = matches_in_tenant_counted topic None tenant r in (matched, r))"

end
