(* ===== verification/Router_Laws.thy ===== *)
theory Router_Laws
  imports Router
begin

text \<open>
  What the router promises. Its subscriptions refine a table from filter, client and tenant to a
  subscription with a cap on the number of entries; a match returns exactly the entries of the
  matching filters, with each shared group reduced to one member; every table of the router is
  bounded after any sequence of operations.
\<close>

section \<open>The abstract table\<close>

type_synonym sub_table = "string \<times> string \<times> string \<Rightarrow> subscription option"

datatype router_event =
  Subscribe topic_filter subscription
| Unsubscribe topic_filter string string

primrec event_filter :: "router_event \<Rightarrow> topic_filter" where
  "event_filter (Subscribe f sub) = f"
| "event_filter (Unsubscribe f c n) = f"

text \<open>An event of the specification: its answer (for a subscribe) and the new table.\<close>

fun spec_event :: "router_event \<Rightarrow> sub_table \<Rightarrow> bool option \<times> sub_table" where
  "spec_event (Subscribe f sub) M =
    (let k = (filter_as_str f, sub_client_id sub, sub_tenant sub) in
     if M k = None \<and> card (dom M) \<ge> MAX_SUBSCRIPTIONS then (Some False, M)
     else (Some True, M(k \<mapsto> sub)))"
| "spec_event (Unsubscribe f c n) M = (None, M((filter_as_str f, c, n) := None))"

fun do_event :: "router_event \<Rightarrow> 'rx router \<Rightarrow> bool option \<times> 'rx router" where
  "do_event (Subscribe f sub) r = (let (ok, r) = router_subscribe f sub r in (Some ok, r))"
| "do_event (Unsubscribe f c n) r = (None, unsubscribe_in_tenant f c n r)"

fun run_events :: "('e \<Rightarrow> 's \<Rightarrow> 'o \<times> 's) \<Rightarrow> 'e list \<Rightarrow> 's \<Rightarrow> 'o list \<times> 's" where
  "run_events step [] s = ([], s)"
| "run_events step (e # es) s =
    (let (out, s) = step e s; (outs, s) = run_events step es s in (out # outs, s))"

text \<open>Filters that the constructor accepts.\<close>

definition accepted :: "topic_filter \<Rightarrow> bool" where
  "accepted f \<longleftrightarrow> filter_new (filter_as_str f) = Returns (Ok f)"

text \<open>The table of a router, and its invariant.\<close>

definition router_table :: "'rx router \<Rightarrow> sub_table" where
  "router_table r = (\<lambda>(f, c, n).
     if hash_last (levels f) then table_of subs_at (r_root r) (levels f) c n else None)"

definition stored_filters :: "trie \<Rightarrow> bool" where
  "stored_filters t \<longleftrightarrow> (\<forall>ls. hash_last ls \<longrightarrow> subs_at t ls \<noteq> [] \<longrightarrow> (\<exists>f. ls = levels f))"

definition tenants_flagged :: "'rx router \<Rightarrow> bool" where
  "tenants_flagged r \<longleftrightarrow>
     r_has_non_default r \<or> (\<forall>f c n. n \<noteq> DEFAULT_TENANT_ID \<longrightarrow> router_table r (f, c, n) = None)"

definition router_inv :: "'rx router \<Rightarrow> bool" where
  "router_inv r \<longleftrightarrow>
     root_inv (r_root r) \<and> stored_filters (r_root r) \<and> finite (dom (router_table r)) \<and>
     unat (r_subscription_count r) = card (dom (router_table r)) \<and>
     card (dom (router_table r)) \<le> MAX_SUBSCRIPTIONS \<and> tenants_flagged r"

lemma accepted_hash_last: "accepted f \<Longrightarrow> hash_last (levels (filter_as_str f))"
  unfolding accepted_def hash_last_def using filter_new_levels by blast

lemma router_table_new [simp]: "router_table (router_new nanos pid) = (\<lambda>_. None)"
  by (auto simp: router_table_def router_new_def table_of_def)

lemma router_inv_new: "router_inv (router_new nanos pid)"
  using ix.inv_fresh
  by (simp add: router_inv_def stored_filters_def tenants_flagged_def) (simp add: router_new_def)

lemma router_table_add:
  assumes "hash_last (levels f)" and "r_root r' = fst (insert_owned (r_root r) (levels f) sub)"
  shows "router_table r' = (router_table r)((f, sub_client_id sub, sub_tenant sub) \<mapsto> sub)"
  using assms ix.table_add [of "levels f" _ "r_root r" sub]
  by (auto simp: router_table_def fun_eq_iff)

lemma router_table_del:
  assumes "hash_last (levels f)" and "r_root r' = fst (remove_owned (r_root r) (levels f) c n)"
  shows "router_table r' = (router_table r)((f, c, n) := None)"
  using assms ix.table_del [of "levels f" _ "r_root r" c n]
  by (auto simp: router_table_def fun_eq_iff)

lemma router_table_same: "r_root r' = r_root r \<Longrightarrow> router_table r' = router_table r"
  by (simp add: router_table_def fun_eq_iff)

lemma stored_filters_add:
  "stored_filters t \<Longrightarrow> hash_last (levels f) \<Longrightarrow> stored_filters (fst (insert_owned t (levels f) sub))"
  by (auto simp: stored_filters_def ix.look_add)

lemma stored_filters_del:
  "stored_filters t \<Longrightarrow> hash_last (levels f) \<Longrightarrow> stored_filters (fst (remove_owned t (levels f) c n))"
  by (auto simp: stored_filters_def ix.look_del)

lemma terminal_contains_table:
  "hash_last (levels f) \<Longrightarrow> terminal_contains (r_root r) (levels f) c n \<longleftrightarrow> router_table r (f, c, n) \<noteq> None"
  by (simp add: router_table_def ix.has_table)

text \<open>The word counter follows the size of the table.\<close>

lemma count_add:
  assumes "unat (w :: u64) = card (dom M)" and "finite (dom M)"
    and "M k = None \<longrightarrow> card (dom M) < MAX_SUBSCRIPTIONS" and "card (dom M) \<le> MAX_SUBSCRIPTIONS"
  shows "unat (if M k = None then w + 1 else w) = card (dom (M(k \<mapsto> v)))"
    and "card (dom (M(k \<mapsto> v))) \<le> MAX_SUBSCRIPTIONS"
proof -
  have c: "card (insert k (dom M)) = (if M k = None then Suc (card (dom M)) else card (dom M))"
    using assms(2) by (auto simp: card_insert_if domIff)
  have "Suc (unat w) < 2 ^ 64" if "M k = None" using assms that by (simp add: MAX_SUBSCRIPTIONS_def)
  then have "unat (w + 1) = Suc (unat w)" if "M k = None"
    using that by (simp add: unat_word_ariths)
  with c assms show "unat (if M k = None then w + 1 else w) = card (dom (M(k \<mapsto> v)))"
    and "card (dom (M(k \<mapsto> v))) \<le> MAX_SUBSCRIPTIONS" by auto
qed

lemma count_del:
  assumes "unat (w :: u64) = card (dom M)" and "finite (dom M)" and "M k \<noteq> None"
  shows "unat (w - 1) = card (dom (M(k := None)))"
proof -
  have k: "k \<in> dom M" using assms(3) by (simp add: domIff)
  then have "card (dom M) > 0" using assms(2) by (auto simp: card_gt_0_iff)
  then have "w \<noteq> 0" using assms(1) by (metis less_numeral_extra(3) unat_0)
  then have "unat (w - 1) = unat w - 1" by (simp add: unat_minus_one)
  with k assms show ?thesis by (simp add: card_Diff_singleton)
qed

lemma subscribe_root:
  "r_root (snd (router_subscribe f sub r)) =
     (if fst (router_subscribe f sub r) then fst (insert_owned (r_root r) (levels (filter_as_str f)) sub)
      else r_root r)"
  by (auto simp: router_subscribe_def Let_def split: prod.split)

lemma subscribe_simulates:
  assumes inv: "router_inv r" and f: "accepted f"
  shows "router_inv (snd (router_subscribe f sub r)) \<and>
    (Some (fst (router_subscribe f sub r)), router_table (snd (router_subscribe f sub r))) =
      spec_event (Subscribe f sub) (router_table r)"
proof -
  let ?fs = "filter_as_str f" and ?c = "sub_client_id sub" and ?n = "sub_tenant sub"
  let ?r' = "snd (router_subscribe f sub r)" and ?M = "router_table r" and ?k = "(filter_as_str f, sub_client_id sub, sub_tenant sub)"
  have h: "hash_last (levels ?fs)" using f by (rule accepted_hash_last)
  note inv' = inv [unfolded router_inv_def]
  have tc: "terminal_contains (r_root r) (levels ?fs) ?c ?n \<longleftrightarrow> ?M ?k \<noteq> None"
    using h by (rule terminal_contains_table)
  have ok: "fst (router_subscribe f sub r) \<longleftrightarrow> \<not> (?M ?k = None \<and> card (dom ?M) \<ge> MAX_SUBSCRIPTIONS)"
    using tc inv' by (auto simp: router_subscribe_def Let_def split: prod.split)
  have flag: "r_has_non_default ?r' \<longleftrightarrow> r_has_non_default r \<or> ?n \<noteq> DEFAULT_TENANT_ID"
    by (auto simp: router_subscribe_def Let_def split: prod.split)
  show ?thesis
  proof (cases "fst (router_subscribe f sub r)")
    case False
    have root: "r_root ?r' = r_root r" using False subscribe_root [of f sub r] by simp
    have count: "r_subscription_count ?r' = r_subscription_count r"
      using False by (auto simp: router_subscribe_def Let_def split: prod.split if_splits)
    have t: "router_table ?r' = ?M" using root by (rule router_table_same)
    have "router_inv ?r'"
      using inv' root count t flag by (auto simp: router_inv_def tenants_flagged_def)
    then show ?thesis using ok False t by (simp add: Let_def)
  next
    case True
    have root: "r_root ?r' = fst (insert_owned (r_root r) (levels ?fs) sub)"
      using True subscribe_root [of f sub r] by simp
    have "snd (insert_owned (r_root r) (levels ?fs) sub) \<longleftrightarrow> ?M ?k = None"
      using ix.added_table [of "levels ?fs" "r_root r" sub] h by (simp add: router_table_def)
    then have count: "r_subscription_count ?r' =
        (if ?M ?k = None then r_subscription_count r + 1 else r_subscription_count r)"
      using True by (auto simp: router_subscribe_def Let_def split: prod.split if_splits)
    have t: "router_table ?r' = ?M(?k \<mapsto> sub)" using h root by (rule router_table_add)
    have lt: "?M ?k = None \<longrightarrow> card (dom ?M) < MAX_SUBSCRIPTIONS" using True ok by auto
    have u: "unat (r_subscription_count r) = card (dom ?M)" and fin: "finite (dom ?M)"
      and le: "card (dom ?M) \<le> MAX_SUBSCRIPTIONS" using inv' by auto
    have "root_inv (r_root ?r')" "stored_filters (r_root ?r')"
      using inv' h ix.inv_add stored_filters_add root by auto
    moreover have "tenants_flagged ?r'" using inv' flag t by (auto simp: tenants_flagged_def)
    moreover have "unat (r_subscription_count ?r') = card (dom (router_table ?r'))"
      "card (dom (router_table ?r')) \<le> MAX_SUBSCRIPTIONS"
      unfolding count t by (rule count_add [OF u fin lt le])+
    ultimately have "router_inv ?r'" using fin t by (simp add: router_inv_def)
    then show ?thesis using True ok t by (auto simp: Let_def)
  qed
qed

lemma unsubscribe_simulates:
  assumes inv: "router_inv r" and f: "accepted f"
  shows "router_inv (unsubscribe_in_tenant f c n r) \<and>
    router_table (unsubscribe_in_tenant f c n r) = (router_table r)((filter_as_str f, c, n) := None)"
proof -
  let ?fs = "filter_as_str f" and ?M = "router_table r" and ?r' = "unsubscribe_in_tenant f c n r"
  have h: "hash_last (levels ?fs)" using f by (rule accepted_hash_last)
  note inv' = inv [unfolded router_inv_def]
  have tc: "terminal_contains (r_root r) (levels ?fs) c n \<longleftrightarrow> ?M (?fs, c, n) \<noteq> None"
    using h by (rule terminal_contains_table)
  show ?thesis
  proof (cases "?M (?fs, c, n)")
    case None
    then have "?r' = r" using tc by (simp add: unsubscribe_in_tenant_def Let_def)
    with None inv show ?thesis by (simp add: fun_upd_idem)
  next
    case (Some v)
    have "snd (remove_owned (r_root r) (levels ?fs) c n)"
      using ix.removed_table [of "levels ?fs" "r_root r" c n] h Some by (simp add: router_table_def)
    then have r': "?r' = r\<lparr>r_subscription_count := r_subscription_count r - 1,
        r_root := fst (remove_owned (r_root r) (levels ?fs) c n)\<rparr>"
      using tc Some terminal_contains_path
      by (auto simp: unsubscribe_in_tenant_def Let_def split: prod.split)
    have t: "router_table ?r' = ?M((?fs, c, n) := None)"
      by (rule router_table_del [OF h]) (simp add: r')
    have "root_inv (r_root ?r')" "stored_filters (r_root ?r')"
      using inv' h ix.inv_del stored_filters_del by (auto simp: r')
    moreover have "tenants_flagged ?r'" using inv' t by (auto simp: tenants_flagged_def r')
    moreover have "unat (r_subscription_count ?r') = card (dom (router_table ?r'))"
      using count_del [of "r_subscription_count r" ?M "(?fs, c, n)"] inv' Some t by (simp add: r')
    moreover have "finite (dom (router_table ?r'))" "card (dom (router_table ?r')) \<le> MAX_SUBSCRIPTIONS"
      using inv' t card_mono [of "dom ?M" "dom (router_table ?r')"] by auto
    ultimately show ?thesis using t by (simp add: router_inv_def)
  qed
qed

lemma do_event_simulates:
  assumes "router_inv r" and "accepted (event_filter e)"
  shows "router_inv (snd (do_event e r)) \<and>
    (fst (do_event e r), router_table (snd (do_event e r))) = spec_event e (router_table r)"
proof (cases e)
  case (Subscribe f sub)
  then show ?thesis using subscribe_simulates [of r f sub] assms
    by (simp add: case_prod_unfold Let_def del: spec_event.simps)
next
  case (Unsubscribe f c n)
  then show ?thesis using unsubscribe_simulates [of r f c n] assms by simp
qed

lemma run_events_simulates:
  assumes "router_inv r" and "\<forall>e\<in>set es. accepted (event_filter e)"
  shows "router_inv (snd (run_events do_event es r)) \<and>
    (fst (run_events do_event es r), router_table (snd (run_events do_event es r))) =
      run_events spec_event es (router_table r)"
  using assms
proof (induction es arbitrary: r)
  case (Cons e es)
  from Cons.prems do_event_simulates [of r e]
  have s: "router_inv (snd (do_event e r))"
    "spec_event e (router_table r) = (fst (do_event e r), router_table (snd (do_event e r)))" by auto
  show ?case using Cons.IH [OF s(1)] Cons.prems(2) by (simp add: s(2) case_prod_unfold prod_eq_iff Let_def)
qed simp

text \<open>What a match walk finds, in terms of the table.\<close>

definition table_matches :: "sub_table \<Rightarrow> topic \<Rightarrow> subscription set" where
  "table_matches M topic = {s. \<exists>f. M (f, sub_client_id s, sub_tenant s) = Some s \<and>
     filter_matches (TopicFilter f) topic}"

lemma walk_table_matches:
  assumes "router_inv r"
  shows "set (match_recursive (r_root r) (topic_as_str topic) []) = table_matches (router_table r) topic"
proof -
  have inv: "root_inv (r_root r)" "stored_filters (r_root r)" using assms by (simp_all add: router_inv_def)
  have "\<exists>f. ls = levels f" if "hash_last ls" "table_of subs_at (r_root r) ls c n = Some s" for ls c n s
  proof -
    have "subs_at (r_root r) ls \<noteq> []" using that(2) by (auto simp: table_of_def)
    with inv(2) that(1) show ?thesis by (auto simp: stored_filters_def)
  qed
  then have "(\<exists>ls. ls \<noteq> [] \<and> hash_last ls \<and> levels_match ls (levels (topic_as_str topic)) \<and>
        table_of subs_at (r_root r) ls c n = Some s) \<longleftrightarrow>
      (\<exists>f. hash_last (levels f) \<and> table_of subs_at (r_root r) (levels f) c n = Some s \<and>
        levels_match (levels f) (levels (topic_as_str topic)))" for c n s
    by (metis split_on_not_Nil)
  moreover have "(router_table r (f, c, n) = Some s) \<longleftrightarrow>
      hash_last (levels f) \<and> table_of subs_at (r_root r) (levels f) c n = Some s" for f c n s
    by (simp add: router_table_def)
  ultimately show ?thesis
    unfolding ix.walk_table [OF inv(1)] table_matches_def filter_matches_levels by simp
qed

section \<open>Reduction of shared groups\<close>

definition group_key :: "subscription \<Rightarrow> tenant_group_key option" where
  "group_key s = map_option (\<lambda>grp. (sub_tenant s, grp)) (sub_group s)"

lemma group_key_None [simp]: "group_key s = None \<longleftrightarrow> sub_group s = None"
  by (simp add: group_key_def)

lemma add_member_key:
  "add_member s groups = (case group_key s of None \<Rightarrow> groups
     | Some key \<Rightarrow> AList.update key ((case map_of groups key of None \<Rightarrow> [] | Some ms \<Rightarrow> ms) @ [s]) groups)"
  by (cases "sub_group s") (simp_all add: group_key_def Let_def)

declare add_member.simps [simp del]

lemma fold_add_member:
  "map_of (fold add_member matched groups) key =
     (let ms = filter (\<lambda>s. group_key s = Some key) matched in
      case map_of groups key of None \<Rightarrow> if ms = [] then None else Some ms | Some old \<Rightarrow> Some (old @ ms))"
proof (induction matched arbitrary: groups)
  case (Cons s matched)
  show ?case
    unfolding fold_Cons comp_apply Cons.IH
    by (auto simp: add_member_key update_conv' Let_def split: option.split)
qed (simp split: option.split)

lemma distinct_add_member: "distinct (map fst groups) \<Longrightarrow> distinct (map fst (add_member s groups))"
  by (simp add: add_member_key distinct_update split: option.split)

lemma distinct_fold_add_member:
  "distinct (map fst groups) \<Longrightarrow> distinct (map fst (fold add_member matched groups))"
  by (induction matched arbitrary: groups) (simp_all add: distinct_add_member)

lemma collect_groups_distinct: "distinct (map fst (collect_groups matched))"
  by (simp add: collect_groups_def distinct_fold_add_member)

lemma collect_groups_member:
  "(key, ms) \<in> set (collect_groups matched) \<longleftrightarrow>
     ms = filter (\<lambda>s. group_key s = Some key) matched \<and> ms \<noteq> []"
proof -
  have "(key, ms) \<in> set (collect_groups matched) \<longleftrightarrow> map_of (collect_groups matched) key = Some ms"
    using collect_groups_distinct [of matched] by (simp add: map_of_eq_Some_iff)
  then show ?thesis unfolding collect_groups_def fold_add_member by (auto simp: Let_def)
qed

text \<open>A pick is one of the members and changes only the delivery state of the groups.\<close>

definition delivery_frame :: "'rx router \<Rightarrow> 'rx router \<Rightarrow> bool" where
  "delivery_frame r r' \<longleftrightarrow>
     r' = r\<lparr>r_rr_cursors := r_rr_cursors r', r_sticky := r_sticky r', r_random_seed := r_random_seed r'\<rparr>"

lemma delivery_frame_refl [simp]: "delivery_frame r r"
  by (simp add: delivery_frame_def)

lemma delivery_frame_trans: "delivery_frame r s \<Longrightarrow> delivery_frame s t \<Longrightarrow> delivery_frame r t"
  unfolding delivery_frame_def
  by (cases r, cases s, cases t) simp

lemma pick_round_robin_frame:
  "members \<noteq> [] \<Longrightarrow> fst (pick_round_robin n g members r) \<in> set members \<and>
     delivery_frame r (snd (pick_round_robin n g members r))"
  by (auto simp: pick_round_robin_def Let_def delivery_frame_def split: option.split)

lemma pick_random_frame:
  "members \<noteq> [] \<Longrightarrow> fst (pick_random members r) \<in> set members \<and> delivery_frame r (snd (pick_random members r))"
  by (auto simp: pick_random_def Let_def delivery_frame_def)

lemma pick_hash_member: "members \<noteq> [] \<Longrightarrow> pick_hash members key \<in> set members"
  by (simp add: pick_hash_def)

lemma sticky_hit_member: "sticky_hit shard key members = Some m \<Longrightarrow> m \<in> set members"
  by (auto simp: sticky_hit_def find_Some_iff split: option.splits if_splits)

lemma pick_sticky_frame:
  "members \<noteq> [] \<Longrightarrow> fst (pick_sticky n g members r) \<in> set members \<and>
     delivery_frame r (snd (pick_sticky n g members r))"
  by (auto simp: pick_sticky_def Let_def delivery_frame_def dest: sticky_hit_member split: option.split)

lemma pick_member_frame:
  assumes "members \<noteq> []"
  shows "fst (pick_member topic publisher key members r) \<in> set members \<and>
    delivery_frame r (snd (pick_member topic publisher key members r))"
proof -
  let ?ms = "sort_key sub_client_id members"
  have ms: "?ms \<noteq> []" "set ?ms = set members" using assms by (simp_all flip: set_empty)
  show ?thesis
    unfolding pick_member_def Let_def case_prod_unfold
    using pick_round_robin_frame [OF ms(1), of _ _ r] pick_random_frame [OF ms(1), of r]
      pick_hash_member [OF ms(1)] pick_sticky_frame [OF ms(1), of _ _ r]
    by (simp add: ms(2) split: shared_strategy.split)
qed

lemma pick_groups_frame:
  "\<forall>(key, ms)\<in>set groups. ms \<noteq> [] \<Longrightarrow> delivery_frame r (snd (pick_groups topic publisher groups matched r))"
proof (induction groups arbitrary: matched r)
  case (Cons g groups)
  obtain key ms where g: "g = (key, ms)" by (cases g)
  with Cons.prems pick_member_frame [of ms topic publisher key r]
  have "delivery_frame r (snd (pick_member topic publisher key ms r))" by simp
  with Cons show ?case by (auto simp: g case_prod_unfold Let_def intro: delivery_frame_trans)
qed simp

lemma pick_groups_picks:
  assumes "distinct (map fst groups)" and "\<forall>(key, ms)\<in>set groups. ms \<noteq> []"
  shows "\<exists>pick. (\<forall>(key, ms)\<in>set groups. pick key \<in> set ms) \<and>
    set (fst (pick_groups topic publisher groups matched r)) = set matched \<union> pick ` fst ` set groups"
  using assms
proof (induction groups arbitrary: matched r)
  case (Cons g groups)
  obtain key ms where g: "g = (key, ms)" by (cases g)
  let ?p = "pick_member topic publisher key ms r"
  obtain pick where p: "\<forall>(key, ms)\<in>set groups. pick key \<in> set ms"
    "set (fst (pick_groups topic publisher groups (List.insert (fst ?p) matched) (snd ?p))) =
       set (List.insert (fst ?p) matched) \<union> pick ` fst ` set groups"
  proof -
    have "distinct (map fst groups)" "\<forall>(key, ms)\<in>set groups. ms \<noteq> []" using Cons.prems by simp_all
    from Cons.IH [OF this, of "List.insert (fst ?p) matched" "snd ?p"] show thesis
      by (elim exE conjE) (rule that)
  qed
  have new: "key \<notin> fst ` set groups" using Cons.prems(1) g by simp
  define pick' where "pick' = pick(key := fst ?p)"
  have "\<And>k. k \<in> fst ` set groups \<Longrightarrow> pick' k = pick k" and key: "pick' key = fst ?p"
    using new by (auto simp: pick'_def)
  then have "pick' ` fst ` set groups = pick ` fst ` set groups"
    and "\<forall>(k, ms')\<in>set groups. pick' k \<in> set ms'"
    using p(1) by (force cong: image_cong)+
  moreover have "fst ?p \<in> set ms"
    using pick_member_frame [of ms topic publisher key r] Cons.prems(2) g by simp
  ultimately show ?case
    using p(2) key by (intro exI [of _ pick']) (simp add: g case_prod_unfold Let_def)
qed auto

text \<open>One member per group, and every plain subscription.\<close>

definition one_per_group :: "subscription set \<Rightarrow> subscription set \<Rightarrow> bool" where
  "one_per_group S D \<longleftrightarrow>
     D \<subseteq> S \<and> {s \<in> D. sub_group s = None} = {s \<in> S. sub_group s = None} \<and>
     (\<forall>s\<in>S. sub_group s \<noteq> None \<longrightarrow> (\<exists>!d. d \<in> D \<and> group_key d = group_key s))"

lemma balance_one_per_group:
  "one_per_group (set matched) (set (fst (balance_shared_groups topic publisher matched r)))"
proof (cases "list_ex (\<lambda>s. sub_group s \<noteq> None) matched")
  case False
  then show ?thesis by (auto simp: balance_shared_groups_def one_per_group_def list_ex_iff)
next
  case True
  let ?g = "collect_groups matched" and ?plain = "filter (\<lambda>s. sub_group s = None) matched"
  obtain pick where p: "\<forall>(key, ms)\<in>set ?g. pick key \<in> set ms"
    "set (fst (pick_groups topic publisher ?g ?plain r)) = set ?plain \<union> pick ` fst ` set ?g"
  proof -
    have "\<forall>(key, ms)\<in>set ?g. ms \<noteq> []" by (auto simp: collect_groups_member)
    from pick_groups_picks [OF collect_groups_distinct this, of topic publisher ?plain r]
    show thesis by (elim exE conjE) (rule that)
  qed
  have mem: "pick key \<in> set matched \<and> group_key (pick key) = Some key" if "key \<in> fst ` set ?g" for key
    using that p(1) by (fastforce simp: collect_groups_member)
  have key: "key \<in> fst ` set ?g" if "s \<in> set matched" "group_key s = Some key" for s key
  proof -
    have "(key, filter (\<lambda>s. group_key s = Some key) matched) \<in> set ?g"
      using that by (auto simp: collect_groups_member filter_empty_conv)
    then show ?thesis by force
  qed
  let ?D = "set ?plain \<union> pick ` fst ` set ?g"
  have "?D \<subseteq> set matched" using mem by auto
  moreover have "{s \<in> ?D. sub_group s = None} = {s \<in> set matched. sub_group s = None}"
    using mem by (auto simp flip: group_key_None)
  moreover have "\<exists>!d. d \<in> ?D \<and> group_key d = group_key s" if s: "s \<in> set matched" "sub_group s \<noteq> None" for s
  proof -
    from s(2) obtain k where k: "group_key s = Some k" by (cases "group_key s") auto
    with s key mem have "pick k \<in> ?D \<and> group_key (pick k) = group_key s" by auto
    moreover have "d = pick k" if d: "d \<in> ?D \<and> group_key d = group_key s" for d
    proof -
      from d k have "sub_group d \<noteq> None" by (auto simp flip: group_key_None)
      with d have "d \<in> pick ` fst ` set ?g" by simp
      then obtain k' where k': "d = pick k'" "k' \<in> fst ` set ?g" by (rule imageE)
      with mem [OF k'(2)] d k show ?thesis by simp
    qed
    ultimately show ?thesis by (rule ex1I)
  qed
  ultimately show ?thesis
    using True by (simp add: balance_shared_groups_def Let_def one_per_group_def p(2))
qed

lemma balance_frame: "delivery_frame r (snd (balance_shared_groups topic publisher matched r))"
  by (auto simp: balance_shared_groups_def Let_def collect_groups_member intro!: pick_groups_frame)

section \<open>Delivery state of shared groups\<close>

definition shards_ok :: "('k \<times> 'v) list list \<Rightarrow> bool" where
  "shards_ok shards \<longleftrightarrow> length shards = NUM_GROUP_SHARDS \<and>
     (\<forall>shard\<in>set shards. length shard \<le> MAX_SHARED_GROUPS_PER_SHARD \<and> distinct (map fst shard))"

lemma group_shard_less [simp]: "group_shard grp < NUM_GROUP_SHARDS"
  by (simp add: group_shard_def NUM_GROUP_SHARDS_def)

lemma shards_ok_total:
  assumes "shards_ok shards"
  shows "sum_list (map length shards) \<le> MAX_SHARED_GROUPS"
proof -
  have "sum_list (map length shards) \<le> sum_list (map (\<lambda>_. MAX_SHARED_GROUPS_PER_SHARD) shards)"
    using assms by (intro sum_list_mono) (simp add: shards_ok_def)
  also have "\<dots> = NUM_GROUP_SHARDS * MAX_SHARED_GROUPS_PER_SHARD"
    using assms by (simp add: shards_ok_def sum_list_triv)
  finally show ?thesis
    by (simp add: MAX_SHARED_GROUPS_PER_SHARD_def NUM_GROUP_SHARDS_def MAX_SHARED_GROUPS_def)
qed

lemma length_AList_update:
  "length (AList.update k v xs) = (if map_of xs k = None then Suc (length xs) else length xs)"
  by (induction xs) auto

text \<open>Room for a new key: one entry leaves a full shard.\<close>

definition evict_room :: "nat \<Rightarrow> ('k \<times> 'v) list \<Rightarrow> ('k \<times> 'v) list" where
  "evict_room cap shard =
     (if length shard \<ge> cap then (case shard of (victim, _) # _ \<Rightarrow> AList.delete victim shard | [] \<Rightarrow> shard)
      else shard)"

lemma evict_room:
  assumes "distinct (map fst shard)" and "length shard \<le> cap" and "0 < cap"
  shows "distinct (map fst (evict_room cap shard))" and "length (evict_room cap shard) < cap"
    and "map_of shard k = None \<Longrightarrow> map_of (evict_room cap shard) k = None"
proof -
  show "distinct (map fst (evict_room cap shard))"
    using assms(1) by (auto simp: evict_room_def distinct_delete split: list.split)
  show "length (evict_room cap shard) < cap"
  proof (cases shard)
    case (Cons e rest)
    with assms(1) have "AList.delete (fst e) shard = rest" by (cases e) (simp add: delete_id)
    with Cons assms(2,3) show ?thesis by (cases e) (auto simp: evict_room_def)
  qed (use assms in \<open>simp add: evict_room_def\<close>)
  show "map_of shard k = None \<Longrightarrow> map_of (evict_room cap shard) k = None"
    by (auto simp: evict_room_def delete_conv split: list.split)
qed

lemma room_if:
  "(if P \<and> cap \<le> length shard then (case shard of (victim, _) # _ \<Rightarrow> AList.delete victim shard | [] \<Rightarrow> shard)
    else shard) = (if P then evict_room cap shard else shard)"
  by (simp add: evict_room_def)

lemma shards_ok_put:
  assumes "shards_ok shards" and "i < NUM_GROUP_SHARDS"
    and "shard' = (if map_of (shards ! i) k = None then evict_room MAX_SHARED_GROUPS_PER_SHARD (shards ! i)
                   else shards ! i)"
  shows "shards_ok (shards[i := AList.update k v shard'])"
proof -
  let ?s = "shards ! i"
  have s: "distinct (map fst ?s)" "length ?s \<le> MAX_SHARED_GROUPS_PER_SHARD"
    using assms(1,2) by (auto simp: shards_ok_def)
  have cap: "0 < MAX_SHARED_GROUPS_PER_SHARD"
    by (simp add: MAX_SHARED_GROUPS_PER_SHARD_def MAX_SHARED_GROUPS_def NUM_GROUP_SHARDS_def)
  have "distinct (map fst shard')" "length (AList.update k v shard') \<le> MAX_SHARED_GROUPS_PER_SHARD"
    using evict_room [OF s cap] s assms(3) by (auto simp: length_AList_update)
  then show ?thesis
    using assms(1) set_update_subset_insert [of shards i "AList.update k v shard'"]
    by (auto simp: shards_ok_def distinct_update)
qed

lemma pick_round_robin_shards:
  "shards_ok (r_rr_cursors r) \<Longrightarrow> shards_ok (r_sticky r) \<Longrightarrow>
   shards_ok (r_rr_cursors (snd (pick_round_robin n g members r))) \<and>
   shards_ok (r_sticky (snd (pick_round_robin n g members r)))"
  using shards_ok_put [of "r_rr_cursors r" "group_shard g" _ "(n, g)"]
  by (auto simp: pick_round_robin_def Let_def evict_room_def split: option.split)

lemma pick_sticky_shards:
  "shards_ok (r_rr_cursors r) \<Longrightarrow> shards_ok (r_sticky r) \<Longrightarrow>
   shards_ok (r_rr_cursors (snd (pick_sticky n g members r))) \<and>
   shards_ok (r_sticky (snd (pick_sticky n g members r)))"
  unfolding pick_sticky_def Let_def room_if
  using shards_ok_put [of "r_sticky r" "group_shard g", OF _ _ refl, of "(n, g)"]
  by (simp split: option.split split del: if_split)

definition delivery_ok :: "'rx router \<Rightarrow> bool" where
  "delivery_ok r \<longleftrightarrow> shards_ok (r_rr_cursors r) \<and> shards_ok (r_sticky r)"

lemma pick_member_ok: "delivery_ok r \<Longrightarrow> delivery_ok (snd (pick_member topic publisher key members r))"
  unfolding delivery_ok_def pick_member_def Let_def case_prod_unfold
  using pick_round_robin_shards [of r] pick_sticky_shards [of r]
  by (simp add: pick_random_def Let_def split: shared_strategy.split)

lemma pick_groups_ok: "delivery_ok r \<Longrightarrow> delivery_ok (snd (pick_groups topic publisher groups matched r))"
proof (induction groups arbitrary: matched r)
  case (Cons g groups)
  then show ?case
    using pick_member_ok [of r topic publisher "fst g" "snd g"] by (cases g) (simp add: case_prod_unfold Let_def)
qed simp

lemma balance_ok: "delivery_ok r \<Longrightarrow> delivery_ok (snd (balance_shared_groups topic publisher matched r))"
  by (simp add: balance_shared_groups_def Let_def pick_groups_ok)

text \<open>The cursor of a group, zero before its first delivery.\<close>

definition cursor_of :: "'rx router \<Rightarrow> string \<Rightarrow> string \<Rightarrow> u64" where
  "cursor_of r n g =
     (case map_of (r_rr_cursors r ! group_shard g) (n, g) of None \<Rightarrow> 0 | Some c \<Rightarrow> c)"

lemma pick_round_robin_step:
  assumes "length (r_rr_cursors r) = NUM_GROUP_SHARDS" and "members \<noteq> []"
  shows "fst (pick_round_robin n g members r) = members ! (unat (cursor_of r n g) mod length members)"
    and "cursor_of (snd (pick_round_robin n g members r)) n g = cursor_of r n g + 1"
    and "length (r_rr_cursors (snd (pick_round_robin n g members r))) = NUM_GROUP_SHARDS"
  using assms by (auto simp: pick_round_robin_def cursor_of_def Let_def update_conv' split: option.split)

text \<open>A number of deliveries in a row.\<close>

fun repeat_picks :: "nat \<Rightarrow> ('s \<Rightarrow> 'a \<times> 's) \<Rightarrow> 's \<Rightarrow> 'a list \<times> 's" where
  "repeat_picks 0 pick s = ([], s)"
| "repeat_picks (Suc k) pick s =
    (let (p, s) = pick s; (ps, s) = repeat_picks k pick s in (p # ps, s))"

lemma round_robin_picks:
  assumes "length (r_rr_cursors r) = NUM_GROUP_SHARDS" and "members \<noteq> []"
    and "unat (cursor_of r n g) + k \<le> 2 ^ 64"
  shows "fst (repeat_picks k (pick_round_robin n g members) r) =
    map (\<lambda>i. members ! ((unat (cursor_of r n g) + i) mod length members)) [0..<k]"
  using assms
proof (induction k arbitrary: r)
  case (Suc k)
  let ?r' = "snd (pick_round_robin n g members r)"
  note step = pick_round_robin_step [OF Suc.prems(1,2), of n g]
  show ?case
  proof (cases k)
    case 0
    then show ?thesis using step(1) by (simp add: case_prod_unfold Let_def)
  next
    case (Suc j)
    have "Suc (unat (cursor_of r n g)) < 2 ^ 64" using Suc.prems(3) Suc by simp
    then have u: "unat (cursor_of ?r' n g) = Suc (unat (cursor_of r n g))"
      unfolding step(2) by (simp add: unat_word_ariths)
    have "fst (repeat_picks k (pick_round_robin n g members) ?r') =
        map (\<lambda>i. members ! ((Suc (unat (cursor_of r n g)) + i) mod length members)) [0..<k]"
      using Suc.IH [OF step(3) Suc.prems(2)] Suc.prems(3) u by simp
    then show ?thesis
      using step(1) by (simp add: case_prod_unfold Let_def upt_conv_Cons map_Suc_upt [symmetric] del: upt_Suc)
  qed
qed simp

lemma rotate_as_map: "map (\<lambda>i. xs ! ((m + i) mod length xs)) [0..<length xs] = rotate m xs"
  by (rule nth_equalityI) (simp_all add: nth_rotate)

text \<open>Sticky entries.\<close>

lemma fingerprint_client_ids:
  "map sub_client_id ms = map sub_client_id ms' \<Longrightarrow> fingerprint_members ms = fingerprint_members ms'"
proof -
  have "foldl (\<lambda>h m. f h (sub_client_id m)) a ms = foldl f a (map sub_client_id ms)" 
    for f :: "u64 \<Rightarrow> _" and a and ms :: "subscription list"
    by (induction ms arbitrary: a) simp_all
  note this [of "\<lambda>h c. fnv_step (foldl (\<lambda>hash b. fnv_step hash (ucast b)) h (as_bytes c)) 0xff"]
  then show "map sub_client_id ms = map sub_client_id ms' \<Longrightarrow> ?thesis"
    unfolding fingerprint_members_def by simp
qed

lemma find_pinned:
  "m \<in> set ms \<Longrightarrow> \<exists>m'. find (\<lambda>x. sub_client_id x = sub_client_id m) ms = Some m' \<and> sub_client_id m' = sub_client_id m"
  by (induction ms) auto

lemma pick_sticky_entry:
  assumes "length (r_sticky r) = NUM_GROUP_SHARDS" and "members \<noteq> []"
  shows "map_of (r_sticky (snd (pick_sticky n g members r)) ! group_shard g) (n, g) =
    Some \<lparr>se_pinned = sub_client_id (fst (pick_sticky n g members r)), se_fingerprint = fingerprint_members members\<rparr>"
  using assms
  by (auto simp: pick_sticky_def Let_def update_conv' sticky_hit_def find_Some_iff
      split: option.splits if_splits)

lemma pick_sticky_again:
  assumes "length (r_sticky r) = NUM_GROUP_SHARDS" and "members \<noteq> []"
    and ids: "map sub_client_id members' = map sub_client_id members"
  shows "let (p, r') = pick_sticky n g members r; (p', r'') = pick_sticky n g members' r' in
    p' \<in> set members' \<and> sub_client_id p' = sub_client_id p \<and> r'' = r'"
proof -
  let ?p = "fst (pick_sticky n g members r)" and ?r = "snd (pick_sticky n g members r)"
  have "?p \<in> set members" using pick_sticky_frame [OF assms(2)] by blast
  then have "sub_client_id ?p \<in> set (map sub_client_id members')" unfolding ids by simp
  then obtain m where m: "m \<in> set members'" "sub_client_id m = sub_client_id ?p" by auto
  obtain p' where p': "find (\<lambda>x. sub_client_id x = sub_client_id ?p) members' = Some p'"
    "sub_client_id p' = sub_client_id ?p" using find_pinned [OF m(1)] m(2) by auto
  have "sticky_hit (r_sticky ?r ! group_shard g) (n, g) members' = Some p'"
    using pick_sticky_entry [OF assms(1,2), of n g] fingerprint_client_ids [OF ids] p'(1)
    by (simp add: sticky_hit_def)
  then have "pick_sticky n g members' ?r = (p', ?r)" by (simp add: pick_sticky_def Let_def)
  moreover have "p' \<in> set members'" using p'(1) by (auto simp: find_Some_iff)
  ultimately show ?thesis using p'(2) by (simp add: case_prod_unfold Let_def)
qed

end
