(* ===== verification/Router_Runs.thy ===== *)
theory Router_Runs
  imports Router_Laws
begin

text \<open>
  Runs of the router: any sequence of its operations from a new router. The subscriptions follow the
  abstract table of the subscribe and unsubscribe events, all tables stay within their bounds, and
  the match entry points deliver what the table says.
\<close>

section \<open>Runs of the router\<close>

text \<open>
  The states after any sequence of operations, with the subscribe and unsubscribe events of the run
  in order. All other operations may come in between.
\<close>

inductive router_trace :: "'rx regex_engine \<Rightarrow> router_event list \<Rightarrow> 'rx router \<Rightarrow> bool" for rx where
  trace_new: "router_trace rx [] (router_new nanos pid)"
| trace_event: "router_trace rx es r \<Longrightarrow> accepted (event_filter e) \<Longrightarrow>
    router_trace rx (es @ [e]) (snd (do_event e r))"
| trace_set_strategy: "router_trace rx es r \<Longrightarrow> router_trace rx es (snd (set_shared_strategy g name r))"
| trace_clear_strategy: "router_trace rx es r \<Longrightarrow> router_trace rx es (snd (clear_shared_strategy g r))"
| trace_set_rules: "router_trace rx es r \<Longrightarrow> router_trace rx es (snd (set_rewrite_rules rx configs r))"
| trace_clear_rules: "router_trace rx es r \<Longrightarrow> router_trace rx es (clear_rewrite_rules r)"
| trace_rewrite: "router_trace rx es r \<Longrightarrow> router_trace rx es (snd (rewrite_for rx input is_publish r))"
| trace_topic: "router_trace rx es r \<Longrightarrow> router_trace rx es (record_topic name r)"
| trace_match: "router_trace rx es r \<Longrightarrow> router_trace rx es (snd (matches_with_publisher topic publisher r))"
| trace_match_tenant: "router_trace rx es r \<Longrightarrow>
    router_trace rx es (snd (matches_in_tenant_counted topic publisher tenant r))"
| trace_match_tenant_after: "router_trace rx es r \<Longrightarrow>
    router_trace rx es (snd (matches_in_tenant_with_publisher_counted topic publisher tenant r))"

definition spec_table :: "router_event list \<Rightarrow> sub_table" where
  "spec_table es = snd (run_events spec_event es (\<lambda>_. None))"

lemma run_events_snoc: "snd (run_events step (es @ [e]) s) = snd (step e (snd (run_events step es s)))"
  by (induction es arbitrary: s) (simp_all add: case_prod_unfold Let_def)

lemma spec_table_simps [simp]:
  "spec_table [] = (\<lambda>_. None)" "spec_table (es @ [e]) = snd (spec_event e (spec_table es))"
  by (simp_all add: spec_table_def run_events_snoc)

text \<open>The operations that do not touch subscriptions.\<close>

definition subs_frame :: "'rx router \<Rightarrow> 'rx router \<Rightarrow> bool" where
  "subs_frame r r' \<longleftrightarrow> r_root r' = r_root r \<and> r_subscription_count r' = r_subscription_count r \<and>
     r_has_non_default r' = r_has_non_default r"

lemma subs_frame_inv: "subs_frame r r' \<Longrightarrow> router_inv r \<Longrightarrow> router_inv r'"
  using router_table_same [of r' r] by (simp add: subs_frame_def router_inv_def tenants_flagged_def)

lemma delivery_subs_frame: "delivery_frame r r' \<Longrightarrow> subs_frame r r'"
  unfolding delivery_frame_def subs_frame_def by (cases r; cases r') simp

lemma matches_frame: "delivery_frame r (snd (matches_with_publisher topic publisher r))"
  by (simp add: matches_with_publisher_def balance_frame)

lemma matches_in_tenant_frame: "delivery_frame r (snd (matches_in_tenant_counted topic publisher tenant r))"
  by (simp add: matches_in_tenant_counted_def case_prod_unfold Let_def balance_frame)

lemma matches_in_tenant_after_state:
  "snd (matches_in_tenant_with_publisher_counted topic publisher tenant r) =
     snd (matches_with_publisher topic publisher r)"
  by (simp add: matches_in_tenant_with_publisher_counted_def case_prod_unfold Let_def)

lemma config_subs_frame:
  "subs_frame r (snd (set_shared_strategy g name r))" "subs_frame r (snd (clear_shared_strategy g r))"
  "subs_frame r (snd (set_rewrite_rules rx configs r))" "subs_frame r (clear_rewrite_rules r)"
  "subs_frame r (snd (rewrite_for rx input is_publish r))" "subs_frame r (record_topic topic r)"
  by (auto simp: subs_frame_def set_shared_strategy_def clear_shared_strategy_def set_rewrite_rules_def
      clear_rewrite_rules_def rewrite_for_def record_topic_def Let_def split: sum.split option.split)

lemmas trace_frames = config_subs_frame matches_frame [THEN delivery_subs_frame]
  matches_in_tenant_frame [THEN delivery_subs_frame]

lemma subs_frame_table: "subs_frame r r' \<Longrightarrow> router_table r' = router_table r"
  by (rule router_table_same) (simp add: subs_frame_def)

lemma frame_simulates:
  "subs_frame r r' \<Longrightarrow> router_inv r \<and> router_table r = M \<Longrightarrow> router_inv r' \<and> router_table r' = M"
  using subs_frame_inv [of r r'] subs_frame_table [of r r'] by simp

lemma trace_simulates: "router_trace rx es r \<Longrightarrow> router_inv r \<and> router_table r = spec_table es"
proof (induction rule: router_trace.induct)
  case (trace_new nanos pid)
  show ?case by (simp add: router_inv_new)
next
  case (trace_event es r e)
  then have "router_inv r" and t: "router_table r = spec_table es" by simp_all
  with do_event_simulates [of r e] trace_event.hyps show ?case by (simp add: prod_eq_iff)
qed (unfold matches_in_tenant_after_state, (rule frame_simulates, rule trace_frames, assumption)+)

text \<open>The bounds of the other tables.\<close>

definition config_ok :: "'rx router \<Rightarrow> bool" where
  "config_ok r \<longleftrightarrow> length (r_strategies r) \<le> MAX_SHARED_GROUPS \<and> length (r_rewrite_rules r) \<le> MAX_REWRITE_RULES \<and>
     length (r_known_topics r) \<le> MAX_KNOWN_TOPICS \<and> distinct (r_known_topics r)"

lemma compile_rules_length: "compile_rules rx configs = Ok rules \<Longrightarrow> length rules = length configs"
  by (induction configs arbitrary: rules)
    (auto simp: and_then_Inr_iff split: if_splits option.splits)

lemma length_delete_le: "length (AList.delete k xs) \<le> length xs"
  by (simp add: AList.delete_eq)

lemma config_ok_steps:
  assumes "config_ok r"
  shows "config_ok (snd (set_shared_strategy g name r))" "config_ok (snd (clear_shared_strategy g r))"
    "config_ok (snd (set_rewrite_rules rx configs r))" "config_ok (clear_rewrite_rules r)"
    "config_ok (snd (rewrite_for rx input is_publish r))" "config_ok (record_topic topic r)"
    "config_ok (snd (do_event e r))"
proof -
  show "config_ok (snd (set_shared_strategy g name r))"
    using assms by (auto simp: config_ok_def set_shared_strategy_def Let_def length_AList_update split: sum.split)
  show "config_ok (snd (clear_shared_strategy g r))"
    using assms length_delete_le [of g "r_strategies r"] by (auto simp: config_ok_def clear_shared_strategy_def)
  show "config_ok (snd (set_rewrite_rules rx configs r))"
    using assms by (auto simp: config_ok_def set_rewrite_rules_def dest: compile_rules_length split: sum.split)
  show "config_ok (clear_rewrite_rules r)"
    using assms by (auto simp: config_ok_def clear_rewrite_rules_def)
  show "config_ok (snd (rewrite_for rx input is_publish r))"
    using assms by (auto simp: config_ok_def rewrite_for_def Let_def split: option.split)
  show "config_ok (record_topic topic r)"
    using assms by (auto simp: config_ok_def record_topic_def)
  show "config_ok (snd (do_event e r))"
    using assms by (cases e) (auto simp: config_ok_def router_subscribe_def unsubscribe_in_tenant_def Let_def split: prod.split)
qed

lemma delivery_frame_config: "delivery_frame r r' \<Longrightarrow> config_ok r \<Longrightarrow> config_ok r'"
  unfolding delivery_frame_def config_ok_def by (cases r; cases r') simp

lemma delivery_ok_steps:
  assumes "delivery_ok r"
  shows "delivery_ok (snd (set_shared_strategy g name r))" "delivery_ok (snd (clear_shared_strategy g r))"
    "delivery_ok (snd (set_rewrite_rules rx configs r))" "delivery_ok (clear_rewrite_rules r)"
    "delivery_ok (snd (rewrite_for rx input is_publish r))" "delivery_ok (record_topic topic r)"
    "delivery_ok (snd (do_event e r))"
proof -
  show "delivery_ok (snd (do_event e r))"
    using assms by (cases e) (auto simp: delivery_ok_def router_subscribe_def unsubscribe_in_tenant_def Let_def split: prod.split)
qed (use assms in \<open>auto simp: delivery_ok_def set_shared_strategy_def clear_shared_strategy_def set_rewrite_rules_def
      clear_rewrite_rules_def rewrite_for_def record_topic_def Let_def split: sum.split option.split\<close>)

lemma matches_delivery_ok:
  "delivery_ok r \<Longrightarrow> delivery_ok (snd (matches_with_publisher topic publisher r))"
  "delivery_ok r \<Longrightarrow> delivery_ok (snd (matches_in_tenant_counted topic publisher tenant r))"
  by (simp_all add: matches_with_publisher_def matches_in_tenant_counted_def case_prod_unfold Let_def balance_ok)

lemma trace_bounds: "router_trace rx es r \<Longrightarrow> config_ok r \<and> delivery_ok r"
proof (induction rule: router_trace.induct)
  case (trace_new nanos pid)
  show ?case by (simp add: router_new_def config_ok_def delivery_ok_def shards_ok_def)
qed (simp_all add: config_ok_steps delivery_ok_steps matches_delivery_ok matches_in_tenant_after_state
    delivery_frame_config [OF matches_frame] delivery_frame_config [OF matches_in_tenant_frame])

text \<open>Reduction within one tenant, and the fast path.\<close>

lemma one_per_group_tenant:
  assumes "one_per_group S D"
  shows "one_per_group {s \<in> S. sub_tenant s = n} {s \<in> D. sub_tenant s = n}"
proof -
  have "\<exists>!d. d \<in> {s \<in> D. sub_tenant s = n} \<and> group_key d = group_key s"
    if s: "s \<in> S" "sub_tenant s = n" "sub_group s \<noteq> None" for s
  proof -
    have "\<exists>!d. d \<in> D \<and> group_key d = group_key s" using assms s by (simp add: one_per_group_def)
    moreover have "sub_tenant d = n" if "group_key d = group_key s" for d
      using that s by (auto simp: group_key_def)
    ultimately show ?thesis by auto
  qed
  then show ?thesis using assms unfolding one_per_group_def by auto
qed

lemma collect_tenant_set:
  "set (fst (collect_tenant subs n acc)) = set (fst acc) \<union> {s \<in> set subs. sub_tenant s = n}"
  unfolding collect_tenant_def by (induction subs arbitrary: acc) (auto simp: case_prod_unfold)

lemma matches_one_per_group:
  assumes "router_inv r"
  shows "one_per_group (table_matches (router_table r) topic) (set (fst (matches_with_publisher topic publisher r)))"
  using balance_one_per_group [of "match_recursive (r_root r) (topic_as_str topic) []" topic publisher r]
    walk_table_matches [OF assms, of topic]
  by (simp add: matches_with_publisher_def)

lemma default_tenant_only:
  assumes "router_inv r" and "\<not> r_has_non_default r" and "s \<in> table_matches (router_table r) topic"
  shows "sub_tenant s = DEFAULT_TENANT_ID"
proof (rule ccontr)
  assume "sub_tenant s \<noteq> DEFAULT_TENANT_ID"
  with assms show False by (auto simp: router_inv_def tenants_flagged_def table_matches_def)
qed

lemma matches_after_in_tenant:
  assumes "router_inv r"
  shows "set (fst (fst (matches_in_tenant_with_publisher_counted topic publisher n r))) =
    {s \<in> set (fst (matches_with_publisher topic publisher r)). sub_tenant s = n}"
proof -
  let ?m = "matches_with_publisher topic publisher r"
  have flag: "r_has_non_default (snd ?m) = r_has_non_default r"
    using trace_frames(7) [of r topic publisher] by (simp add: subs_frame_def)
  have "sub_tenant s = DEFAULT_TENANT_ID" if "\<not> r_has_non_default r" "s \<in> set (fst ?m)" for s
    using default_tenant_only [OF assms that(1)] matches_one_per_group [OF assms, of topic publisher] that(2)
    by (auto simp: one_per_group_def)
  then show ?thesis
    by (auto simp: matches_in_tenant_with_publisher_counted_def case_prod_unfold Let_def flag collect_tenant_set)
qed

lemma matches_before_in_tenant:
  assumes "router_inv r"
  shows "one_per_group {s \<in> table_matches (router_table r) topic. sub_tenant s = n}
    (set (fst (fst (matches_in_tenant_counted topic publisher n r))))"
proof -
  have inv: "trie_inv (r_root r)" using assms by (simp add: router_inv_def root_inv_def)
  have "set (fst (match_recursive_in_tenant (r_root r) (topic_as_str topic) n ([], 0))) =
      {s \<in> table_matches (router_table r) topic. sub_tenant s = n}"
    unfolding match_in_tenant_matching [OF inv] walk_table_matches [OF assms, symmetric]
      match_recursive_matching [OF inv] by simp
  with balance_one_per_group [of "fst (match_recursive_in_tenant (r_root r) (topic_as_str topic) n ([], 0))" topic publisher r]
  show ?thesis by (simp add: matches_in_tenant_counted_def case_prod_unfold Let_def)
qed

lemma empty_table_empty_root:
  assumes "router_inv r" and "router_table r = (\<lambda>_. None)"
  shows "r_root r = empty_node"
proof (rule trie_without_entries)
  show "trie_inv (r_root r)" using assms(1) by (simp add: router_inv_def root_inv_def)
  fix ls assume h: "hash_last ls"
  show "subs_at (r_root r) ls = []"
  proof (rule ccontr)
    assume ne: "subs_at (r_root r) ls \<noteq> []"
    then obtain s rest where s: "subs_at (r_root r) ls = s # rest" by (cases "subs_at (r_root r) ls") auto
    obtain f where "ls = levels f" using assms(1) h ne by (auto simp: router_inv_def stored_filters_def)
    with s h have "router_table r (f, sub_client_id s, sub_tenant s) = Some s"
      by (simp add: router_table_def table_of_def owned_by_def)
    with assms(2) show False by simp
  qed
qed

section \<open>Properties\<close>

text \<open>A concrete run: an engine that matches literally, one plain and two shared subscriptions.\<close>

definition literal_engine :: "string regex_engine" where
  "literal_engine = \<lparr>regex_new = Some, regex_is_match = (=), regex_replace = (\<lambda>_ _ rep. rep)\<rparr>"

definition example_events :: "router_event list" where
  "example_events =
     [Subscribe (TopicFilter ''a/+'') (sub_new ''p'' 1 AtLeastOnce),
      Subscribe (TopicFilter ''a/b'') (sub_shared ''x'' 2 AtMostOnce ''g''),
      Subscribe (TopicFilter ''#'') (sub_shared ''y'' 3 AtMostOnce ''g'')]"

definition example_router :: "string router" where
  "example_router = snd (run_events do_event example_events (router_new None 0))"

lemma accepted_examples [simp]:
  "accepted (TopicFilter ''a/+'')" "accepted (TopicFilter ''a/b'')" "accepted (TopicFilter ''#'')"
  by (simp_all add: accepted_def filter_new_def filter_validate_def)

lemma trace_events:
  "router_trace rx es r \<Longrightarrow> \<forall>e\<in>set es'. accepted (event_filter e) \<Longrightarrow>
   router_trace rx (es @ es') (snd (run_events do_event es' r))"
proof (induction es' arbitrary: es r)
  case (Cons e es')
  then have "router_trace rx (es @ [e]) (snd (do_event e r))" by (simp add: trace_event)
  from Cons.IH [OF this] Cons.prems(2) show ?case by (simp add: case_prod_unfold Let_def)
qed simp

lemma example_trace: "router_trace literal_engine example_events example_router"
  using trace_events [OF trace_new, of example_events literal_engine None 0]
  by (simp add: example_router_def example_events_def)

abbreviation sub_p :: subscription where "sub_p \<equiv> sub_new ''p'' 1 AtLeastOnce"
abbreviation sub_x :: subscription where "sub_x \<equiv> sub_shared ''x'' 2 AtMostOnce ''g''"
abbreviation sub_y :: subscription where "sub_y \<equiv> sub_shared ''y'' 3 AtMostOnce ''g''"

lemma example_table:
  "spec_table example_events = (\<lambda>_. None)
     ((''a/+'', ''p'', DEFAULT_TENANT_ID) \<mapsto> sub_p, (''a/b'', ''x'', DEFAULT_TENANT_ID) \<mapsto> sub_x,
      (''#'', ''y'', DEFAULT_TENANT_ID) \<mapsto> sub_y)"
  by (simp add: spec_table_def example_events_def sub_new_def sub_shared_def MAX_SUBSCRIPTIONS_def)

lemma example_matches: "table_matches (spec_table example_events) (Topic ''a/b'') = {sub_p, sub_x, sub_y}"
proof (intro equalityI subsetI)
  fix s assume "s \<in> {sub_p, sub_x, sub_y}"
  then show "s \<in> table_matches (spec_table example_events) (Topic ''a/b'')"
    unfolding table_matches_def example_table
    by (elim insertE emptyE; intro CollectI)
      (rule exI [of _ "''a/+''"] exI [of _ "''a/b''"] exI [of _ "''#''"];
       simp add: filter_matches_levels level_ok_def sub_new_def sub_shared_def)+
qed (auto simp: table_matches_def example_table split: if_splits)

text \<open>
  C8. Refinement: after any run, the answers and the subscriptions of the router are those of a table
  from filter, client and tenant to a subscription with a cap: a new entry is refused exactly when
  the table holds the maximum, a subscribe of the same owner replaces its entry, an unsubscribe
  removes one entry, and the reported count is the size of the table.
\<close>

theorem router_refines_table:
  assumes "router_trace rx es r" and "accepted (event_filter e)"
  shows "fst (do_event e r) = fst (spec_event e (spec_table es)) \<and>
    router_table (snd (do_event e r)) = snd (spec_event e (spec_table es)) \<and>
    subscription_count r = card (dom (spec_table es))"
  using trace_simulates [OF assms(1)] do_event_simulates [OF _ assms(2), of r]
  by (auto simp: prod_eq_iff subscription_count_def router_inv_def)

theorem router_refines_table_witness:
  "fst (do_event (Subscribe (TopicFilter ''a/b'') sub_p) example_router) = Some True \<and>
   subscription_count example_router = 3"
  using router_refines_table [OF example_trace, of "Subscribe (TopicFilter ''a/b'') sub_p"]
  by (simp add: example_table Let_def MAX_SUBSCRIPTIONS_def)

text \<open>
  C9. Delivery: the set that a match returns contains every plain subscription whose filter matches
  the topic, exactly one member of every shared group (per tenant) that has a matching
  subscription, and nothing else.
\<close>

theorem match_delivers_table:
  assumes "router_trace rx es r"
  shows "one_per_group (table_matches (spec_table es) topic) (set (fst (matches_with_publisher topic publisher r)))"
  using trace_simulates [OF assms] matches_one_per_group [of r topic publisher] by simp

theorem match_delivers_table_witness:
  "one_per_group {sub_p, sub_x, sub_y} (set (fst (matches_with_publisher (Topic ''a/b'') (Some ''q'') example_router)))"
  using match_delivers_table [OF example_trace, of "Topic ''a/b''" "Some ''q''"] by (simp only: example_matches)

text \<open>
  C10. Tenant isolation: both tenant-scoped match entry points return, of the subscriptions of that
  tenant only, every plain one that matches and one member of each matching group. The fast path
  that skips the tenant filter while only the default tenant is in use changes nothing.
\<close>

theorem tenant_delivery:
  assumes "router_trace rx es r"
  shows "one_per_group {s \<in> table_matches (spec_table es) topic. sub_tenant s = n}
      (set (fst (fst (matches_in_tenant_counted topic publisher n r)))) \<and>
    one_per_group {s \<in> table_matches (spec_table es) topic. sub_tenant s = n}
      (set (fst (fst (matches_in_tenant_with_publisher_counted topic publisher n r))))"
proof -
  have inv: "router_inv r" and t: "router_table r = spec_table es" using trace_simulates [OF assms] by simp_all
  have "one_per_group {s \<in> table_matches (spec_table es) topic. sub_tenant s = n}
      (set (fst (fst (matches_in_tenant_counted topic publisher n r))))"
    using matches_before_in_tenant [OF inv] by (simp add: t)
  moreover have "one_per_group {s \<in> table_matches (spec_table es) topic. sub_tenant s = n}
      (set (fst (fst (matches_in_tenant_with_publisher_counted topic publisher n r))))"
    unfolding matches_after_in_tenant [OF inv] t [symmetric]
    by (rule one_per_group_tenant [OF matches_one_per_group [OF inv]])
  ultimately show ?thesis by simp
qed

theorem tenant_delivery_witness:
  "one_per_group {sub_p, sub_x, sub_y}
     (set (fst (fst (matches_in_tenant_counted (Topic ''a/b'') None DEFAULT_TENANT_ID example_router)))) \<and>
   set (fst (fst (matches_in_tenant_with_publisher_counted (Topic ''a/b'') None ''other'' example_router))) = {}"
proof -
  have own: "{s \<in> {sub_p, sub_x, sub_y}. sub_tenant s = DEFAULT_TENANT_ID} = {sub_p, sub_x, sub_y}"
    and other: "{s \<in> {sub_p, sub_x, sub_y}. sub_tenant s = ''other''} = {}"
    by (auto simp: sub_new_def sub_shared_def DEFAULT_TENANT_ID_def)
  note tenant_delivery [OF example_trace, of "Topic ''a/b''" DEFAULT_TENANT_ID None, unfolded example_matches own]
    tenant_delivery [OF example_trace, of "Topic ''a/b''" "''other''" None, unfolded example_matches other]
  then show ?thesis by (simp add: one_per_group_def [of "{}"])
qed

text \<open>
  C11. Bounds: after any run the subscriptions, the group strategies, the round-robin cursors, the
  sticky entries, the rewrite rules and the topic index itself are within their constants. The index
  has no duplicates, and its listing, which is cut at the constant, leaves nothing out.
\<close>

theorem router_bounded:
  assumes "router_trace rx es r"
  shows "subscription_count r \<le> MAX_SUBSCRIPTIONS \<and> shared_strategy_count r \<le> MAX_SHARED_GROUPS \<and>
    rr_cursor_count r \<le> MAX_SHARED_GROUPS \<and> sticky_count r \<le> MAX_SHARED_GROUPS \<and>
    rewrite_rule_count r \<le> MAX_REWRITE_RULES \<and> length (r_known_topics r) \<le> MAX_KNOWN_TOPICS \<and>
    distinct (r_known_topics r) \<and> list_topics r = sort (r_known_topics r)"
  using trace_simulates [OF assms] trace_bounds [OF assms]
  by (auto simp: subscription_count_def router_inv_def config_ok_def delivery_ok_def shared_strategy_count_def
      rr_cursor_count_def sticky_count_def rewrite_rule_count_def list_topics_def shards_ok_total)

theorem router_bounded_witness:
  "subscription_count example_router \<le> 100000 \<and> rr_cursor_count example_router \<le> 1024
   \<and> length (r_known_topics example_router) \<le> MAX_KNOWN_TOPICS"
  using router_bounded [OF example_trace] by (simp add: MAX_SUBSCRIPTIONS_def MAX_SHARED_GROUPS_def)

text \<open>
  C12. No residue: when every subscription was removed again the trie is the empty node of a new
  router, whatever filters were used before.
\<close>

theorem router_no_residue:
  assumes "router_trace rx es r" and "spec_table es = (\<lambda>_. None)"
  shows "r_root r = empty_node \<and> r_subscription_count r = 0"
proof -
  have inv: "router_inv r" and t: "router_table r = (\<lambda>_. None)"
    using trace_simulates [OF assms(1)] assms(2) by simp_all
  have "unat (r_subscription_count r) = 0" using inv unfolding router_inv_def t by simp
  then show ?thesis using empty_table_empty_root [OF inv t] by (simp add: unat_eq_0)
qed

theorem router_no_residue_witness:
  "r_root (unsubscribe_in_tenant (TopicFilter ''a/b'') ''p'' DEFAULT_TENANT_ID
     (snd (router_subscribe (TopicFilter ''a/b'') sub_p (router_new None 0 :: string router)))) = empty_node"
proof -
  let ?es = "[Subscribe (TopicFilter ''a/b'') sub_p, Unsubscribe (TopicFilter ''a/b'') ''p'' DEFAULT_TENANT_ID]"
  have tr: "router_trace literal_engine ?es (snd (run_events do_event ?es (router_new None 0)))"
    using trace_events [OF trace_new, of ?es literal_engine None 0] by simp
  have "spec_table ?es = (\<lambda>_. None)"
    by (simp add: spec_table_def MAX_SUBSCRIPTIONS_def sub_new_def)
  from router_no_residue [OF tr this] show ?thesis by (simp add: case_prod_unfold Let_def)
qed

text \<open>
  C13. Fairness of round robin: as many deliveries in a row as the group has members give every
  member exactly one message, in client order from the cursor on (as long as the cursor does not
  wrap during them).
\<close>

theorem round_robin_fair:
  assumes "router_trace rx es r" and "members \<noteq> []" and "unat (cursor_of r n g) + length members \<le> 2 ^ 64"
  shows "fst (repeat_picks (length members) (pick_round_robin n g members) r) =
    rotate (unat (cursor_of r n g)) members"
  using round_robin_picks [OF _ assms(2,3)] trace_bounds [OF assms(1)]
  by (simp add: delivery_ok_def shards_ok_def rotate_as_map)

theorem round_robin_fair_witness:
  "fst (repeat_picks (length [sub_x, sub_y]) (pick_round_robin DEFAULT_TENANT_ID ''g'' [sub_x, sub_y]) (router_new None 0 :: string router)) =
   [sub_x, sub_y]"
proof -
  have "cursor_of (router_new None 0 :: string router) DEFAULT_TENANT_ID ''g'' = 0"
    by (simp add: cursor_of_def router_new_def)
  with round_robin_fair [OF trace_new [of literal_engine None 0], of "[sub_x, sub_y]" DEFAULT_TENANT_ID "''g''"]
  show ?thesis by (simp del: repeat_picks.simps)
qed

text \<open>
  Affinity of the sticky strategy: after one delivery to a group, the next one with the same
  client identifiers goes to the same client, through its current subscription, and leaves the
  router unchanged.
\<close>

theorem sticky_stable:
  assumes "router_trace rx es r" and "members \<noteq> []" and "map sub_client_id members' = map sub_client_id members"
  shows "let (p, r') = pick_sticky n g members r; (p', r'') = pick_sticky n g members' r' in
    p' \<in> set members' \<and> sub_client_id p' = sub_client_id p \<and> r'' = r'"
  using pick_sticky_again [OF _ assms(2,3), of r n g] trace_bounds [OF assms(1)]
  by (simp add: delivery_ok_def shards_ok_def)

theorem sticky_stable_witness:
  "let (p, r') = pick_sticky DEFAULT_TENANT_ID ''g'' [sub_x, sub_y] (router_new None 0 :: string router);
       (p', r'') = pick_sticky DEFAULT_TENANT_ID ''g'' [sub_x\<lparr>sub_conn_id := 9\<rparr>, sub_y] r' in
   p' \<in> {sub_x\<lparr>sub_conn_id := 9\<rparr>, sub_y} \<and> sub_client_id p' = sub_client_id p \<and> r'' = r'"
  using sticky_stable [OF trace_new [of literal_engine None 0], of "[sub_x, sub_y]"
      "[sub_x\<lparr>sub_conn_id := 9\<rparr>, sub_y]" DEFAULT_TENANT_ID "''g''"]
  by simp

text \<open>
  Topic rewriting: the result is the replacement of the first rule in scope that matches, at
  most the maximal length; names that are empty, too long or start with a dollar sign are never
  rewritten; and each call moves exactly one of the three counters by one and nothing else.
\<close>

theorem rewrite_outcome:
  "let (out, r') = rewrite_for rx input is_publish r in
   (case out of
      Some s \<Rightarrow> length s \<le> MAX_REWRITE_LEN \<and> length input \<le> MAX_REWRITE_LEN \<and> input \<noteq> [] \<and> hd input \<noteq> CHR ''$'' \<and>
        (\<exists>rule. first_match rx is_publish input (r_rewrite_rules r) = Some rule \<and>
           s = regex_replace rx (cr_regex rule) input (cr_replacement rule)) \<and>
        r' = r\<lparr>r_rewrite_rewritten := r_rewrite_rewritten r + 1\<rparr>
    | None \<Rightarrow> r' = r\<lparr>r_rewrite_passthrough := r_rewrite_passthrough r + 1\<rparr> \<and>
          (input = [] \<or> hd input = CHR ''$'' \<or> first_match rx is_publish input (r_rewrite_rules r) = None)
        \<or> r' = r\<lparr>r_rewrite_budget_exceeded := r_rewrite_budget_exceeded r + 1\<rparr> \<and>
          (length input > MAX_REWRITE_LEN \<or>
           (\<exists>rule. first_match rx is_publish input (r_rewrite_rules r) = Some rule \<and>
              length (regex_replace rx (cr_regex rule) input (cr_replacement rule)) > MAX_REWRITE_LEN)))"
  by (auto simp: rewrite_for_def Let_def split: option.split)

end
