(* ===== verification/Offline_Store.thy ===== *)
theory Offline_Store
  imports Subscriptions "HOL-Library.Product_Lexorder"
begin

text \<open>
  The durable backing of the offline queues (\<^verbatim>\<open>crates/broker-storage/src/offline.rs\<close>): the binary
  record, its frame with a checksum, the scan that recovers the good prefix of a queue file, the
  file names that keep the tenants apart, and the operations of the store. The directory is an
  association list from file names to their bytes. What the operating system answers is an
  argument of each operation: an I/O step may succeed, fail, or leave a part of the bytes behind.
\<close>

section \<open>Records and frames\<close>

definition MAX_FRAME_BYTES :: nat where
  "MAX_FRAME_BYTES = 300000000"

definition MIN_RECORD_BYTES :: nat where
  "MIN_RECORD_BYTES = 1 + 1 + 8 + 4 + 4"

definition MAX_TOPIC_BYTES :: nat where
  "MAX_TOPIC_BYTES = 65535"

definition MAX_PAYLOAD_BYTES :: nat where
  "MAX_PAYLOAD_BYTES = 268435456"

definition NO_TIMESTAMP :: u64 where
  "NO_TIMESTAMP = 0xFFFFFFFFFFFFFFFF"

datatype fsync_policy = EveryWrite | NoSync

record offline_record =
  or_topic :: topic
  or_qos :: qos
  or_retain :: bool
  or_payload :: bytes
  or_publish_at_ms :: "u64 option"

text \<open>Little-endian integers.\<close>

definition u32_to_le :: "u32 \<Rightarrow> bytes" where
  "u32_to_le w = rev (u32_to_be w)"

definition u64_to_le :: "u64 \<Rightarrow> bytes" where
  "u64_to_le w = rev (u64_to_be w)"

definition u32_from_le :: "bytes \<Rightarrow> u32" where
  "u32_from_le bs = u32_from_be (rev bs)"

definition u64_from_le :: "bytes \<Rightarrow> u64" where
  "u64_from_le bs = u64_from_be (rev bs)"

definition crc_bit :: "u32 \<Rightarrow> u32" where
  "crc_bit crc = (if crc AND 1 = 1 then drop_bit 1 crc XOR 0xEDB88320 else drop_bit 1 crc)"

definition crc_byte :: "u32 \<Rightarrow> u8 \<Rightarrow> u32" where
  "crc_byte crc b = (crc_bit ^^ 8) (crc XOR ucast b)"

definition crc32 :: "bytes \<Rightarrow> u32" where
  "crc32 data = NOT (foldl crc_byte 0xFFFFFFFF data)"

definition encode_record :: "offline_record \<Rightarrow> bytes" where
  "encode_record r =
     (let topic = as_bytes (topic_as_str (or_topic r)) in
      [qos_to_u8 (or_qos r), if or_retain r then 1 else 0]
      @ u64_to_le (case or_publish_at_ms r of Some t \<Rightarrow> t | None \<Rightarrow> NO_TIMESTAMP)
      @ u32_to_le (of_nat (length topic)) @ topic
      @ u32_to_le (of_nat (length (or_payload r))) @ or_payload r)"

text \<open>The closure \<open>take\<close> of the decoder: the next \<open>n\<close> bytes and what follows them.\<close>

definition take_bytes :: "nat \<Rightarrow> bytes \<Rightarrow> (bytes \<times> bytes) option" where
  "take_bytes n bs = (if length bs < n then None else Some (take n bs, drop n bs))"

definition decode_record :: "bytes \<Rightarrow> offline_record option" where
  "decode_record bs0 =
     Option.bind (take_bytes 1 bs0) (\<lambda>(q, bs1).
     case qos_try_from (hd q) of Err _ \<Rightarrow> None | Ok qos \<Rightarrow>
     Option.bind (take_bytes 1 bs1) (\<lambda>(rt, bs2).
     if 1 < hd rt then None else
     Option.bind (take_bytes 8 bs2) (\<lambda>(ts, bs3).
     Option.bind (take_bytes 4 bs3) (\<lambda>(tl, bs4).
     let stamp = u64_from_le ts; topic_len = unat (u32_from_le tl) in
     if topic_len = 0 \<or> MAX_TOPIC_BYTES < topic_len then None else
     Option.bind (take_bytes topic_len bs4) (\<lambda>(tb, bs5).
     Option.bind (from_utf8 tb) (\<lambda>topic_str.
     case topic_new topic_str of Err _ \<Rightarrow> None | Ok topic \<Rightarrow>
     Option.bind (take_bytes 4 bs5) (\<lambda>(pl, bs6).
     let payload_len = unat (u32_from_le pl) in
     if MAX_PAYLOAD_BYTES < payload_len then None else
     Option.bind (take_bytes payload_len bs6) (\<lambda>(payload, bs7).
     if bs7 \<noteq> [] then None else
     Some \<lparr>or_topic = topic, or_qos = qos, or_retain = (hd rt = 1), or_payload = payload,
           or_publish_at_ms = (if stamp = NO_TIMESTAMP then None else Some stamp)\<rparr>))))))))"

definition encode_frame :: "bytes \<Rightarrow> bytes" where
  "encode_frame rb = u32_to_le (of_nat (length rb)) @ rb @ u32_to_le (crc32 rb)"

function scan_loop ::
  "bytes \<Rightarrow> nat \<Rightarrow> offline_record list \<Rightarrow> offline_record list \<times> nat \<times> bool" where
  "scan_loop rest pos records =
     (if rest = [] then (records, pos, True)
      else if length rest < 4 then (records, pos, False)
      else let len = unat (u32_from_le (take 4 rest)) in
        if len < MIN_RECORD_BYTES \<or> MAX_FRAME_BYTES < len then (records, pos, False)
        else if length rest - 4 < len + 4 then (records, pos, False)
        else let record_bytes = take len (drop 4 rest);
                 stored = u32_from_le (take 4 (drop (4 + len) rest)) in
          if crc32 record_bytes \<noteq> stored then (records, pos, False)
          else case decode_record record_bytes of
            None \<Rightarrow> (records, pos, False)
          | Some record \<Rightarrow> scan_loop (drop (len + 8) rest) (pos + len + 8) (records @ [record]))"
  by pat_completeness auto
termination
  by (relation "measure (\<lambda>(rest, _, _). length rest)") auto

declare scan_loop.simps [simp del]

definition scan_file :: "bytes \<Rightarrow> offline_record list \<times> nat \<times> bool" where
  "scan_file bs = scan_loop bs 0 []"

section \<open>File names\<close>

definition plain_byte :: "u8 \<Rightarrow> bool" where
  "plain_byte b \<longleftrightarrow> 65 \<le> b \<and> b \<le> 90 \<or> 97 \<le> b \<and> b \<le> 122 \<or> 48 \<le> b \<and> b \<le> 57
     \<or> b = 45 \<or> b = 95 \<or> b = 46"

definition hex_digit :: "nat \<Rightarrow> char" where
  "hex_digit n = (if n < 10 then char_of (48 + n) else char_of (55 + n))"

definition encode_byte :: "u8 \<Rightarrow> string" where
  "encode_byte b =
     (if plain_byte b then [char_of (unat b)]
      else [CHR ''%'', hex_digit (unat b div 16), hex_digit (unat b mod 16)])"

definition encode_client :: "string \<Rightarrow> string" where
  "encode_client s = concat (map encode_byte (as_bytes s))"

text \<open>
  \<open>u8::from_str_radix(_, 16)\<close>: an optional plus sign with at least one digit after it, then digits
  of either case; anything else and an overflow are errors.
\<close>

definition hex_value :: "char \<Rightarrow> nat option" where
  "hex_value c =
     (let n = of_char c :: nat in
      if 48 \<le> n \<and> n \<le> 57 then Some (n - 48)
      else if 65 \<le> n \<and> n \<le> 70 then Some (n - 55)
      else if 97 \<le> n \<and> n \<le> 102 then Some (n - 87)
      else None)"

fun hex_fold :: "nat \<Rightarrow> string \<Rightarrow> nat option" where
  "hex_fold acc [] = Some acc"
| "hex_fold acc (c # cs) =
    (case hex_value c of
       None \<Rightarrow> None
     | Some d \<Rightarrow> if 255 < acc * 16 + d then None else hex_fold (acc * 16 + d) cs)"

definition u8_from_hex :: "string \<Rightarrow> u8 option" where
  "u8_from_hex s =
     (let digits = (case s of c # cs \<Rightarrow> if c = CHR ''+'' then cs else s | [] \<Rightarrow> []) in
      if digits = [] then None else map_option of_nat (hex_fold 0 digits))"

fun decode_client_loop :: "bytes \<Rightarrow> bytes option" where
  "decode_client_loop [] = Some []"
| "decode_client_loop (b # bs) =
    (if b = 37 then
       (case bs of
          h # l # rest \<Rightarrow>
            Option.bind (from_utf8 [h, l]) (\<lambda>hex.
            Option.bind (u8_from_hex hex) (\<lambda>v.
            map_option (\<lambda>out. v # out) (decode_client_loop rest)))
        | _ \<Rightarrow> None)
     else map_option (\<lambda>out. b # out) (decode_client_loop bs))"

definition decode_client :: "string \<Rightarrow> string option" where
  "decode_client encoded = Option.bind (decode_client_loop (as_bytes encoded)) from_utf8"

definition decode_key :: "string \<Rightarrow> (string \<times> string) option" where
  "decode_key stem =
     (case split_once (CHR ''+'') stem of
        None \<Rightarrow> map_option (\<lambda>client_id. (DEFAULT_TENANT_ID, client_id)) (decode_client stem)
      | Some (tenant_enc, client_enc) \<Rightarrow>
          if tenant_enc = [] \<or> client_enc = [] then None
          else if CHR ''+'' \<in> set client_enc then None
          else Option.bind (decode_client tenant_enc) (\<lambda>tenant.
               Option.bind (decode_client client_enc) (\<lambda>client_id.
               if tenant = [] \<or> client_id = [] then None else Some (tenant, client_id))))"

datatype storage_error = NotFound u64 | Engine string

definition log_path :: "string \<Rightarrow> storage_error + string" where
  "log_path client_id =
     (if client_id = [] then Err (Engine ''client id must not be empty'')
      else Ok (encode_client client_id @ ''.log''))"

definition log_path_for :: "string \<Rightarrow> string \<Rightarrow> storage_error + string" where
  "log_path_for tenant client_id =
     (if client_id = [] then Err (Engine ''client id must not be empty'')
      else if tenant = [] then Err (Engine ''tenant id must not be empty'')
      else if tenant = DEFAULT_TENANT_ID then log_path client_id
      else Ok (encode_client tenant @ ''+'' @ encode_client client_id @ ''.log''))"

text \<open>\<open>s.strip_suffix(p)\<close>.\<close>

definition strip_suffix :: "string \<Rightarrow> string \<Rightarrow> string option" where
  "strip_suffix p s =
     (if length p \<le> length s \<and> drop (length s - length p) s = p
      then Some (take (length s - length p) s) else None)"

section \<open>The store\<close>

record offline_store =
  os_files :: "(string \<times> bytes) list"
  os_fsync :: fsync_policy
  os_recovery_torn :: u64
  os_persist_failed :: u64
  os_tmp_seq :: u64

text \<open>
  Outcomes of the system calls. A failed write may have put a first part of the bytes into the
  file; a failed flush or sync has written all of them.
\<close>

datatype append_io = App_ok | App_open_err | App_write_err nat | App_flush_err | App_sync_err
datatype rewrite_io = Rw_ok | Rw_create_err | Rw_write_err nat | Rw_flush_err | Rw_sync_err | Rw_rename_err
datatype load_io = Load_ok | Load_read_err

text \<open>
  The answer to a listing of the directory: it cannot be read, or it is read, and then \<open>listed\<close> tells
  of each name whether its entry came without an error and was found to be a regular file.
\<close>

datatype dir_io = Dir_err | Dir_read "string \<Rightarrow> bool"

fun listing :: "dir_io \<Rightarrow> (string \<times> bytes) list \<Rightarrow> string list" where
  "listing Dir_err files = []"
| "listing (Dir_read listed) files = filter listed (map fst files)"

definition bump_failed :: "offline_store \<Rightarrow> offline_store" where
  "bump_failed st = st\<lparr>os_persist_failed := os_persist_failed st + 1\<rparr>"

definition bump_torn :: "offline_store \<Rightarrow> offline_store" where
  "bump_torn st = st\<lparr>os_recovery_torn := os_recovery_torn st + 1\<rparr>"

definition file_bytes :: "offline_store \<Rightarrow> string \<Rightarrow> bytes" where
  "file_bytes st name = (case map_of (os_files st) name of None \<Rightarrow> [] | Some bs \<Rightarrow> bs)"

definition write_file :: "string \<Rightarrow> bytes \<Rightarrow> offline_store \<Rightarrow> offline_store" where
  "write_file name bs st = st\<lparr>os_files := AList.update name bs (os_files st)\<rparr>"

definition unlink_file :: "string \<Rightarrow> offline_store \<Rightarrow> offline_store" where
  "unlink_file name st = st\<lparr>os_files := AList.delete name (os_files st)\<rparr>"

text \<open>
  \<open>unlink_ok\<close> answers for each orphan whether its removal succeeded; an unreadable directory is
  the case where none is removed.
\<close>

definition sweep_orphan_tmps ::
  "(string \<Rightarrow> bool) \<Rightarrow> (string \<times> bytes) list \<Rightarrow> (string \<times> bytes) list" where
  "sweep_orphan_tmps unlink_ok files =
     filter (\<lambda>(name, _). \<not> (strip_suffix ''.tmp'' name \<noteq> None \<and> unlink_ok name)) files"

text \<open>\<open>created\<close> is the error of the creation of the directory, if it fails.\<close>

definition open_with_config ::
  "string option \<Rightarrow> (string \<Rightarrow> bool) \<Rightarrow> fsync_policy \<Rightarrow> (string \<times> bytes) list \<Rightarrow> storage_error + offline_store" where
  "open_with_config created unlink_ok fsync files =
     (case created of
        Some e \<Rightarrow> Err (Engine (''cannot create offline dir '' @ e))
      | None \<Rightarrow>
          Ok \<lparr>os_files = sweep_orphan_tmps unlink_ok files, os_fsync = fsync, os_recovery_torn = 0,
              os_persist_failed = 0, os_tmp_seq = 0\<rparr>)"

definition client_ids :: "dir_io \<Rightarrow> offline_store \<Rightarrow> string list" where
  "client_ids io st =
     sort (List.map_filter (\<lambda>name.
       Option.bind (strip_suffix ''.log'' name) (\<lambda>stem.
         if CHR ''+'' \<in> set stem then None else decode_client stem)) (listing io (os_files st)))"

definition queue_keys :: "dir_io \<Rightarrow> offline_store \<Rightarrow> (string \<times> string) list" where
  "queue_keys io st =
     sort (List.map_filter (\<lambda>name.
       Option.bind (strip_suffix ''.log'' name) decode_key) (listing io (os_files st)))"

definition append_in_tenant ::
  "append_io \<Rightarrow> string \<Rightarrow> string \<Rightarrow> offline_record \<Rightarrow> offline_store
   \<Rightarrow> (storage_error + unit) \<times> offline_store" where
  "append_in_tenant io tenant client_id record st =
     (case log_path_for tenant client_id of
        Err e \<Rightarrow> (Err e, st)
      | Ok path \<Rightarrow>
          let frame = encode_frame (encode_record record);
              after = (\<lambda>bs. write_file path (file_bytes st path @ bs) st) in
          case io of
            App_open_err \<Rightarrow> (Err (Engine (''cannot open offline log '' @ path)), bump_failed st)
          | App_write_err n \<Rightarrow>
              (Err (Engine (''cannot append to offline log '' @ path)),
               bump_failed (after (take n frame)))
          | App_flush_err \<Rightarrow>
              (Err (Engine (''cannot flush offline log '' @ path)), bump_failed (after frame))
          | App_sync_err \<Rightarrow>
              if os_fsync st = EveryWrite
              then (Err (Engine (''cannot fsync offline log '' @ path)), bump_failed (after frame))
              else (Ok (), after frame)
          | App_ok \<Rightarrow> (Ok (), after frame))"

definition store_append where
  "store_append io client_id record = append_in_tenant io DEFAULT_TENANT_ID client_id record"

text \<open>A torn tail is cut off when the truncation succeeds (it is best effort).\<close>

definition load_in_tenant ::
  "load_io \<Rightarrow> bool \<Rightarrow> string \<Rightarrow> string \<Rightarrow> offline_store
   \<Rightarrow> (offline_record list \<times> u64) \<times> offline_store" where
  "load_in_tenant io truncate_ok tenant client_id st =
     (case log_path_for tenant client_id of
        Err _ \<Rightarrow> (([], 0), st)
      | Ok path \<Rightarrow>
          if io = Load_read_err then (([], 1), bump_torn st)
          else (case map_of (os_files st) path of
             None \<Rightarrow> (([], 0), st)
           | Some bs \<Rightarrow>
               let (records, last_good, complete) = scan_file bs in
                 if \<not> complete
                 then ((records, 1),
                       bump_torn (if truncate_ok then write_file path (take last_good bs) st else st))
                 else ((records, 0), st)))"

definition store_load where
  "store_load io truncate_ok client_id = load_in_tenant io truncate_ok DEFAULT_TENANT_ID client_id"

text \<open>Removing a file that is not there changes nothing and is not a failure.\<close>

definition remove_in_tenant :: "bool \<Rightarrow> string \<Rightarrow> string \<Rightarrow> offline_store \<Rightarrow> offline_store" where
  "remove_in_tenant unlink_ok tenant client_id st =
     (case log_path_for tenant client_id of
        Err _ \<Rightarrow> st
      | Ok path \<Rightarrow>
          if unlink_ok then unlink_file path st else bump_failed st)"

definition store_remove where
  "store_remove unlink_ok client_id = remove_in_tenant unlink_ok DEFAULT_TENANT_ID client_id"

definition tmp_name :: "string \<Rightarrow> string \<Rightarrow> nat \<Rightarrow> u64 \<Rightarrow> string" where
  "tmp_name tenant client_id pid seq =
     ''.'' @ encode_client tenant @ ''.'' @ encode_client client_id @ ''.'' @ show_nat pid @ ''.''
     @ show_nat (unat seq) @ ''.tmp''"

text \<open>
  The records are written to a fresh temporary file, which is renamed over the queue file. After a
  failure the temporary file is removed, if that succeeds. A sync error can only happen under the
  policy that syncs.
\<close>

definition rewrite_in_tenant ::
  "rewrite_io \<Rightarrow> bool \<Rightarrow> nat \<Rightarrow> string \<Rightarrow> string \<Rightarrow> offline_record list \<Rightarrow> offline_store
   \<Rightarrow> (storage_error + unit) \<times> offline_store" where
  "rewrite_in_tenant io unlink_ok pid tenant client_id records st =
     (if records = [] then (Ok (), remove_in_tenant unlink_ok tenant client_id st)
      else case log_path_for tenant client_id of
        Err _ \<Rightarrow> (Err (Engine ''cannot encode offline log name''), bump_failed st)
      | Ok path \<Rightarrow>
          let bs = concat (map (\<lambda>r. encode_frame (encode_record r)) records);
              seq = os_tmp_seq st;
              st = st\<lparr>os_tmp_seq := seq + 1\<rparr>;
              tmp = tmp_name tenant client_id pid seq;
              failed = (\<lambda>st'. (Err (Engine (''cannot rewrite offline log '' @ path)),
                bump_failed (if unlink_ok then unlink_file tmp st' else st')));
              renamed = write_file path bs (unlink_file tmp (write_file tmp bs st)) in
          case io of
            Rw_create_err \<Rightarrow> failed st
          | Rw_write_err n \<Rightarrow> failed (write_file tmp (take n bs) st)
          | Rw_flush_err \<Rightarrow> failed (write_file tmp bs st)
          | Rw_sync_err \<Rightarrow>
              if os_fsync st = EveryWrite then failed (write_file tmp bs st) else (Ok (), renamed)
          | Rw_rename_err \<Rightarrow> failed (write_file tmp bs st)
          | Rw_ok \<Rightarrow> (Ok (), renamed))"

definition store_rewrite where
  "store_rewrite io unlink_ok pid client_id records =
     rewrite_in_tenant io unlink_ok pid DEFAULT_TENANT_ID client_id records"

section \<open>The record is an exact format\<close>

lemma le_laws [simp]:
  "length (u32_to_le w) = 4" "length (u64_to_le x) = 8"
  "u32_from_le (u32_to_le w) = w" "u64_from_le (u64_to_le x) = x"
  by (simp_all add: u32_to_le_def u64_to_le_def u32_from_le_def u64_from_le_def)

lemma u32_to_le_not_Nil [simp]: "u32_to_le w \<noteq> []"
  by (simp flip: length_0_conv)

lemma to_le_from_le:
  "length bs = 4 \<Longrightarrow> u32_to_le (u32_from_le bs) = bs"
  "length cs = 8 \<Longrightarrow> u64_to_le (u64_from_le cs) = cs"
  using to_be_from_be [of "rev bs"] to_be_from_be [of "rev cs"]
  by (simp_all add: u32_to_le_def u64_to_le_def u32_from_le_def u64_from_le_def)

lemma u32_le_eq_iff: "length bs = 4 \<Longrightarrow> u32_from_le bs = w \<longleftrightarrow> bs = u32_to_le w"
  using to_le_from_le(1) by auto

lemma u64_le_eq_iff: "length bs = 8 \<Longrightarrow> u64_from_le bs = w \<longleftrightarrow> bs = u64_to_le w"
  using to_le_from_le(2) by auto

lemma take_bytes_Some: "take_bytes n bs = Some (a, b) \<longleftrightarrow> bs = a @ b \<and> length a = n"
  by (auto simp: take_bytes_def)

lemma take_bytes_append: "length a = n \<Longrightarrow> take_bytes n (a @ b) = Some (a, b)"
  by (simp add: take_bytes_Some)

definition record_ok :: "offline_record \<Rightarrow> bool" where
  "record_ok r \<longleftrightarrow>
     (let s = topic_as_str (or_topic r) in
      valid_str s \<and> s \<noteq> [] \<and> length s \<le> MAX_TOPIC_BYTES \<and> CHR ''+'' \<notin> set s \<and> CHR ''#'' \<notin> set s)
     \<and> length (or_payload r) \<le> MAX_PAYLOAD_BYTES \<and> or_publish_at_ms r \<noteq> Some NO_TIMESTAMP"

lemma unat_of_nat_u32: "n < 4294967296 \<Longrightarrow> unat (of_nat n :: u32) = n"
  by (simp add: unat_of_nat)

lemma decode_encode_record:
  assumes "record_ok r"
  shows "decode_record (encode_record r) = Some r"
proof -
  obtain s qos rt pay ts where r: "r = \<lparr>or_topic = Topic s, or_qos = qos, or_retain = rt,
      or_payload = pay, or_publish_at_ms = ts\<rparr>"
    by (metis offline_record.cases topic.exhaust)
  have s: "valid_str s" "s \<noteq> []" "length s \<le> MAX_TOPIC_BYTES" "topic_new s = Inr (Topic s)"
    and p: "length pay \<le> MAX_PAYLOAD_BYTES" and ts: "ts \<noteq> Some NO_TIMESTAMP"
    using assms by (auto simp: record_ok_def r Let_def topic_new_Ok)
  have l: "unat (of_nat (length s) :: u32) = length s"
    "unat (of_nat (length pay) :: u32) = length pay"
    using s(3) p by (simp_all add: unat_of_nat_u32 MAX_TOPIC_BYTES_def MAX_PAYLOAD_BYTES_def)
  have q: "qos_try_from (qos_to_u8 qos) = Inr qos" by (simp add: qos_try_from_Ok)
  have tk: "take_bytes (Suc 0) (x # xs) = Some ([x], xs)" for x xs by (simp add: take_bytes_def)
  have all: "take_bytes (length pay) pay = Some (pay, [])" by (simp add: take_bytes_def)
  show ?thesis
    using s p ts
    by (auto simp: decode_record_def encode_record_def Let_def r tk q l all take_bytes_append
        split: option.split)
qed

text \<open>Elimination rules that follow the shape of the decoder.\<close>

lemma take_bindE:
  assumes "Option.bind (take_bytes n bs) (case_prod f) = Some r"
  obtains a b where "bs = a @ b" "length a = n" "f a b = Some r"
  using assms by (auto simp: bind_eq_Some_conv take_bytes_Some)

lemma utf8_bindE:
  assumes "Option.bind (from_utf8 bs) f = Some r"
  obtains s where "bs = as_bytes s" "valid_str s" "f s = Some r"
  using assms by (auto simp: bind_eq_Some_conv dest: from_utf8_SomeD)

lemma ok_caseE:
  assumes "(case x of Err _ \<Rightarrow> None | Ok y \<Rightarrow> f y) = Some r"
  obtains y where "x = Ok y" "f y = Some r"
  using assms by (cases x) auto

lemma guardE:
  assumes "(if b then None else m) = Some r"
  obtains "\<not> b" "m = Some r"
  using assms by (simp split: if_splits)

lemma let_SomeE:
  assumes "Let x f = Some r"
  obtains "f x = Some r"
  using assms by simp

lemmas decoder_elims = take_bindE utf8_bindE ok_caseE guardE let_SomeE

lemma length_Suc_0: "length a = 1 \<longleftrightarrow> a = [hd a]"
  by (cases a) auto

lemma encode_decode_record:
  assumes "decode_record bs = Some r"
  shows "record_ok r \<and> encode_record r = bs"
proof -
  have rt: "\<not> 1 < b \<Longrightarrow> b = 0 \<or> b = 1" for b :: u8
    by (metis linorder_not_less order_le_less word_less_1 word_neq_0_conv)
  have hd: "length a = 1 \<Longrightarrow> a @ b = hd a # b" for a b :: bytes by (cases a) auto
  show ?thesis
    using assms unfolding decode_record_def
  proof (elim decoder_elims, goal_cases)
    case (1 q b1 qos rt' b2 ts b3 tl b4 tb b5 s topic pl b6 pay b7)
    then have pl: "of_nat (length pay) = u32_from_le pl" and tl: "of_nat (length s) = u32_from_le tl"
      and q: "hd q = qos_to_u8 qos"
      by (simp_all add: qos_try_from_Ok)
    have f: "or_topic r = Topic s" "or_qos r = qos" "or_payload r = pay"
      using 1 by (auto simp: topic_new_Ok)
    have ts: "u64_to_le (case or_publish_at_ms r of Some t \<Rightarrow> t | None \<Rightarrow> NO_TIMESTAMP) = ts"
      using 1 by (auto simp: to_le_from_le u64_le_eq_iff)
    have b: "hd rt' = (if or_retain r then 1 else 0)" using 1 rt [of "hd rt'"] by auto
    have "encode_record r = hd q # hd rt' # ts @ tl @ as_bytes s @ pl @ pay"
      using 1(10,18) by (simp add: encode_record_def f ts b q pl tl to_le_from_le)
    then show ?case using 1 by (auto simp: record_ok_def topic_new_Ok hd split: if_splits)
  qed
qed

lemma decode_record_iff: "decode_record bs = Some r \<longleftrightarrow> record_ok r \<and> bs = encode_record r"
  using encode_decode_record decode_encode_record by blast

section \<open>The scan recovers the longest good prefix\<close>

abbreviation frame :: "offline_record \<Rightarrow> bytes" where
  "frame r \<equiv> encode_frame (encode_record r)"

definition frames :: "offline_record list \<Rightarrow> bytes" where
  "frames rs = concat (map frame rs)"

lemma frames_simps [simp]:
  "frames [] = []" "frames (r # rs) = frame r @ frames rs" "frames (rs @ ss) = frames rs @ frames ss"
  by (simp_all add: frames_def)

lemma length_frame [simp]: "length (encode_frame rb) = length rb + 8"
  by (simp add: encode_frame_def)

lemma encode_frame_not_Nil [simp]: "encode_frame rb \<noteq> []"
  by (simp flip: length_0_conv)

lemma encode_record_length: "record_ok r \<Longrightarrow>
    MIN_RECORD_BYTES \<le> length (encode_record r) \<and> length (encode_record r) \<le> MAX_FRAME_BYTES"
  by (auto simp: record_ok_def encode_record_def Let_def MIN_RECORD_BYTES_def MAX_FRAME_BYTES_def
      MAX_TOPIC_BYTES_def MAX_PAYLOAD_BYTES_def)

text \<open>One round of the scan as a reader of frames.\<close>

definition read_frame :: "bytes \<Rightarrow> unit + (offline_record \<times> bytes)" where
  "read_frame rest =
     (let len = unat (u32_from_le (take 4 rest)); rb = take len (drop 4 rest) in
      if length rest < 4 \<or> len < MIN_RECORD_BYTES \<or> MAX_FRAME_BYTES < len
         \<or> length rest - 4 < len + 4 \<or> crc32 rb \<noteq> u32_from_le (take 4 (drop (4 + len) rest))
      then Inl ()
      else case decode_record rb of None \<Rightarrow> Inl () | Some r \<Rightarrow> Inr (r, drop (len + 8) rest))"

lemma read_frame_iff: "read_frame buf = Inr (r, rest) \<longleftrightarrow> record_ok r \<and> buf = frame r @ rest"
proof
  assume a: "record_ok r \<and> buf = frame r @ rest"
  note l = encode_record_length [of r]
  have n: "unat (of_nat (length (encode_record r)) :: u32) = length (encode_record r)"
    using a l by (simp add: unat_of_nat_u32 MAX_FRAME_BYTES_def)
  show "read_frame buf = Inr (r, rest)"
    using a l by (simp add: read_frame_def Let_def n encode_frame_def decode_encode_record)
next
  define len where "len = unat (u32_from_le (take 4 buf))"
  define rb where "rb = take len (drop 4 buf)"
  define cs where "cs = take 4 (drop (4 + len) buf)"
  assume "read_frame buf = Inr (r, rest)"
  then have a: "4 \<le> length buf" "len + 8 \<le> length buf" "crc32 rb = u32_from_le cs"
    "decode_record rb = Some r" "rest = drop (len + 8) buf"
    by (auto simp: read_frame_def len_def rb_def cs_def Let_def split: if_splits option.splits)
  have rb: "length rb = len" and cs: "length cs = 4" using a by (simp_all add: rb_def cs_def)
  have h: "u32_to_le (of_nat len) = take 4 buf" using a(1) by (simp add: len_def to_le_from_le)
  have d1: "drop 4 buf = rb @ drop (4 + len) buf"
    using append_take_drop_id [of len "drop 4 buf"] by (simp add: rb_def add.commute)
  have d2: "drop (4 + len) buf = cs @ rest"
    using append_take_drop_id [of 4 "drop (4 + len) buf"] by (simp add: cs_def a(5) add.commute add.left_commute)
  have e: "rb = encode_record r" "record_ok r" using a(4) by (simp_all add: decode_record_iff)
  have "buf = u32_to_le (of_nat len) @ rb @ cs @ rest"
    using append_take_drop_id [of 4 buf] by (simp only: h d1 d2)
  also have "cs = u32_to_le (crc32 rb)" by (simp add: a(3) to_le_from_le(1) [OF cs])
  finally have "buf = encode_frame rb @ rest" by (simp add: encode_frame_def rb)
  with e show "record_ok r \<and> buf = frame r @ rest" by simp
qed

interpretation fr: exact_codec read_frame frame record_ok
  by unfold_locales (rule read_frame_iff)

lemma scan_loop_read:
  "scan_loop rest pos acc =
     (if rest = [] then (acc, pos, True)
      else case read_frame rest of
        Inl _ \<Rightarrow> (acc, pos, False)
      | Inr (r, rest') \<Rightarrow> scan_loop rest' (pos + length (frame r)) (acc @ [r]))"
proof (cases "read_frame rest")
  case (Inl u)
  then show ?thesis
    by (subst scan_loop.simps) (auto simp: read_frame_def Let_def split: if_splits option.splits)
next
  case (Inr p)
  obtain r rest' where p: "p = (r, rest')" by fastforce
  then have rest: "rest = frame r @ rest'" and ok: "record_ok r" using Inr by (simp_all add: read_frame_iff)
  have n: "unat (of_nat (length (encode_record r)) :: u32) = length (encode_record r)"
    using encode_record_length [OF ok] by (simp add: unat_of_nat_u32 MAX_FRAME_BYTES_def)
  have "scan_loop (frame r @ rest') pos acc = scan_loop rest' (pos + length (encode_record r) + 8) (acc @ [r])"
    using encode_record_length [OF ok]
    by (subst scan_loop.simps) (simp add: Let_def n encode_frame_def decode_encode_record [OF ok])
  with Inr show ?thesis by (simp add: p rest add.assoc)
qed

lemma scan_loop_frames:
  "\<forall>r\<in>set rs. record_ok r \<Longrightarrow>
    scan_loop (frames rs @ rest) pos acc = scan_loop rest (pos + length (frames rs)) (acc @ rs)"
proof (induction rs arbitrary: pos acc)
  case (Cons r rs)
  then show ?case
    by (subst scan_loop_read) (simp add: fr.read_put add.assoc)
qed simp

text \<open>What the scan returns, for every file: the longest prefix made of good frames.\<close>

definition torn :: "bytes \<Rightarrow> bool" where
  "torn tail \<longleftrightarrow> (\<forall>r t. record_ok r \<longrightarrow> tail \<noteq> frame r @ t)"

lemma torn_read: "torn tail \<longleftrightarrow> read_frame tail = Inl ()"
proof (cases "read_frame tail")
  case (Inr p)
  then have "read_frame tail = Inr (fst p, snd p)" by simp
  then have "record_ok (fst p) \<and> tail = frame (fst p) @ snd p" by (simp only: read_frame_iff)
  with Inr show ?thesis unfolding torn_def by auto
next
  case (Inl u)
  then have "\<not> (record_ok r \<and> tail = frame r @ t)" for r t using read_frame_iff [of tail r t] by simp
  with Inl show ?thesis by (auto simp: torn_def)
qed

lemma torn_Nil [simp]: "torn []"
  by (simp add: torn_def)

lemma scan_file_frames:
  assumes "\<forall>r\<in>set rs. record_ok r" and "torn tail"
  shows "scan_file (frames rs @ tail) = (rs, length (frames rs), tail = [])"
  using assms(2)
  by (simp add: scan_file_def scan_loop_frames [OF assms(1)] scan_loop_read [of tail] torn_read)

lemma split_file: "\<exists>rs tail. bs = frames rs @ tail \<and> (\<forall>r\<in>set rs. record_ok r) \<and> torn tail"
proof (induction "length bs" arbitrary: bs rule: less_induct)
  case less
  show ?case
  proof (cases "torn bs")
    case True
    then show ?thesis by (intro exI [of _ "[]"] exI [of _ bs]) simp
  next
    case False
    then obtain r t where r: "record_ok r" "bs = frame r @ t" by (auto simp: torn_def)
    then obtain rs tail where "t = frames rs @ tail" "\<forall>r\<in>set rs. record_ok r" "torn tail"
      using less [of t] by auto
    with r show ?thesis by (intro exI [of _ "r # rs"] exI [of _ tail]) simp
  qed
qed

lemma scan_file_iff:
  "scan_file bs = (rs, n, c) \<longleftrightarrow>
     (\<forall>r\<in>set rs. record_ok r) \<and> n = length (frames rs)
     \<and> (\<exists>tail. bs = frames rs @ tail \<and> torn tail \<and> c = (tail = []))"
proof
  obtain rs' tail where bs: "bs = frames rs' @ tail" "\<forall>r\<in>set rs'. record_ok r" "torn tail"
    using split_file [of bs] by (elim exE conjE) (rule that)
  assume "scan_file bs = (rs, n, c)"
  then have "rs = rs'" "n = length (frames rs')" "c = (tail = [])"
    using scan_file_frames [OF bs(2,3)] by (auto simp: bs(1))
  with bs show "(\<forall>r\<in>set rs. record_ok r) \<and> n = length (frames rs)
     \<and> (\<exists>tail. bs = frames rs @ tail \<and> torn tail \<and> c = (tail = []))" by blast
qed (elim exE conjE, simp add: scan_file_frames)

section \<open>File names\<close>

lemma of_char_hex_digit: "n < 16 \<Longrightarrow> of_char (hex_digit n) = (if n < 10 then 48 + n else 55 + n)"
  by (simp add: hex_digit_def)

lemma hex_digit_laws:
  assumes "n < 16"
  shows "hex_value (hex_digit n) = Some n" "hex_digit n \<noteq> CHR ''+''"
    "of_char (hex_digit n) < (128 :: nat)"
proof -
  show "hex_value (hex_digit n) = Some n" "of_char (hex_digit n) < (128 :: nat)"
    using assms by (simp_all add: hex_value_def Let_def of_char_hex_digit)
  have "of_char (hex_digit n) \<noteq> (of_char (CHR ''+'') :: nat)"
    using assms by (simp add: of_char_hex_digit)
  then show "hex_digit n \<noteq> CHR ''+''" by metis
qed

lemma u8_from_hex_digits:
  assumes "i < 16" and "j < 16"
  shows "u8_from_hex [hex_digit i, hex_digit j] = Some (of_nat (i * 16 + j))"
proof -
  have "i * 16 + j \<le> 255" using assms by simp
  then show ?thesis
    using hex_digit_laws [OF assms(1)] hex_digit_laws [OF assms(2)] assms
    by (simp add: u8_from_hex_def)
qed

lemma as_bytes_simps [simp]:
  "as_bytes [] = []" "as_bytes (c # s) = of_nat (of_char c) # as_bytes s"
  "as_bytes (s @ t) = as_bytes s @ as_bytes t"
  by (simp_all add: as_bytes_def)

lemma decode_encode_byte:
  "decode_client_loop (as_bytes (encode_byte b) @ rest) = map_option (\<lambda>out. b # out) (decode_client_loop rest)"
proof (cases "plain_byte b")
  case True
  then have "b \<noteq> 37" by (auto simp: plain_byte_def)
  moreover have "as_bytes (encode_byte b) = [b]" using True unat_bounds(1) [of b] by (simp add: encode_byte_def)
  ultimately show ?thesis by simp
next
  case False
  define i j where "i = unat b div 16" and "j = unat b mod 16"
  have ij: "i < 16" "j < 16" using unat_bounds(1) [of b] by (simp_all add: i_def j_def)
  have b: "of_nat (i * 16 + j) = b" by (simp add: i_def j_def del: of_nat_add of_nat_mult)
  have e: "as_bytes (encode_byte b) = 37 # as_bytes [hex_digit i, hex_digit j]"
    using False by (simp add: encode_byte_def i_def j_def)
  have "valid_str [hex_digit i, hex_digit j]"
    using ij by (intro valid_str_ascii) (simp add: hex_digit_laws)
  then have "from_utf8 (as_bytes [hex_digit i, hex_digit j]) = Some [hex_digit i, hex_digit j]"
    by (rule from_utf8_as_bytes)
  then show ?thesis
    by (simp add: e u8_from_hex_digits [OF ij] b del: of_nat_add of_nat_mult)
qed

lemma decode_encode_client:
  assumes "valid_str s"
  shows "decode_client (encode_client s) = Some s"
proof -
  have "decode_client_loop (as_bytes (concat (map encode_byte bs))) = Some bs" for bs
    by (induction bs) (simp_all add: decode_encode_byte)
  then show ?thesis using assms by (simp add: decode_client_def encode_client_def)
qed

lemma encode_byte_chars: "CHR ''+'' \<notin> set (encode_byte b)" "encode_byte b \<noteq> []"
proof -
  have "CHR ''+'' \<noteq> char_of (unat b)" if "plain_byte b"
  proof
    assume "CHR ''+'' = char_of (unat b)"
    then have "(of_char (CHR ''+'') :: nat) = of_char (char_of (unat b) :: char)" by (simp only:)
    then have "unat b = 43" using unat_bounds(1) [of b] by simp
    then have "of_nat (unat b) = (43 :: u8)" by (simp only: of_nat_numeral)
    then have "b = 43" by simp
    with that show False by (simp add: plain_byte_def)
  qed
  moreover have "CHR ''+'' \<noteq> hex_digit (unat b div 16)" "CHR ''+'' \<noteq> hex_digit (unat b mod 16)"
    using hex_digit_laws(2) [of "unat b div 16"] hex_digit_laws(2) [of "unat b mod 16"] unat_bounds(1) [of b]
    by (simp_all add: less_mult_imp_div_less eq_commute)
  ultimately show "CHR ''+'' \<notin> set (encode_byte b)" "encode_byte b \<noteq> []"
    by (auto simp: encode_byte_def)
qed

lemma encode_client_chars:
  "CHR ''+'' \<notin> set (encode_client s)" "encode_client s = [] \<longleftrightarrow> s = []"
  using encode_byte_chars by (auto simp: encode_client_def as_bytes_def)


text \<open>The name of a queue file determines its tenant and its client, and a listing decodes both.\<close>

lemma strip_suffix_append [simp]: "strip_suffix p (s @ p) = Some s"
  by (simp add: strip_suffix_def)

definition queue_id_ok :: "string \<Rightarrow> string \<Rightarrow> bool" where
  "queue_id_ok tenant client_id \<longleftrightarrow>
     valid_str tenant \<and> valid_str client_id \<and> tenant \<noteq> [] \<and> client_id \<noteq> []"

lemma log_path_for_Ok:
  assumes "queue_id_ok t c"
  obtains stem where "log_path_for t c = Ok (stem @ ''.log'')" "decode_key stem = Some (t, c)"
proof (cases "t = DEFAULT_TENANT_ID")
  case True
  have "split_once CHR ''+'' (encode_client c) = None"
    by (simp add: split_once_None encode_client_chars(1))
  then have "decode_key (encode_client c) = Some (t, c)"
    using assms by (simp add: decode_key_def True queue_id_ok_def decode_encode_client)
  with assms True that [of "encode_client c"] show ?thesis
    by (simp add: log_path_for_def log_path_def queue_id_ok_def)
next
  case False
  have "split_once CHR ''+'' (encode_client t @ ''+'' @ encode_client c) = Some (encode_client t, encode_client c)"
    using encode_client_chars(1) by (simp add: split_once_Some)
  then have "decode_key (encode_client t @ ''+'' @ encode_client c) = Some (t, c)"
    using assms encode_client_chars
    by (simp add: decode_key_def queue_id_ok_def decode_encode_client)
  with assms False that [of "encode_client t @ ''+'' @ encode_client c"] show ?thesis
    by (simp add: log_path_for_def queue_id_ok_def)
qed

lemma log_path_for_inject:
  assumes "queue_id_ok t c" and "queue_id_ok t' c'" and "log_path_for t c = log_path_for t' c'"
  shows "t = t' \<and> c = c'"
proof -
  obtain s where s: "log_path_for t c = Ok (s @ ''.log'')" "decode_key s = Some (t, c)"
    using log_path_for_Ok [OF assms(1)] .
  obtain s' where s': "log_path_for t' c' = Ok (s' @ ''.log'')" "decode_key s' = Some (t', c')"
    using log_path_for_Ok [OF assms(2)] .
  from s(1) s'(1) assms(3) have "s = s'" by simp
  with s(2) s'(2) show ?thesis by simp
qed

end
