(* ===== verification/Offline_Laws.thy ===== *)
theory Offline_Laws
  imports Offline_Store
begin

text \<open>
  What the durable offline store promises: the queue a file holds, the effect of every operation on
  it under every I/O outcome, the recovery of a file that was cut at any byte, the detection of a
  damaged byte, and the separation of the queues by tenant and client. The contract that the
  session layer relies on is the locale \<open>queue_store\<close>, interpreted on the operations of the store.
\<close>

section \<open>The queue in a file\<close>

definition queue_file :: "string \<Rightarrow> string \<Rightarrow> string" where
  "queue_file tenant client_id = (case log_path_for tenant client_id of Ok path \<Rightarrow> path | Err _ \<Rightarrow> [])"

definition queue_of :: "offline_store \<Rightarrow> string \<Rightarrow> string \<Rightarrow> offline_record list" where
  "queue_of st tenant client_id = fst (scan_file (file_bytes st (queue_file tenant client_id)))"

definition whole_file :: "offline_store \<Rightarrow> string \<Rightarrow> string \<Rightarrow> bool" where
  "whole_file st tenant client_id = snd (snd (scan_file (file_bytes st (queue_file tenant client_id))))"

lemma log_path_for_queue_file:
  "queue_id_ok t c \<Longrightarrow> log_path_for t c = Ok (queue_file t c)"
  by (erule log_path_for_Ok) (simp add: queue_file_def)

lemma queue_file_inject:
  "queue_id_ok t c \<Longrightarrow> queue_id_ok t' c' \<Longrightarrow> queue_file t c = queue_file t' c' \<longleftrightarrow> t = t' \<and> c = c'"
  using log_path_for_inject [of t c t' c'] by (auto simp: log_path_for_queue_file)

lemma last_queue_file: "queue_id_ok t c \<Longrightarrow> queue_file t c \<noteq> tmp_name t' c' pid seq"
proof -
  assume "queue_id_ok t c"
  then obtain stem where "log_path_for t c = Ok (stem @ ''.log'')" by (rule log_path_for_Ok)
  then have "queue_file t c = stem @ ''.log''" by (simp add: queue_file_def)
  then have "last (queue_file t c) = CHR ''g''" by simp
  moreover have "last (tmp_name t' c' pid seq) = CHR ''p''" by (simp add: tmp_name_def)
  ultimately show ?thesis by auto
qed

lemma file_bytes_simps [simp]:
  "file_bytes (write_file n bs st) m = (if m = n then bs else file_bytes st m)"
  "file_bytes (unlink_file n st) m = (if m = n then [] else file_bytes st m)"
  "file_bytes (bump_failed st) m = file_bytes st m"
  "file_bytes (bump_torn st) m = file_bytes st m"
  "file_bytes (st\<lparr>os_tmp_seq := k\<rparr>) m = file_bytes st m"
  by (auto simp: file_bytes_def write_file_def unlink_file_def bump_failed_def bump_torn_def
      update_conv' delete_conv')

lemma queue_of_bytes:
  "file_bytes st' (queue_file t c) = file_bytes st (queue_file t c) \<Longrightarrow>
     queue_of st' t c = queue_of st t c \<and> whole_file st' t c = whole_file st t c"
  by (simp add: queue_of_def whole_file_def)

text \<open>A file of whole frames, and a file with a torn tail.\<close>

lemma queue_file_frames:
  assumes "file_bytes st (queue_file t c) = frames rs @ tail" and "\<forall>r\<in>set rs. record_ok r" and "torn tail"
  shows "queue_of st t c = rs" "whole_file st t c \<longleftrightarrow> tail = []"
  using assms by (simp_all add: queue_of_def whole_file_def scan_file_frames)

lemma queue_file_decomp:
  "\<exists>tail. file_bytes st (queue_file t c) = frames (queue_of st t c) @ tail
     \<and> (\<forall>r\<in>set (queue_of st t c). record_ok r) \<and> torn tail \<and> (whole_file st t c \<longleftrightarrow> tail = [])"
proof -
  obtain rs n w where s: "scan_file (file_bytes st (queue_file t c)) = (rs, n, w)"
    by (cases "scan_file (file_bytes st (queue_file t c))")
  then show ?thesis by (simp add: queue_of_def whole_file_def) (use scan_file_iff in auto)
qed

lemma whole_file_bytes:
  "whole_file st t c \<Longrightarrow> file_bytes st (queue_file t c) = frames (queue_of st t c)"
  using queue_file_decomp [of st t c] by auto

lemma queue_of_ok: "r \<in> set (queue_of st t c) \<Longrightarrow> record_ok r"
  using queue_file_decomp [of st t c] by auto

text \<open>A proper part of a frame is torn.\<close>

lemma torn_take_frame:
  assumes "record_ok r" and "n < length (frame r)"
  shows "torn (take n (frame r))"
  unfolding torn_def
proof (intro allI impI notI)
  fix r' t assume r': "record_ok r'" and e: "take n (frame r) = frame r' @ t"
  have "frame r @ [] = frame r' @ t @ drop n (frame r)"
    using append_take_drop_id [of n "frame r"] by (simp add: e)
  then have "r = r'" using fr.prefix_free [OF assms(1) r'] by blast
  with e assms(2) show False by (metis length_append length_take linorder_not_less min.absorb4 le_add1)
qed

section \<open>Every operation, every outcome\<close>

lemma append_in_tenant_cases:
  assumes "queue_id_ok t c"
  obtains (acked) "append_in_tenant io t c r st =
      (Ok (), write_file (queue_file t c) (file_bytes st (queue_file t c) @ frame r) st)"
  | (refused) e n where "append_in_tenant io t c r st =
      (Err e, bump_failed (write_file (queue_file t c) (file_bytes st (queue_file t c) @ take n (frame r)) st))"
  | (not_opened) e where "append_in_tenant io t c r st = (Err e, bump_failed st)"
proof -
  have p: "log_path_for t c = Ok (queue_file t c)" using assms by (rule log_path_for_queue_file)
  note d = append_in_tenant_def p Let_def
  show ?thesis
  proof (cases io)
    case App_ok
    then show ?thesis by (intro acked) (simp add: d)
  next
    case App_open_err
    then show ?thesis by (intro not_opened) (simp add: d)
  next
    case (App_write_err n)
    then show ?thesis by (intro refused [of _ n]) (simp add: d)
  next
    case App_flush_err
    then show ?thesis by (intro refused [of _ "length (frame r)"]) (simp add: d)
  next
    case App_sync_err
    show ?thesis
    proof (cases "os_fsync st")
      case EveryWrite
      with App_sync_err show ?thesis by (intro refused [of _ "length (frame r)"]) (simp add: d)
    next
      case NoSync
      with App_sync_err show ?thesis by (intro acked) (simp add: d)
    qed
  qed
qed

lemma append_other:
  assumes "queue_id_ok t c" and "queue_id_ok t' c'" and "(t', c') \<noteq> (t, c)"
  shows "file_bytes (snd (append_in_tenant io t c r st)) (queue_file t' c') = file_bytes st (queue_file t' c')"
  using assms by (cases rule: append_in_tenant_cases [OF assms(1), of io r st])
    (auto simp: queue_file_inject)

lemma append_acked:
  assumes "queue_id_ok t c" and "record_ok r" and "whole_file st t c"
    and "append_in_tenant io t c r st = (Ok u, st')"
  shows "queue_of st' t c = queue_of st t c @ [r] \<and> whole_file st' t c"
proof -
  have b: "file_bytes st' (queue_file t c) = frames (queue_of st t c @ [r]) @ []"
    using assms(4) whole_file_bytes [OF assms(3)]
    by (cases rule: append_in_tenant_cases [OF assms(1), of io r st]) auto
  have ok: "\<forall>x\<in>set (queue_of st t c @ [r]). record_ok x" using assms(2) queue_of_ok by auto
  show ?thesis using queue_file_frames [OF b ok] by simp
qed

text \<open>An append that was refused loses nothing of the queue: it is unchanged or holds the record.\<close>

lemma append_refused:
  assumes "queue_id_ok t c" and "record_ok r" and "whole_file st t c"
    and "append_in_tenant io t c r st = (Err e, st')"
  shows "queue_of st' t c = queue_of st t c \<or> queue_of st' t c = queue_of st t c @ [r] \<and> whole_file st' t c"
proof (cases rule: append_in_tenant_cases [OF assms(1), of io r st, case_names acked refused not_opened])
  case (refused e n)
  then have b: "file_bytes st' (queue_file t c) = frames (queue_of st t c) @ take n (frame r)"
    using assms(4) whole_file_bytes [OF assms(3)] by auto
  have ok: "\<forall>x\<in>set (queue_of st t c). record_ok x" using queue_of_ok by auto
  show ?thesis
  proof (cases "n < length (frame r)")
    case True
    show ?thesis using queue_file_frames(1) [OF b ok torn_take_frame [OF assms(2) True]] by simp
  next
    case False
    then have b': "file_bytes st' (queue_file t c) = frames (queue_of st t c @ [r]) @ []"
      using b by simp
    have "\<forall>x\<in>set (queue_of st t c @ [r]). record_ok x" using assms(2) ok by auto
    from queue_file_frames [OF b' this] show ?thesis by simp
  qed
next
  case (not_opened e)
  with assms(4) have "st' = bump_failed st" by simp
  then show ?thesis using queue_of_bytes [of st' t c st] by simp
next
  case acked
  with assms(4) show ?thesis by simp
qed

lemma remove_bytes:
  assumes "queue_id_ok t c" and "queue_id_ok t' c'"
  shows "file_bytes (remove_in_tenant u t c st) (queue_file t' c') =
    (if (t', c') = (t, c) \<and> u then [] else file_bytes st (queue_file t' c'))"
  using assms queue_file_inject [OF assms]
  by (auto simp: remove_in_tenant_def log_path_for_queue_file)

lemma rewrite_bytes:
  assumes "queue_id_ok t c" and "queue_id_ok t' c'"
    and "rewrite_in_tenant io u pid t c rs st = (res, st')"
  shows "file_bytes st' (queue_file t' c') =
    (if (t', c') = (t, c) \<and> res = Ok () \<and> (rs = [] \<longrightarrow> u) then frames rs else file_bytes st (queue_file t' c'))"
proof (cases "rs = []")
  case True
  then have "res = Ok ()" "st' = remove_in_tenant u t c st" using assms(3) by (simp_all add: rewrite_in_tenant_def)
  then show ?thesis using remove_bytes [OF assms(1,2)] by (simp add: True)
next
  case False
  have tmp: "queue_file t' c' \<noteq> tmp_name t c pid (os_tmp_seq st)" using assms(2) by (rule last_queue_file)
  show ?thesis
    using assms(3) queue_file_inject [OF assms(1,2)] tmp
    by (cases io)
      (auto simp: rewrite_in_tenant_def False log_path_for_queue_file [OF assms(1)] Let_def frames_def
        split: if_splits)
qed

lemma frames_Nil_iff [simp]: "frames rs = [] \<longleftrightarrow> rs = []"
  by (cases rs) simp_all

lemma load_cases:
  assumes "queue_id_ok t c"
  shows "fst (load_in_tenant Load_ok tr t c st) = (queue_of st t c, if whole_file st t c then 0 else 1)"
    and "file_bytes (snd (load_in_tenant Load_ok tr t c st)) (queue_file t c) =
      (if tr then frames (queue_of st t c) else file_bytes st (queue_file t c))"
    and "queue_id_ok t' c' \<Longrightarrow> (t', c') \<noteq> (t, c) \<Longrightarrow>
      file_bytes (snd (load_in_tenant io tr t c st)) (queue_file t' c') = file_bytes st (queue_file t' c')"
proof -
  obtain tail where tail: "file_bytes st (queue_file t c) = frames (queue_of st t c) @ tail"
    "\<forall>r\<in>set (queue_of st t c). record_ok r" "torn tail" "whole_file st t c \<longleftrightarrow> tail = []"
    using queue_file_decomp [of st t c] by (elim exE conjE) (rule that)
  have sc: "scan_file (file_bytes st (queue_file t c)) = (queue_of st t c, length (frames (queue_of st t c)), tail = [])"
    unfolding tail(1) by (rule scan_file_frames [OF tail(2,3)])
  note d = load_in_tenant_def log_path_for_queue_file [OF assms]
  show "fst (load_in_tenant Load_ok tr t c st) = (queue_of st t c, if whole_file st t c then 0 else 1)"
    using sc tail(1,4) by (auto simp: d file_bytes_def split: option.splits prod.splits)
  show "file_bytes (snd (load_in_tenant Load_ok tr t c st)) (queue_file t c) =
      (if tr then frames (queue_of st t c) else file_bytes st (queue_file t c))"
  proof (cases "map_of (os_files st) (queue_file t c)")
    case None
    then have e: "file_bytes st (queue_file t c) = []" by (simp add: file_bytes_def)
    with tail(1) have "frames (queue_of st t c) = []" by simp
    with e None show ?thesis by (simp add: d)
  next
    case (Some bs)
    then have "file_bytes st (queue_file t c) = bs" by (simp add: file_bytes_def)
    with sc tail(1) have "scan_file bs = (queue_of st t c, length (frames (queue_of st t c)), tail = [])"
      "bs = frames (queue_of st t c) @ tail" "file_bytes st (queue_file t c) = bs" by simp_all
    with Some show ?thesis by (simp add: d)
  qed
  show "queue_id_ok t' c' \<Longrightarrow> (t', c') \<noteq> (t, c) \<Longrightarrow>
      file_bytes (snd (load_in_tenant io tr t c st)) (queue_file t' c') = file_bytes st (queue_file t' c')"
    using queue_file_inject [OF assms, of t' c']
    by (auto simp: d split: option.splits prod.splits)
qed

section \<open>The contract of the store\<close>

text \<open>
  What a session needs of its durable backing: an acknowledged append extends the queue, a rewrite
  replaces it or leaves it alone, a removal empties it, and no call touches the queue of another
  key. \<open>whole\<close> says that the file ends with a whole entry.
\<close>

locale queue_store =
  fixes queue :: "'s \<Rightarrow> 'k \<Rightarrow> 'r list"
    and whole :: "'s \<Rightarrow> 'k \<Rightarrow> bool"
    and good :: "'r \<Rightarrow> bool"
    and key :: "'k \<Rightarrow> bool"
    and append :: "'a \<Rightarrow> 'k \<Rightarrow> 'r \<Rightarrow> 's \<Rightarrow> ('e + unit) \<times> 's"
    and rewrite :: "'b \<Rightarrow> 'k \<Rightarrow> 'r list \<Rightarrow> 's \<Rightarrow> ('e + unit) \<times> 's"
    and remove :: "bool \<Rightarrow> 'k \<Rightarrow> 's \<Rightarrow> 's"
    and unlinks :: "'b \<Rightarrow> bool"
  assumes append_Ok: "key k \<Longrightarrow> good r \<Longrightarrow> whole s k \<Longrightarrow> append a k r s = (Inr u, s') \<Longrightarrow>
      queue s' k = queue s k @ [r] \<and> whole s' k"
    and append_frame: "key k \<Longrightarrow> key k' \<Longrightarrow> k' \<noteq> k \<Longrightarrow> append a k r s = (res, s') \<Longrightarrow>
      queue s' k' = queue s k' \<and> whole s' k' = whole s k'"
    and rewrite_Ok: "key k \<Longrightarrow> \<forall>r\<in>set rs. good r \<Longrightarrow> rs = [] \<longrightarrow> unlinks b \<Longrightarrow>
      rewrite b k rs s = (Inr u, s') \<Longrightarrow> queue s' k = rs \<and> whole s' k"
    and rewrite_Err: "key k \<Longrightarrow> rewrite b k rs s = (Inl e, s') \<Longrightarrow>
      queue s' k = queue s k \<and> whole s' k = whole s k"
    and rewrite_frame: "key k \<Longrightarrow> key k' \<Longrightarrow> k' \<noteq> k \<Longrightarrow> rewrite b k rs s = (res, s') \<Longrightarrow>
      queue s' k' = queue s k' \<and> whole s' k' = whole s k'"
    and remove_ok: "key k \<Longrightarrow> queue (remove True k s) k = [] \<and> whole (remove True k s) k"
    and remove_frame: "key k \<Longrightarrow> key k' \<Longrightarrow> k' \<noteq> k \<Longrightarrow>
      queue (remove d k s) k' = queue s k' \<and> whole (remove d k s) k' = whole s k'"
    and queue_good: "r \<in> set (queue s k) \<Longrightarrow> good r"
begin

text \<open>An append followed by the rewrite that drops the oldest entries is a bounded push.\<close>

lemma bounded_push:
  assumes "key k" and "good r" and "whole s k" and "append a k r s = (Inr u, s1)"
    and "n \<le> length (queue s k)"
    and "if n = 0 then s2 = s1 else rewrite b k (drop n (queue s k @ [r])) s1 = (Inr v, s2)"
  shows "queue s2 k = drop n (queue s k @ [r]) \<and> whole s2 k"
proof -
  have 1: "queue s1 k = queue s k @ [r] \<and> whole s1 k" using append_Ok [OF assms(1-4)] .
  show ?thesis
  proof (cases "n = 0")
    case True
    with 1 assms(6) show ?thesis by simp
  next
    case False
    have g: "\<forall>x\<in>set (drop n (queue s k @ [r])). good x"
      using queue_good assms(2) by (auto dest: in_set_dropD)
    have ne: "drop n (queue s k @ [r]) = [] \<longrightarrow> unlinks b" using assms(5) by simp
    have rw: "rewrite b k (drop n (queue s k @ [r])) s1 = (Inr v, s2)" using assms(6) False by simp
    show ?thesis by (rule rewrite_Ok [OF assms(1) g ne rw])
  qed
qed

end

text \<open>The session addresses a queue by the pair of its tenant and its client.\<close>

interpretation qs: queue_store
  "\<lambda>st (t, c). queue_of st t c" "\<lambda>st (t, c). whole_file st t c" record_ok "\<lambda>(t, c). queue_id_ok t c"
  "\<lambda>io (t, c) r st. append_in_tenant io t c r st"
  "\<lambda>(io, u, pid) (t, c) rs st. rewrite_in_tenant io u pid t c rs st"
  "\<lambda>u (t, c) st. remove_in_tenant u t c st" "\<lambda>(io, u, pid). u"
proof (unfold_locales, goal_cases)
  case (1 k r s a u s')
  then show ?case using append_acked by (cases k) auto
next
  case (2 k k' a r s res s')
  then show ?case
    using append_other [of "fst k" "snd k" "fst k'" "snd k'" a r s] queue_of_bytes [of s' "fst k'" "snd k'" s]
    by (auto simp: case_prod_unfold prod_eq_iff)
next
  case (3 k rs b s u s')
  then have "file_bytes s' (queue_file (fst k) (snd k)) = frames rs @ []"
    using rewrite_bytes [of "fst k" "snd k" "fst k" "snd k" _ _ _ rs s "Ok ()" s'] by (auto simp: case_prod_unfold)
  from queue_file_frames [OF this 3(2)] show ?case by (simp add: case_prod_unfold)
next
  case (4 k b rs s e s')
  then have "file_bytes s' (queue_file (fst k) (snd k)) = file_bytes s (queue_file (fst k) (snd k))"
    using rewrite_bytes [of "fst k" "snd k" "fst k" "snd k" _ _ _ rs s "Err e" s'] by (auto simp: case_prod_unfold)
  from queue_of_bytes [OF this] show ?case by (simp add: case_prod_unfold)
next
  case (5 k k' b rs s res s')
  then have "file_bytes s' (queue_file (fst k') (snd k')) = file_bytes s (queue_file (fst k') (snd k'))"
    using rewrite_bytes [of "fst k" "snd k" "fst k'" "snd k'" _ _ _ rs s res s']
    by (auto simp: case_prod_unfold prod_eq_iff)
  from queue_of_bytes [OF this] show ?case by (simp add: case_prod_unfold)
next
  case (6 k s)
  then have "file_bytes (remove_in_tenant True (fst k) (snd k) s) (queue_file (fst k) (snd k)) = frames [] @ []"
    using remove_bytes [of "fst k" "snd k" "fst k" "snd k"] by (simp add: case_prod_unfold)
  from queue_file_frames [OF this] show ?case by (simp add: case_prod_unfold)
next
  case (7 k k' u s)
  then have "file_bytes (remove_in_tenant u (fst k) (snd k) s) (queue_file (fst k') (snd k'))
      = file_bytes s (queue_file (fst k') (snd k'))"
    using remove_bytes [of "fst k" "snd k" "fst k'" "snd k'"] by (auto simp: case_prod_unfold prod_eq_iff)
  from queue_of_bytes [OF this] show ?case by (simp add: case_prod_unfold)
next
  case (8 r s k)
  then show ?case using queue_of_ok by (cases k) auto
qed

section \<open>Recovery\<close>

text \<open>How many frames of a queue lie before byte \<open>m\<close>.\<close>

fun whole_frames :: "nat \<Rightarrow> offline_record list \<Rightarrow> nat" where
  "whole_frames m [] = 0"
| "whole_frames m (r # rs) =
    (if length (frame r) \<le> m then Suc (whole_frames (m - length (frame r)) rs) else 0)"

lemma take_frames:
  assumes "\<forall>r\<in>set rs. record_ok r"
  shows "\<exists>tail. take m (frames rs) = frames (take (whole_frames m rs) rs) @ tail \<and> torn tail"
  using assms
proof (induction rs arbitrary: m)
  case (Cons r rs)
  show ?case
  proof (cases "length (frame r) \<le> m")
    case True
    obtain tail where "take (m - length (frame r)) (frames rs)
        = frames (take (whole_frames (m - length (frame r)) rs) rs) @ tail" "torn tail"
      using Cons.IH [of "m - length (frame r)"] Cons.prems by auto
    with True show ?thesis by (intro exI [of _ tail]) simp
  next
    case False
    then have "torn (take m (frame r))" using Cons.prems by (intro torn_take_frame) auto
    with False show ?thesis by (intro exI [of _ "take m (frame r)"]) simp
  qed
qed simp

text \<open>
  C34. A queue file that a crash cut at any byte is recovered: the next load serves exactly the
  records whose frames are whole, in order, and cuts the torn tail off, so that a second load
  reports no tear and an append acknowledged after the recovery is served after them.
\<close>

theorem torn_file_recovery:
  assumes "queue_id_ok t c" and "\<forall>r\<in>set rs. record_ok r" and "record_ok new"
    and "file_bytes st (queue_file t c) = take m (frames rs)"
    and "load_in_tenant Load_ok True t c st = ((served, tears), st1)"
    and "append_in_tenant io t c new st1 = (Ok (), st2)"
  shows "served = take (whole_frames m rs) rs \<and> fst (load_in_tenant Load_ok tr t c st1) = (served, 0)
    \<and> fst (load_in_tenant Load_ok tr t c st2) = (served @ [new], 0)"
proof -
  let ?k = "whole_frames m rs"
  obtain tail where tail: "take m (frames rs) = frames (take ?k rs) @ tail" "torn tail"
    using take_frames [OF assms(2), of m] by (elim exE conjE) (rule that)
  have ok: "\<forall>r\<in>set (take ?k rs). record_ok r" using assms(2) by (auto dest: in_set_takeD)
  have q: "queue_of st t c = take ?k rs"
    using queue_file_frames(1) [OF assms(4) [unfolded tail(1)] ok tail(2)] .
  have served: "served = take ?k rs" using load_cases(1) [OF assms(1), of True st] assms(5) by (simp add: q)
  have b1: "file_bytes st1 (queue_file t c) = frames served @ []"
    using load_cases(2) [OF assms(1), of True st] assms(5) by (simp add: q served)
  have q1: "queue_of st1 t c = served" "whole_file st1 t c"
    using queue_file_frames [OF b1] ok by (simp_all add: served)
  have q2: "queue_of st2 t c = served @ [new] \<and> whole_file st2 t c"
    using append_acked [OF assms(1,3) q1(2) assms(6)] by (simp add: q1(1))
  show ?thesis
    using served load_cases(1) [OF assms(1), of tr st1] load_cases(1) [OF assms(1), of tr st2] q1 q2 by simp
qed

text \<open>The checksum detects every change of a single byte of a record.\<close>

lemma crc_bit_odd: "crc_bit c = (if odd c then drop_bit 1 c XOR 0xEDB88320 else drop_bit 1 c)"
  by (simp add: crc_bit_def and_one_eq odd_iff_mod_2_eq_one)

lemma bit_crc_bit: "bit (crc_bit c) 31 \<longleftrightarrow> odd c"
proof -
  have "\<not> bit (drop_bit 1 c) 31" using bit_imp_le_length [of c 32] by (auto simp: bit_drop_bit_eq)
  moreover have "bit (0xEDB88320 :: u32) 31" by simp
  ultimately show ?thesis by (simp add: crc_bit_odd bit_xor_iff)
qed

lemma crc_bit_inject:
  assumes "crc_bit c = crc_bit d"
  shows "c = d"
proof -
  have o: "odd c \<longleftrightarrow> odd d" using assms bit_crc_bit [of c] bit_crc_bit [of d] by simp
  have "drop_bit 1 c = drop_bit 1 d"
  proof (cases "odd c")
    case True
    with o assms have "drop_bit 1 c XOR 0xEDB88320 = drop_bit 1 d XOR 0xEDB88320" by (simp add: crc_bit_odd)
    then have "(drop_bit 1 c XOR 0xEDB88320) XOR 0xEDB88320 = (drop_bit 1 d XOR 0xEDB88320) XOR (0xEDB88320 :: u32)"
      by (rule arg_cong)
    then show ?thesis by (simp only: xor.assoc xor_self_eq xor.right_neutral)
  next
    case False
    with o assms show ?thesis by (simp add: crc_bit_odd)
  qed
  then have "bit c (Suc n) = bit d (Suc n)" for n
    by (metis bit_drop_bit_eq comp_apply plus_1_eq_Suc)
  with o have "bit c n = bit d n" for n by (cases n) (simp_all add: bit_0)
  then show ?thesis by (simp add: bit_eq_iff)
qed

lemma crc_bits_inject: "(crc_bit ^^ n) c = (crc_bit ^^ n) d \<longleftrightarrow> c = d"
  by (induction n) (auto dest: crc_bit_inject)

lemma crc_byte_inject:
  "crc_byte c b = crc_byte d b \<longleftrightarrow> c = d" "crc_byte c a = crc_byte c b \<longleftrightarrow> a = b"
proof -
  have x: "u XOR v = u XOR w \<longleftrightarrow> v = w" for u v w :: u32
    by (metis xor.assoc xor_self_eq xor.left_neutral)
  have "ucast a = (ucast b :: u32) \<longleftrightarrow> a = b"
  proof
    assume "ucast a = (ucast b :: u32)"
    then have "n < 32 \<Longrightarrow> bit a n = bit b n" for n by (simp add: bit_eq_iff bit_ucast_iff)
    then show "a = b" by (intro bit_word_eqI) simp
  qed simp
  then show "crc_byte c a = crc_byte c b \<longleftrightarrow> a = b" by (simp add: crc_byte_def crc_bits_inject x)
  show "crc_byte c b = crc_byte d b \<longleftrightarrow> c = d"
    by (simp add: crc_byte_def crc_bits_inject x xor.commute [of _ "ucast b"])
qed

lemma foldl_crc_inject: "foldl crc_byte c bs = foldl crc_byte d bs \<longleftrightarrow> c = d"
  by (induction bs arbitrary: c d) (simp_all add: crc_byte_inject)

lemma crc32_changed_byte:
  assumes "i < length bs" and "b \<noteq> bs ! i"
  shows "crc32 (bs[i := b]) \<noteq> crc32 bs"
proof
  assume "crc32 (bs[i := b]) = crc32 bs"
  then have "foldl crc_byte 0xFFFFFFFF (take i bs @ b # drop (Suc i) bs)
      = foldl crc_byte 0xFFFFFFFF (take i bs @ bs ! i # drop (Suc i) bs)"
    using assms(1) by (simp add: crc32_def upd_conv_take_nth_drop id_take_nth_drop [symmetric])
  with assms(2) show False by (simp add: foldl_crc_inject crc_byte_inject)
qed

lemma u32_to_le_eq_iff [simp]: "u32_to_le v = u32_to_le w \<longleftrightarrow> v = w"
  by (metis le_laws(3))

lemma torn_bad_crc:
  assumes "length rb \<le> MAX_FRAME_BYTES" and "crc32 rb \<noteq> w"
  shows "torn (u32_to_le (of_nat (length rb)) @ rb @ u32_to_le w @ rest)"
  unfolding torn_def
proof (intro allI impI notI)
  fix r t assume r: "record_ok r"
    and e: "u32_to_le (of_nat (length rb)) @ rb @ u32_to_le w @ rest = frame r @ t"
  from e have h: "u32_to_le (of_nat (length rb)) = u32_to_le (of_nat (length (encode_record r)))"
    and tl: "rb @ u32_to_le w @ rest = encode_record r @ u32_to_le (crc32 (encode_record r)) @ t"
    by (simp_all add: encode_frame_def)
  have w: "(of_nat (length rb) :: u32) = of_nat (length (encode_record r))"
    using h by simp
  have "length rb = length (encode_record r)"
    using assms(1) encode_record_length [OF r] arg_cong [OF w, of unat]
    by (simp add: unat_of_nat_u32 MAX_FRAME_BYTES_def)
  with tl have "rb = encode_record r" "u32_to_le w = u32_to_le (crc32 (encode_record r))" by simp_all
  with assms(2) show False by simp
qed

text \<open>
  C35. A queue file in which one byte of one record was damaged serves the records before it and
  nothing else: the checksum of the damaged frame does not match, the scan stops at the frame, and
  the load reports the tear.
\<close>

theorem damaged_record_dropped:
  assumes "queue_id_ok t c" and "\<forall>x\<in>set rs. record_ok x" and "record_ok r"
    and "i < length (encode_record r)" and "b \<noteq> encode_record r ! i"
    and "file_bytes st (queue_file t c) =
      frames rs @ u32_to_le (of_nat (length (encode_record r))) @ (encode_record r)[i := b]
      @ u32_to_le (crc32 (encode_record r)) @ rest"
  shows "fst (load_in_tenant Load_ok tr t c st) = (rs, 1)"
proof -
  let ?rb = "(encode_record r)[i := b]"
  let ?tail = "u32_to_le (of_nat (length ?rb)) @ ?rb @ u32_to_le (crc32 (encode_record r)) @ rest"
  have "torn ?tail"
    using encode_record_length [OF assms(3)] crc32_changed_byte [OF assms(4,5)]
    by (intro torn_bad_crc) simp_all
  moreover have "file_bytes st (queue_file t c) = frames rs @ ?tail" using assms(6) by simp
  ultimately have "queue_of st t c = rs" "\<not> whole_file st t c"
    using queue_file_frames [of st t c rs ?tail] assms(2) by simp_all
  then show ?thesis by (simp add: load_cases(1) [OF assms(1)])
qed

section \<open>The directory\<close>

text \<open>Every history of a store: it is opened, used with any I/O outcomes, and opened again.\<close>

inductive store_run :: "offline_store \<Rightarrow> bool" where
  opened: "open_with_config created u fsync [] = Ok st \<Longrightarrow> store_run st"
| reopened: "store_run st \<Longrightarrow> open_with_config created u fsync (os_files st) = Ok st' \<Longrightarrow> store_run st'"
| appended: "store_run st \<Longrightarrow> queue_id_ok t c \<Longrightarrow> store_run (snd (append_in_tenant io t c r st))"
| rewritten: "store_run st \<Longrightarrow> queue_id_ok t c \<Longrightarrow>
    store_run (snd (rewrite_in_tenant io' u pid t c rs st))"
| removed: "store_run st \<Longrightarrow> queue_id_ok t c \<Longrightarrow> store_run (remove_in_tenant u t c st)"
| loaded: "store_run st \<Longrightarrow> queue_id_ok t c \<Longrightarrow> store_run (snd (load_in_tenant io'' u t c st))"

definition own_name :: "string \<Rightarrow> bool" where
  "own_name n \<longleftrightarrow> (\<exists>t c. queue_id_ok t c \<and> n = queue_file t c) \<or> (\<exists>p. n = p @ ''.tmp'')"

definition dir_ok :: "(string \<times> bytes) list \<Rightarrow> bool" where
  "dir_ok fs \<longleftrightarrow> distinct (map fst fs) \<and> (\<forall>n\<in>fst ` set fs. own_name n)"

lemma own_name_intros:
  "queue_id_ok t c \<Longrightarrow> own_name (queue_file t c)" "own_name (tmp_name t c pid seq)"
proof -
  show "queue_id_ok t c \<Longrightarrow> own_name (queue_file t c)" by (auto simp: own_name_def)
  have "tmp_name t c pid seq = (''.'' @ encode_client t @ ''.'' @ encode_client c @ ''.''
      @ show_nat pid @ ''.'' @ show_nat (unat seq)) @ ''.tmp''" by (simp add: tmp_name_def)
  then show "own_name (tmp_name t c pid seq)" unfolding own_name_def by blast
qed

lemma dir_ok_write: "dir_ok (os_files st) \<Longrightarrow> own_name n \<Longrightarrow> dir_ok (os_files (write_file n bs st))"
  by (auto simp: dir_ok_def write_file_def distinct_update dom_update)

lemma dir_ok_unlink: "dir_ok (os_files st) \<Longrightarrow> dir_ok (os_files (unlink_file n st))"
  by (auto simp: dir_ok_def unlink_file_def AList.delete_eq distinct_map_filter)

lemma dir_ok_bump [simp]:
  "os_files (bump_failed st) = os_files st" "os_files (bump_torn st) = os_files st"
  by (simp_all add: bump_failed_def bump_torn_def)

lemmas dir_ok_intros = dir_ok_write dir_ok_unlink own_name_intros

lemma store_run_dir: "store_run st \<Longrightarrow> dir_ok (os_files st)"
proof (induction rule: store_run.induct)
  case (opened created u fsync st)
  then show ?case by (auto simp: open_with_config_def sweep_orphan_tmps_def dir_ok_def split: option.splits)
next
  case (reopened st created u fsync st')
  then show ?case
    by (auto simp: open_with_config_def sweep_orphan_tmps_def dir_ok_def distinct_map_filter split: option.splits)
next
  case (appended st t c io r)
  then show ?case
    by (cases rule: append_in_tenant_cases [OF appended(2), of io r st]) (simp_all add: dir_ok_intros)
next
  case (rewritten st t c io u pid rs)
  have q: "dir_ok (os_files (st\<lparr>os_tmp_seq := k\<rparr>))" for k using rewritten(3) by simp
  show ?case
    using rewritten(2,3) q
    by (cases io) (auto simp: rewrite_in_tenant_def remove_in_tenant_def log_path_for_queue_file Let_def
        intro!: dir_ok_intros)
next
  case (removed st t c u)
  then show ?case by (simp add: remove_in_tenant_def log_path_for_queue_file dir_ok_intros)
next
  case (loaded st t c io u)
  then show ?case
    by (auto simp: load_in_tenant_def log_path_for_queue_file dir_ok_intros split: option.splits prod.splits)
qed

lemma own_name_key:
  assumes "own_name n"
  shows "Option.bind (strip_suffix ''.log'' n) decode_key = Some (t, c) \<longleftrightarrow>
    queue_id_ok t c \<and> n = queue_file t c"
proof -
  have key: "Option.bind (strip_suffix ''.log'' (queue_file t c)) decode_key = Some (t, c)"
    if id: "queue_id_ok t c" for t c
  proof -
    obtain s where "log_path_for t c = Ok (s @ ''.log'')" "decode_key s = Some (t, c)"
      using log_path_for_Ok [OF id] .
    then show ?thesis by (simp add: queue_file_def)
  qed
  have "strip_suffix ''.log'' (p @ ''.tmp'') = None" for p by (simp add: strip_suffix_def)
  with assms key show ?thesis unfolding own_name_def by fastforce
qed

lemma set_map_filter: "y \<in> set (List.map_filter f xs) \<longleftrightarrow> (\<exists>x\<in>set xs. f x = Some y)"
  by (force simp: List.map_filter_def)

lemma distinct_map_filter_inj:
  "distinct (map g xs) \<Longrightarrow> (\<And>x y z. x \<in> set xs \<Longrightarrow> y \<in> set xs \<Longrightarrow> f x = Some z \<Longrightarrow> f y = Some z \<Longrightarrow> g x = g y)
   \<Longrightarrow> distinct (List.map_filter f xs)"
proof (induction xs)
  case (Cons x xs)
  have "distinct (List.map_filter f xs)" using Cons by (intro Cons.IH) auto
  moreover have "z \<notin> set (List.map_filter f xs)" if "f x = Some z" for z
    using Cons.prems(1) Cons.prems(2) [of x _ z] that by (force simp: set_map_filter)
  ultimately show ?case by (simp add: List.map_filter_simps split: option.split)
qed (simp add: List.map_filter_simps)

text \<open>
  C36. After any history of a store, restarts and failed writes included, a listing of the directory
  names each \<open>(tenant, client id)\<close> pair whose queue file is listed exactly once, in order, and
  nothing else: left-over temporary files and names of other queues are never taken for a queue.
  A file whose entry cannot be read is left out, and a directory that cannot be read gives nothing.
\<close>

theorem queue_keys_exact:
  assumes "store_run st"
  shows "sorted (queue_keys io st) \<and> distinct (queue_keys io st)
    \<and> ((t, c) \<in> set (queue_keys io st) \<longleftrightarrow>
        queue_id_ok t c \<and> queue_file t c \<in> fst ` set (os_files st)
        \<and> (\<exists>listed. io = Dir_read listed \<and> listed (queue_file t c)))"
proof -
  let ?f = "\<lambda>name. Option.bind (strip_suffix ''.log'' name) decode_key" and ?l = "listing io (os_files st)"
  have dir: "distinct (map fst (os_files st))" "\<forall>n\<in>fst ` set (os_files st). own_name n"
    using store_run_dir [OF assms] by (simp_all add: dir_ok_def)
  have l: "distinct (map id ?l)" "n \<in> set ?l \<longleftrightarrow>
      n \<in> fst ` set (os_files st) \<and> (\<exists>listed. io = Dir_read listed \<and> listed n)" for n
    using dir(1) by (cases io; auto)+
  have f: "?f n = Some (t, c) \<longleftrightarrow> queue_id_ok t c \<and> n = queue_file t c" if "n \<in> set ?l" for n t c
  proof -
    have "n \<in> fst ` set (os_files st)" using that unfolding l(2) by (rule conjunct1)
    then have "own_name n" by (rule dir(2) [rule_format])
    then show ?thesis by (rule own_name_key)
  qed
  have "distinct (List.map_filter ?f ?l)"
    by (rule distinct_map_filter_inj [OF l(1)]) (metis f surj_pair)
  moreover have "(t, c) \<in> set (List.map_filter ?f ?l) \<longleftrightarrow> queue_id_ok t c \<and> queue_file t c \<in> set ?l"
    unfolding set_map_filter by (metis f)
  ultimately show ?thesis by (simp add: queue_keys_def l(2))
qed

lemma u32_to_le_small: "n < 256 \<Longrightarrow> u32_to_le (of_nat n) = [of_nat n, 0, 0, 0]"
proof -
  assume n: "n < 256"
  have four: "(4 :: nat) = Suc (Suc (Suc (Suc 0)))" by simp
  have "be_bytes 4 n = [0, 0, 0, of_nat n]" unfolding four using n by simp
  with n show ?thesis by (simp add: u32_to_le_def u32_to_be_def unat_of_nat_u32)
qed

text \<open>
  C37. An append that failed after its first byte is not undone, so the frame that the next append
  acknowledges starts in the middle of what the scan reads: the acknowledged record is not served.
\<close>

theorem acked_append_after_torn_lost:
  assumes "queue_id_ok t c" and "record_ok r'" and "whole_file st t c"
    and "length (encode_record r') < 256"
    and "append_in_tenant (App_write_err 1) t c r st = (Err e, st1)"
    and "append_in_tenant App_ok t c r' st1 = (Ok (), st2)"
  shows "fst (load_in_tenant Load_ok tr t c st2) = (queue_of st t c, 1)"
proof -
  let ?n = "length (encode_record r')"
  obtain b where b: "take 1 (frame r) = [b]" using encode_frame_not_Nil by (metis take_Suc take0 One_nat_def)
  have bytes: "file_bytes st2 (queue_file t c) = frames (queue_of st t c) @ b # frame r'"
    using assms(5,6) whole_file_bytes [OF assms(3)] b
    by (auto simp: append_in_tenant_def log_path_for_queue_file [OF assms(1)] Let_def)
  have hd: "frame r' = [of_nat ?n, 0, 0, 0] @ encode_record r' @ u32_to_le (crc32 (encode_record r'))"
    using u32_to_le_small [OF assms(4)] by (simp add: encode_frame_def)
  have small: "be_value [0, 0, of_nat ?n, b] = ?n * 256 + unat b" "?n * 256 + unat b < 4294967296"
    using assms(4) unat_bounds(1) [of b] by (simp_all add: be_value_def unat_of_nat)
  have "take 4 (b # frame r') = [b, of_nat ?n, 0, 0]" by (simp add: hd)
  then have len: "unat (u32_from_le (take 4 (b # frame r'))) = ?n * 256 + unat b"
    using small by (simp add: u32_from_le_def u32_from_be_def unat_of_nat_u32 del: of_nat_add of_nat_mult)
  define rest where "rest = b # frame r'"
  have "length rest - 4 < unat (u32_from_le (take 4 rest)) + 4"
    using encode_record_length [OF assms(2)] len by (simp add: rest_def MIN_RECORD_BYTES_def)
  then have "read_frame rest = Inl ()" by (simp add: read_frame_def Let_def)
  then have "torn (b # frame r')" by (simp add: torn_read rest_def)
  from queue_file_frames [OF bytes _ this] queue_of_ok [of _ st t c]
  show ?thesis by (simp add: load_cases(1) [OF assms(1)])
qed

section \<open>Concrete queues\<close>

definition demo_record :: offline_record where
  "demo_record = \<lparr>or_topic = Topic ''a'', or_qos = AtLeastOnce, or_retain = False, or_payload = [1, 2],
     or_publish_at_ms = Some 7\<rparr>"

definition demo_store :: "bytes \<Rightarrow> offline_store" where
  "demo_store bs = \<lparr>os_files = [(queue_file DEFAULT_TENANT_ID ''x'', bs)], os_fsync = EveryWrite,
     os_recovery_torn = 0, os_persist_failed = 0, os_tmp_seq = 0\<rparr>"

lemma demo_facts:
  "record_ok demo_record" "queue_id_ok DEFAULT_TENANT_ID ''x''"
  "length (encode_record demo_record) = 21" "encode_record demo_record ! 0 = 1"
  "file_bytes (demo_store bs) (queue_file DEFAULT_TENANT_ID ''x'') = bs"
proof -
  show "record_ok demo_record"
    by (simp add: record_ok_def demo_record_def Let_def valid_str_def MAX_TOPIC_BYTES_def MAX_PAYLOAD_BYTES_def
        NO_TIMESTAMP_def)
  show "queue_id_ok DEFAULT_TENANT_ID ''x''"
    by (simp add: queue_id_ok_def DEFAULT_TENANT_ID_def valid_str_def)
  show "length (encode_record demo_record) = 21" "encode_record demo_record ! 0 = 1"
    by (simp_all add: encode_record_def demo_record_def Let_def)
  show "file_bytes (demo_store bs) (queue_file DEFAULT_TENANT_ID ''x'') = bs"
    by (simp add: file_bytes_def demo_store_def)
qed

theorem torn_file_recovery_witness:
  "let st = demo_store (take 40 (frames [demo_record, demo_record]));
       (loaded, st1) = load_in_tenant Load_ok True DEFAULT_TENANT_ID ''x'' st;
       (res, st2) = append_in_tenant App_ok DEFAULT_TENANT_ID ''x'' demo_record st1 in
   fst loaded = [demo_record] \<and> fst (load_in_tenant Load_ok True DEFAULT_TENANT_ID ''x'' st1) = ([demo_record], 0)
   \<and> res = Ok () \<and> fst (load_in_tenant Load_ok True DEFAULT_TENANT_ID ''x'' st2) = ([demo_record, demo_record], 0)"
proof -
  let ?st = "demo_store (take 40 (frames [demo_record, demo_record]))"
  obtain served tears st1 where l: "load_in_tenant Load_ok True DEFAULT_TENANT_ID ''x'' ?st = ((served, tears), st1)"
    by (metis surj_pair)
  obtain st2 where a: "append_in_tenant App_ok DEFAULT_TENANT_ID ''x'' demo_record st1 = (Ok (), st2)"
    by (simp add: append_in_tenant_def log_path_for_queue_file demo_facts Let_def)
  have k: "take (whole_frames 40 [demo_record, demo_record]) [demo_record, demo_record] = [demo_record]"
    by (simp add: demo_facts)
  have ok: "\<forall>r\<in>set [demo_record, demo_record]. record_ok r" by (simp add: demo_facts)
  have "served = [demo_record] \<and> fst (load_in_tenant Load_ok True DEFAULT_TENANT_ID ''x'' st1) = (served, 0)
    \<and> fst (load_in_tenant Load_ok True DEFAULT_TENANT_ID ''x'' st2) = (served @ [demo_record], 0)"
    using torn_file_recovery [OF demo_facts(2) ok demo_facts(1) demo_facts(5) l a, of True]
    by (simp only: k)
  then show ?thesis unfolding Let_def l prod.case a by simp
qed

theorem damaged_record_dropped_witness:
  "fst (load_in_tenant Load_ok True DEFAULT_TENANT_ID ''x''
     (demo_store (frames [demo_record] @ u32_to_le 21 @ (encode_record demo_record)[0 := 2]
       @ u32_to_le (crc32 (encode_record demo_record)) @ frame demo_record))) = ([demo_record], 1)"
  using damaged_record_dropped [OF demo_facts(2), of "[demo_record]" demo_record 0 2
      "demo_store (frames [demo_record] @ u32_to_le 21 @ (encode_record demo_record)[0 := 2]
       @ u32_to_le (crc32 (encode_record demo_record)) @ frame demo_record)" "frame demo_record" True]
  by (simp only: demo_facts) (simp add: demo_facts)

definition demo_opened :: offline_store where
  "demo_opened = \<lparr>os_files = [], os_fsync = EveryWrite, os_recovery_torn = 0, os_persist_failed = 0, os_tmp_seq = 0\<rparr>"

theorem queue_keys_exact_witness:
  "let st = snd (append_in_tenant (App_write_err 9) DEFAULT_TENANT_ID ''x'' demo_record demo_opened) in
   open_with_config None (\<lambda>_. True) EveryWrite [] = Ok demo_opened \<and> store_run st
   \<and> sorted (queue_keys (Dir_read (\<lambda>_. True)) st) \<and> (DEFAULT_TENANT_ID, ''x'') \<in> set (queue_keys (Dir_read (\<lambda>_. True)) st)
   \<and> (DEFAULT_TENANT_ID, ''x'') \<notin> set (queue_keys Dir_err st)"
proof -
  let ?st = "snd (append_in_tenant (App_write_err 9) DEFAULT_TENANT_ID ''x'' demo_record demo_opened)"
  have opened: "open_with_config None (\<lambda>_. True) EveryWrite [] = Ok demo_opened"
    by (simp add: open_with_config_def sweep_orphan_tmps_def demo_opened_def)
  then have run: "store_run ?st" by (intro store_run.appended store_run.opened demo_facts)
  have "queue_file DEFAULT_TENANT_ID ''x'' \<in> fst ` set (os_files ?st)"
    by (simp add: append_in_tenant_def log_path_for_queue_file demo_facts Let_def write_file_def dom_update)
  with opened run queue_keys_exact [OF run, of "Dir_read (\<lambda>_. True)" DEFAULT_TENANT_ID "''x''"]
    queue_keys_exact [OF run, of Dir_err DEFAULT_TENANT_ID "''x''"] show ?thesis
    by (simp only: Let_def demo_facts) simp
qed

theorem acked_append_after_torn_lost_witness:
  "let (res1, st1) = append_in_tenant (App_write_err 1) DEFAULT_TENANT_ID ''x'' demo_record (demo_store []);
       (res2, st2) = append_in_tenant App_ok DEFAULT_TENANT_ID ''x'' demo_record st1 in
   res2 = Ok () \<and> fst (load_in_tenant Load_ok True DEFAULT_TENANT_ID ''x'' st2) = ([], 1)"
proof -
  have bytes: "file_bytes (demo_store []) (queue_file DEFAULT_TENANT_ID ''x'') = frames [] @ []"
    by (simp add: demo_facts)
  have q: "queue_of (demo_store []) DEFAULT_TENANT_ID ''x'' = []" "whole_file (demo_store []) DEFAULT_TENANT_ID ''x''"
    using queue_file_frames [OF bytes] by simp_all
  obtain e st1 where a1: "append_in_tenant (App_write_err 1) DEFAULT_TENANT_ID ''x'' demo_record (demo_store []) = (Err e, st1)"
    by (simp add: append_in_tenant_def log_path_for_queue_file demo_facts Let_def)
  obtain st2 where a2: "append_in_tenant App_ok DEFAULT_TENANT_ID ''x'' demo_record st1 = (Ok (), st2)"
    by (simp add: append_in_tenant_def log_path_for_queue_file demo_facts Let_def)
  have "length (encode_record demo_record) < 256" by (simp add: demo_facts)
  from acked_append_after_torn_lost [OF demo_facts(2) demo_facts(1) q(2) this a1 a2, of True]
  show ?thesis unfolding Let_def a1 prod.case a2 by (simp add: q(1))
qed

end
