(* ===== verification/Session.thy ===== *)
theory Session
  imports Offline_Laws
begin

text \<open>
  One client session (\<^verbatim>\<open>crates/broker-session/src/lib.rs\<close>, \<open>Session\<close>): the unacknowledged QoS 1
  deliveries in a window with an overflow buffer, the QoS 2 exchanges in both directions, the packet
  identifiers, the topic aliases, the cached authorization decisions, the expiry rules and the
  offline queue with its durable backing. Locks and atomics are read and written in sequence. The
  wall clock and the monotonic clock are arguments; a handle on the durable store is the flag
  \<open>s_durable\<close>, and the store itself is passed along.
\<close>

section \<open>Data\<close>

definition DEFAULT_MAX_QOS1_INFLIGHT :: nat where
  "DEFAULT_MAX_QOS1_INFLIGHT = 100"

definition DEFAULT_MAX_QOS1_SPILL :: nat where
  "DEFAULT_MAX_QOS1_SPILL = 1000"

definition DEFAULT_TOPIC_ALIAS_MAXIMUM :: u16 where
  "DEFAULT_TOPIC_ALIAS_MAXIMUM = 10"

definition DEFAULT_SESSION_EXPIRY_SECS :: u32 where
  "DEFAULT_SESSION_EXPIRY_SECS = 0"

definition SESSION_EXPIRY_NEVER :: u32 where
  "SESSION_EXPIRY_NEVER = 0xFFFFFFFF"

definition DEFAULT_CLIENT_RECEIVE_MAXIMUM :: u16 where
  "DEFAULT_CLIENT_RECEIVE_MAXIMUM = 0xFFFF"

definition DEFAULT_CLIENT_MAX_PACKET_SIZE :: u32 where
  "DEFAULT_CLIENT_MAX_PACKET_SIZE = 0"

definition MAX_QOS2_INBOUND :: nat where
  "MAX_QOS2_INBOUND = 100"

definition MAX_QOS2_INFLIGHT :: nat where
  "MAX_QOS2_INFLIGHT = 100"

definition MAX_AUTHZ_DECISIONS_PER_CLIENT :: nat where
  "MAX_AUTHZ_DECISIONS_PER_CLIENT = 1024"

definition MAX_OFFLINE_QUEUE :: nat where
  "MAX_OFFLINE_QUEUE = 1024"

record subscription_options =
  so_qos :: qos
  so_nl :: u8
  so_rap :: u8
  so_rh :: u8

record stored_will =
  sw_tenant :: string
  sw_topic :: topic
  sw_qos :: qos
  sw_retain :: bool
  sw_payload :: bytes

record queued_message =
  qm_topic :: topic
  qm_qos :: qos
  qm_retain :: bool
  qm_payload :: bytes
  qm_publish_at_ms :: "u64 option"

record authz_decision =
  az_action :: string
  az_topic :: string
  az_qos :: u8
  az_retain :: bool
  az_allow :: bool
  az_updated_ms :: u64

text \<open>\<open>im_enqueued_at\<close> is a reading of the monotonic clock.\<close>

record inflight_message =
  im_packet_id :: u16
  im_topic :: topic
  im_qos :: qos
  im_retain :: bool
  im_payload :: bytes
  im_enqueued_at :: nat

datatype inflight_track_outcome = Tracked | Spilled | Dropped

datatype alias_reject = AliasZero | AliasOverMaximum

record qos2_inbound_entry =
  qi_topic :: topic
  qi_retain :: bool
  qi_payload :: bytes

record qos2_outbound_entry =
  qo_packet_id :: u16
  qo_topic :: topic
  qo_retain :: bool
  qo_payload :: bytes
  qo_rec_received :: bool

record session =
  s_id :: u64
  s_client_id :: string
  s_clean_start :: bool
  s_connected :: bool
  s_conn_id :: "u64 option"
  s_subscriptions :: "(topic_filter \<times> subscription_options) list"
  s_offline_queue :: "queued_message list"
  s_durable :: bool
  s_inflight :: "inflight_message list"
  s_inflight_spill :: "inflight_message list"
  s_spill_count :: nat
  s_max_inflight :: nat
  s_max_spill :: nat
  s_qos2_inbound :: "(u16 \<times> qos2_inbound_entry) list"
  s_qos2_outbound :: "qos2_outbound_entry list"
  s_inbound_aliases :: "topic option list"
  s_inbound_alias_max :: u16
  s_outbound_aliases :: "topic option list"
  s_outbound_alias_max :: u16
  s_keepalive_secs :: u16
  s_last_will :: "stored_will option"
  s_tenant_id :: string
  s_tenant_is_default :: bool
  s_username :: "string option"
  s_peerhost :: "string option"
  s_connected_at_ms :: "u64 option"
  s_ended_at_ms :: "u64 option"
  s_authz_cache :: "authz_decision list"
  s_next_packet_id :: u16
  s_protocol_version :: u8
  s_session_expiry :: u32
  s_client_receive_max :: u16
  s_client_max_packet_size :: u32

definition session_new :: "u64 \<Rightarrow> u64 \<Rightarrow> string \<Rightarrow> bool \<Rightarrow> session" where
  "session_new now sid client_id clean_start =
     \<lparr>s_id = sid, s_client_id = client_id, s_clean_start = clean_start, s_connected = True,
      s_conn_id = None, s_subscriptions = [], s_offline_queue = [], s_durable = False,
      s_inflight = [], s_inflight_spill = [], s_spill_count = 0,
      s_max_inflight = DEFAULT_MAX_QOS1_INFLIGHT, s_max_spill = DEFAULT_MAX_QOS1_SPILL,
      s_qos2_inbound = [], s_qos2_outbound = [], s_inbound_aliases = [],
      s_inbound_alias_max = DEFAULT_TOPIC_ALIAS_MAXIMUM, s_outbound_aliases = [],
      s_outbound_alias_max = 0, s_keepalive_secs = 0, s_last_will = None,
      s_tenant_id = DEFAULT_TENANT_ID, s_tenant_is_default = True, s_username = None,
      s_peerhost = None, s_connected_at_ms = Some now, s_ended_at_ms = None, s_authz_cache = [],
      s_next_packet_id = 1, s_protocol_version = 4, s_session_expiry = DEFAULT_SESSION_EXPIRY_SECS,
      s_client_receive_max = DEFAULT_CLIENT_RECEIVE_MAXIMUM,
      s_client_max_packet_size = DEFAULT_CLIENT_MAX_PACKET_SIZE\<rparr>"

section \<open>Tenant, protocol level and expiry\<close>

definition set_tenant_id :: "string \<Rightarrow> session \<Rightarrow> session" where
  "set_tenant_id tenant s = s\<lparr>s_tenant_id := tenant, s_tenant_is_default := (tenant = DEFAULT_TENANT_ID)\<rparr>"

definition set_protocol_version :: "u8 \<Rightarrow> session \<Rightarrow> session" where
  "set_protocol_version version s = s\<lparr>s_protocol_version := (if version = 5 then 5 else 4)\<rparr>"

definition client_receive_maximum :: "session \<Rightarrow> u16" where
  "client_receive_maximum s = max (s_client_receive_max s) 1"

definition set_client_receive_maximum :: "u16 \<Rightarrow> session \<Rightarrow> session" where
  "set_client_receive_maximum m s = s\<lparr>s_client_receive_max := max m 1\<rparr>"

definition apply_v5_connect :: "u8 \<Rightarrow> u32 \<Rightarrow> u16 \<Rightarrow> u32 \<Rightarrow> session \<Rightarrow> session" where
  "apply_v5_connect version expiry receive_max max_packet s =
     (let s = set_protocol_version version s;
          s = s\<lparr>s_session_expiry := (if version = 5 then expiry else DEFAULT_SESSION_EXPIRY_SECS)\<rparr>;
          s = set_client_receive_maximum
                (if version = 5 then max receive_max 1 else DEFAULT_CLIENT_RECEIVE_MAXIMUM) s in
      s\<lparr>s_client_max_packet_size :=
          (if version = 5 then max_packet else DEFAULT_CLIENT_MAX_PACKET_SIZE)\<rparr>)"

text \<open>The saturating operations of \<open>u64\<close>.\<close>

definition saturating_sub :: "u64 \<Rightarrow> u64 \<Rightarrow> u64" where
  "saturating_sub a b = (if b \<le> a then a - b else 0)"

definition saturating_mul :: "u64 \<Rightarrow> u64 \<Rightarrow> u64" where
  "saturating_mul a b = (if unat a * unat b < 2 ^ 64 then a * b else - 1)"

definition session_expired :: "u64 \<Rightarrow> session \<Rightarrow> bool" where
  "session_expired now s =
     (if s_connected s then False
      else if s_protocol_version s \<noteq> 5 then False
      else if s_session_expiry s = SESSION_EXPIRY_NEVER then False
      else if s_session_expiry s = DEFAULT_SESSION_EXPIRY_SECS then True
      else case s_ended_at_ms s of
        None \<Rightarrow> False
      | Some ended_at \<Rightarrow>
          saturating_mul (ucast (s_session_expiry s)) 1000 < saturating_sub now ended_at)"

definition drops_state_at_disconnect :: "session \<Rightarrow> bool" where
  "drops_state_at_disconnect s =
     (if s_protocol_version s = 5 then s_session_expiry s = DEFAULT_SESSION_EXPIRY_SECS
      else s_clean_start s)"

section \<open>QoS 1 deliveries and packet identifiers\<close>

definition max_inflight :: "session \<Rightarrow> nat" where
  "max_inflight s = max (s_max_inflight s) 1"

definition set_max_inflight :: "nat \<Rightarrow> session \<Rightarrow> session" where
  "set_max_inflight limit s = s\<lparr>s_max_inflight := max limit 1\<rparr>"

definition max_spill :: "session \<Rightarrow> nat" where
  "max_spill s = max (s_max_spill s) 1"

definition set_max_spill :: "nat \<Rightarrow> session \<Rightarrow> session" where
  "set_max_spill limit s = s\<lparr>s_max_spill := max limit 1\<rparr>"

text \<open>The three tests that make the search for an identifier go on.\<close>

definition packet_id_held :: "u16 \<Rightarrow> session \<Rightarrow> bool" where
  "packet_id_held pid s \<longleftrightarrow>
     (\<exists>m\<in>set (s_inflight s). im_packet_id m = pid)
     \<or> (s_spill_count s \<noteq> 0 \<and> (\<exists>m\<in>set (s_inflight_spill s). im_packet_id m = pid))
     \<or> (\<exists>m\<in>set (s_qos2_outbound s). qo_packet_id m = pid)"

text \<open>The search is a loop without a bound: when it does not end, the value is \<open>None\<close>.\<close>

partial_function (option) next_packet_id :: "session \<Rightarrow> (u16 \<times> session) option" where
  "next_packet_id s =
     (let pid = s_next_packet_id s; s' = s\<lparr>s_next_packet_id := pid + 1\<rparr> in
      if pid = 0 then next_packet_id s'
      else if packet_id_held pid s' then next_packet_id s'
      else Some (pid, s'))"

definition track_inflight :: "inflight_message \<Rightarrow> session \<Rightarrow> bool \<times> session" where
  "track_inflight m s =
     (if max_inflight s \<le> length (s_inflight s) then (False, s)
      else (True, s\<lparr>s_inflight := s_inflight s @ [m]\<rparr>))"

definition track_inflight_or_spill ::
  "inflight_message \<Rightarrow> session \<Rightarrow> inflight_track_outcome \<times> session" where
  "track_inflight_or_spill m s =
     (if length (s_inflight s) < max_inflight s
      then (Tracked, s\<lparr>s_inflight := s_inflight s @ [m]\<rparr>)
      else if max_spill s \<le> length (s_inflight_spill s) then (Dropped, s)
      else (Spilled, s\<lparr>s_inflight_spill := s_inflight_spill s @ [m],
                      s_spill_count := s_spill_count s + 1\<rparr>))"

text \<open>\<open>position\<close> followed by \<open>remove\<close>: the first element that passes the test, and the rest.\<close>

fun remove_first :: "('a \<Rightarrow> bool) \<Rightarrow> 'a list \<Rightarrow> ('a \<times> 'a list) option" where
  "remove_first p [] = None"
| "remove_first p (x # xs) =
    (if p x then Some (x, xs) else map_option (\<lambda>(y, ys). (y, x # ys)) (remove_first p xs))"

definition ack_inflight_timed :: "u16 \<Rightarrow> session \<Rightarrow> inflight_message option \<times> session" where
  "ack_inflight_timed packet_id s =
     (case remove_first (\<lambda>m. im_packet_id m = packet_id) (s_inflight s) of
        Some (entry, rest) \<Rightarrow>
          let s = s\<lparr>s_inflight := rest\<rparr> in
          if s_spill_count s = 0 then (Some entry, s)
          else (case s_inflight_spill s of
                  [] \<Rightarrow> (Some entry, s)
                | promoted # spill \<Rightarrow>
                    (Some entry, s\<lparr>s_inflight_spill := spill, s_spill_count := s_spill_count s - 1,
                                  s_inflight := s_inflight s @ [promoted]\<rparr>))
      | None \<Rightarrow>
          (case remove_first (\<lambda>m. im_packet_id m = packet_id) (s_inflight_spill s) of
             Some (entry, rest) \<Rightarrow>
               (Some entry, s\<lparr>s_inflight_spill := rest, s_spill_count := s_spill_count s - 1\<rparr>)
           | None \<Rightarrow> (None, s)))"

definition ack_inflight :: "u16 \<Rightarrow> session \<Rightarrow> bool \<times> session" where
  "ack_inflight packet_id s = (let (entry, s) = ack_inflight_timed packet_id s in (entry \<noteq> None, s))"

definition has_spill :: "session \<Rightarrow> bool" where
  "has_spill s \<longleftrightarrow> s_spill_count s \<noteq> 0"

definition inflight_total_len :: "session \<Rightarrow> nat" where
  "inflight_total_len s = length (s_inflight s) + length (s_inflight_spill s)"

definition clear_inflight :: "session \<Rightarrow> session" where
  "clear_inflight s = s\<lparr>s_inflight := [], s_inflight_spill := [], s_spill_count := 0\<rparr>"

section \<open>QoS 2 exchanges\<close>

definition store_qos2_inbound :: "u16 \<Rightarrow> qos2_inbound_entry \<Rightarrow> session \<Rightarrow> bool \<times> session" where
  "store_qos2_inbound packet_id entry s =
     (if map_of (s_qos2_inbound s) packet_id \<noteq> None then (False, s)
      else if MAX_QOS2_INBOUND \<le> length (s_qos2_inbound s) then (False, s)
      else (True, s\<lparr>s_qos2_inbound := AList.update packet_id entry (s_qos2_inbound s)\<rparr>))"

definition has_qos2_inbound :: "u16 \<Rightarrow> session \<Rightarrow> bool" where
  "has_qos2_inbound packet_id s \<longleftrightarrow> map_of (s_qos2_inbound s) packet_id \<noteq> None"

definition take_qos2_inbound :: "u16 \<Rightarrow> session \<Rightarrow> qos2_inbound_entry option \<times> session" where
  "take_qos2_inbound packet_id s =
     (map_of (s_qos2_inbound s) packet_id,
      s\<lparr>s_qos2_inbound := AList.delete packet_id (s_qos2_inbound s)\<rparr>)"

definition clear_qos2_inbound :: "session \<Rightarrow> session" where
  "clear_qos2_inbound s = s\<lparr>s_qos2_inbound := []\<rparr>"

definition track_qos2_outbound :: "qos2_outbound_entry \<Rightarrow> session \<Rightarrow> bool \<times> session" where
  "track_qos2_outbound entry s =
     (if MAX_QOS2_INFLIGHT \<le> length (s_qos2_outbound s) then (False, s)
      else (True, s\<lparr>s_qos2_outbound := s_qos2_outbound s @ [entry]\<rparr>))"

text \<open>The first entry with the identifier moves to the second phase.\<close>

fun mark_rec :: "u16 \<Rightarrow> qos2_outbound_entry list \<Rightarrow> bool \<times> qos2_outbound_entry list" where
  "mark_rec packet_id [] = (False, [])"
| "mark_rec packet_id (e # es) =
    (if qo_packet_id e = packet_id then
       (if \<not> qo_rec_received e then (True, e\<lparr>qo_rec_received := True, qo_payload := []\<rparr> # es)
        else (False, e # es))
     else let (b, es') = mark_rec packet_id es in (b, e # es'))"

definition complete_qos2_pubrec :: "u16 \<Rightarrow> session \<Rightarrow> bool \<times> session" where
  "complete_qos2_pubrec packet_id s =
     (let (b, out) = mark_rec packet_id (s_qos2_outbound s) in (b, s\<lparr>s_qos2_outbound := out\<rparr>))"

definition ack_qos2_pubcomp :: "u16 \<Rightarrow> session \<Rightarrow> bool \<times> session" where
  "ack_qos2_pubcomp packet_id s =
     (case remove_first (\<lambda>m. qo_packet_id m = packet_id) (s_qos2_outbound s) of
        Some (_, rest) \<Rightarrow> (True, s\<lparr>s_qos2_outbound := rest\<rparr>)
      | None \<Rightarrow> (False, s))"

definition clear_qos2_outbound :: "session \<Rightarrow> session" where
  "clear_qos2_outbound s = s\<lparr>s_qos2_outbound := []\<rparr>"

section \<open>Topic aliases\<close>

text \<open>\<open>resize_with\<close>: cut or padded with empty slots.\<close>

definition resize :: "nat \<Rightarrow> 'a option list \<Rightarrow> 'a option list" where
  "resize n xs = take n xs @ replicate (n - length xs) None"

definition set_inbound_alias_max :: "u16 \<Rightarrow> session \<Rightarrow> session" where
  "set_inbound_alias_max m s =
     (let s = s\<lparr>s_inbound_alias_max := m\<rparr> in
      if s_inbound_aliases s = [] then s
      else s\<lparr>s_inbound_aliases := take (unat m + 1) (resize (unat m + 1) (s_inbound_aliases s))\<rparr>)"

definition set_outbound_alias_max :: "u16 \<Rightarrow> session \<Rightarrow> session" where
  "set_outbound_alias_max m s =
     s\<lparr>s_outbound_alias_max := m,
       s_outbound_aliases := resize (if m = 0 then 0 else unat m + 1) []\<rparr>"

definition register_inbound_alias :: "u16 \<Rightarrow> topic \<Rightarrow> session \<Rightarrow> (alias_reject + unit) \<times> session" where
  "register_inbound_alias alias topic s =
     (if alias = NO_TOPIC_ALIAS then (Err AliasZero, s)
      else let m = s_inbound_alias_max s in
        if \<not> alias_in_range alias m then (Err AliasOverMaximum, s)
        else let want = unat m + 1;
                 table = (if length (s_inbound_aliases s) \<noteq> want
                          then resize want (s_inbound_aliases s) else s_inbound_aliases s) in
          (Ok (), s\<lparr>s_inbound_aliases := table[unat alias := Some topic]\<rparr>))"

definition resolve_inbound_alias :: "u16 \<Rightarrow> session \<Rightarrow> topic option" where
  "resolve_inbound_alias alias s =
     (if alias = NO_TOPIC_ALIAS then None
      else if \<not> alias_in_range alias (s_inbound_alias_max s) then None
      else if unat alias < length (s_inbound_aliases s) then s_inbound_aliases s ! unat alias
      else None)"

text \<open>The enumeration of a table from index \<open>i\<close> on, up to the first slot that passes the test.\<close>

fun find_slot :: "('a option \<Rightarrow> bool) \<Rightarrow> nat \<Rightarrow> 'a option list \<Rightarrow> nat option" where
  "find_slot p i [] = None"
| "find_slot p i (x # xs) = (if p x then Some i else find_slot p (Suc i) xs)"

definition outbound_alias_for :: "string \<Rightarrow> session \<Rightarrow> u16 option" where
  "outbound_alias_for topic_str s =
     (let m = s_outbound_alias_max s in
      if m = NO_TOPIC_ALIAS then None
      else let end_ix = min (unat m + 1) (length (s_outbound_aliases s)) in
        map_option of_nat
          (find_slot (\<lambda>slot. case slot of Some t \<Rightarrow> topic_as_str t = topic_str | None \<Rightarrow> False) 1
             (drop 1 (take end_ix (s_outbound_aliases s)))))"

definition assign_outbound_alias :: "topic \<Rightarrow> session \<Rightarrow> u16 option \<times> session" where
  "assign_outbound_alias topic s =
     (let m = s_outbound_alias_max s in
      if m = NO_TOPIC_ALIAS then (None, s)
      else let want = unat m + 1;
               table = (if length (s_outbound_aliases s) \<noteq> want
                        then resize want (s_outbound_aliases s) else s_outbound_aliases s);
               s = s\<lparr>s_outbound_aliases := table\<rparr> in
        case find_slot (\<lambda>slot. slot = Some topic) 1 (drop 1 table) of
          Some i \<Rightarrow> (Some (of_nat i), s)
        | None \<Rightarrow>
            (case find_slot (\<lambda>slot. slot = None) 1 (drop 1 table) of
               Some i \<Rightarrow> (Some (of_nat i), s\<lparr>s_outbound_aliases := table[i := Some topic]\<rparr>)
             | None \<Rightarrow> (None, s)))"

definition clear_aliases :: "session \<Rightarrow> session" where
  "clear_aliases s =
     s\<lparr>s_inbound_aliases := map (\<lambda>_. None) (s_inbound_aliases s),
       s_outbound_aliases := map (\<lambda>_. None) (s_outbound_aliases s)\<rparr>"

section \<open>Authorization decisions and the last will\<close>

fun evict_past :: "nat \<Rightarrow> 'a list \<Rightarrow> 'a list" where
  "evict_past n [] = []"
| "evict_past n (x # xs) = (if n < length (x # xs) then evict_past n xs else x # xs)"

definition record_authz_decision ::
  "u64 \<Rightarrow> string \<Rightarrow> string \<Rightarrow> u8 \<Rightarrow> bool \<Rightarrow> bool \<Rightarrow> session \<Rightarrow> session" where
  "record_authz_decision now action topic qos retain allow s =
     (let same = (\<lambda>e. az_action e = action \<and> az_topic e = topic \<and> az_qos e = qos \<and> az_retain e = retain);
          cache = (case remove_first same (s_authz_cache s) of
                     Some (_, rest) \<Rightarrow> rest | None \<Rightarrow> s_authz_cache s);
          entry = \<lparr>az_action = action, az_topic = topic, az_qos = qos, az_retain = retain,
                   az_allow = allow, az_updated_ms = now\<rparr> in
      s\<lparr>s_authz_cache := evict_past MAX_AUTHZ_DECISIONS_PER_CLIENT (cache @ [entry])\<rparr>)"

definition clear_authz_cache :: "session \<Rightarrow> session" where
  "clear_authz_cache s = s\<lparr>s_authz_cache := []\<rparr>"

definition set_last_will :: "stored_will option \<Rightarrow> session \<Rightarrow> session" where
  "set_last_will w s = s\<lparr>s_last_will := w\<rparr>"

definition take_last_will :: "session \<Rightarrow> stored_will option \<times> session" where
  "take_last_will s = (s_last_will s, s\<lparr>s_last_will := None\<rparr>)"

definition register_will :: "stored_will \<Rightarrow> session \<Rightarrow> bool \<times> session" where
  "register_will w s = (True, s\<lparr>s_last_will := Some w\<rparr>)"

definition take_will :: "session \<Rightarrow> stored_will option \<times> session" where
  "take_will s = (s_last_will s, s\<lparr>s_last_will := None\<rparr>)"

definition has_will :: "session \<Rightarrow> bool" where
  "has_will s \<longleftrightarrow> s_last_will s \<noteq> None"

section \<open>The offline queue\<close>

definition to_record :: "queued_message \<Rightarrow> offline_record" where
  "to_record q = \<lparr>or_topic = qm_topic q, or_qos = qm_qos q, or_retain = qm_retain q,
     or_payload = qm_payload q, or_publish_at_ms = qm_publish_at_ms q\<rparr>"

text \<open>The message that the restart rebuilds from a record.\<close>

definition of_record :: "offline_record \<Rightarrow> queued_message" where
  "of_record r = \<lparr>qm_topic = or_topic r, qm_qos = or_qos r, qm_retain = or_retain r,
     qm_payload = or_payload r, qm_publish_at_ms = or_publish_at_ms r\<rparr>"

text \<open>The loop that makes room: how many entries it dropped, and what is left.\<close>

fun make_room :: "nat \<Rightarrow> 'a list \<Rightarrow> nat \<times> 'a list" where
  "make_room limit [] = (0, [])"
| "make_room limit (x # xs) =
    (if limit \<le> length (x # xs) then (let (n, ys) = make_room limit xs in (Suc n, ys)) else (0, x # xs))"

definition make_room_opt :: "nat option \<Rightarrow> 'a list \<Rightarrow> nat \<times> 'a list" where
  "make_room_opt limit q = (case limit of Some n \<Rightarrow> make_room (max n 1) q | None \<Rightarrow> (0, q))"

definition offline_tenant :: "session \<Rightarrow> string" where
  "offline_tenant s = (if s_tenant_is_default s then DEFAULT_TENANT_ID else s_tenant_id s)"

text \<open>Outcomes of a rewrite: of the system calls, of the removal of a file, and the process id.\<close>

type_synonym rewrite_env = "rewrite_io \<times> bool \<times> nat"

definition push_offline_with_limit ::
  "u64 \<Rightarrow> append_io \<Rightarrow> rewrite_env \<Rightarrow> queued_message \<Rightarrow> nat option \<Rightarrow> session \<Rightarrow> offline_store
   \<Rightarrow> bool \<times> session \<times> offline_store" where
  "push_offline_with_limit now aio rio message limit s st =
     (let message = (if qm_publish_at_ms message = None
                     then message\<lparr>qm_publish_at_ms := Some now\<rparr> else message);
          (dropped, room) = make_room_opt limit (s_offline_queue s);
          s' = s\<lparr>s_offline_queue := room @ [message]\<rparr> in
      if \<not> s_durable s then (True, s', st)
      else let tenant = offline_tenant s in
        case append_in_tenant aio tenant (s_client_id s) (to_record message) st of
          (Err _, st) \<Rightarrow> (False, s, st)
        | (Ok _, st) \<Rightarrow>
            if dropped \<noteq> 0 then
              (let (io, unlink_ok, pid) = rio in
               case rewrite_in_tenant io unlink_ok pid tenant (s_client_id s)
                      (map to_record (s_offline_queue s')) st of
                 (Err _, st) \<Rightarrow> (False, s', st)
               | (Ok _, st) \<Rightarrow> (True, s', st))
            else (True, s', st))"

definition push_offline ::
  "u64 \<Rightarrow> append_io \<Rightarrow> rewrite_env \<Rightarrow> queued_message \<Rightarrow> session \<Rightarrow> offline_store
   \<Rightarrow> bool \<times> session \<times> offline_store" where
  "push_offline now aio rio message s st =
     push_offline_with_limit now aio rio message (Some MAX_OFFLINE_QUEUE) s st"

fun push_restored_loop ::
  "nat option \<Rightarrow> queued_message list \<Rightarrow> nat \<Rightarrow> queued_message list \<Rightarrow> nat \<times> queued_message list" where
  "push_restored_loop limit [] dropped queue = (dropped, queue)"
| "push_restored_loop limit (message # messages) dropped queue =
    (let (n, room) = make_room_opt limit queue in
     push_restored_loop limit messages (dropped + n) (room @ [message]))"

definition push_restored_with_limit ::
  "queued_message list \<Rightarrow> nat option \<Rightarrow> session \<Rightarrow> nat \<times> session" where
  "push_restored_with_limit messages limit s =
     (let (dropped, queue) = push_restored_loop limit messages 0 (s_offline_queue s) in
      (dropped, s\<lparr>s_offline_queue := queue\<rparr>))"

definition drain_offline :: "bool \<Rightarrow> session \<Rightarrow> offline_store \<Rightarrow> queued_message list \<times> session \<times> offline_store" where
  "drain_offline unlink_ok s st =
     (let drained = s_offline_queue s; s' = s\<lparr>s_offline_queue := []\<rparr> in
      if s_durable s \<and> drained \<noteq> []
      then (drained, s', remove_in_tenant unlink_ok (offline_tenant s) (s_client_id s) st)
      else (drained, s', st))"

definition take_offline_retained :: "session \<Rightarrow> queued_message list \<times> session" where
  "take_offline_retained s = (s_offline_queue s, s\<lparr>s_offline_queue := []\<rparr>)"

definition confirm_offline_consumed ::
  "rewrite_env \<Rightarrow> queued_message list \<Rightarrow> session \<Rightarrow> offline_store \<Rightarrow> session \<times> offline_store" where
  "confirm_offline_consumed rio unrouted s st =
     (let s' = (if unrouted \<noteq> [] then s\<lparr>s_offline_queue := unrouted @ s_offline_queue s\<rparr> else s) in
      if \<not> s_durable s then (s', st)
      else let (io, unlink_ok, pid) = rio in
        (s', snd (rewrite_in_tenant io unlink_ok pid (offline_tenant s) (s_client_id s)
                    (map to_record (s_offline_queue s')) st)))"

definition is_ended_stateless :: "session \<Rightarrow> bool" where
  "is_ended_stateless s =
     (if s_connected s then False
      else s_subscriptions s = [] \<and> length (s_offline_queue s) = 0 \<and> inflight_total_len s = 0
        \<and> length (s_qos2_inbound s) = 0 \<and> length (s_qos2_outbound s) = 0)"

end
