(* ===== verification/Session_Manager.thy ===== *)
theory Session_Manager
  imports Session
begin

text \<open>
  The session manager (\<^verbatim>\<open>crates/broker-session/src/lib.rs\<close>, \<open>SessionManager\<close>): sessions by tenant
  and client, the index from connections to sessions, connection slots, publish budgets and the
  count of connected sessions. Sessions are shared objects: \<open>m_heap\<close> holds every session ever
  created, a handle (\<open>Arc\<close>) is a position in it, and the maps hold handles. A hash map is an
  association list, its order standing for the order of iteration. The clock, the outcome of system
  calls and the arithmetic of floating-point numbers are arguments.
\<close>

section \<open>Data\<close>

definition DEFAULT_MAX_OFFLINE_QUEUE :: nat where
  "DEFAULT_MAX_OFFLINE_QUEUE = 10000"

definition MAX_GLOBAL_SUBSCRIPTIONS :: nat where
  "MAX_GLOBAL_SUBSCRIPTIONS = 100000"

definition MAX_TENANTS :: nat where
  "MAX_TENANTS = 1024"

definition MAX_SESSIONS_PER_TENANT :: nat where
  "MAX_SESSIONS_PER_TENANT = 100000"

definition ENDED_SESSION_TTL_SECS :: u64 where
  "ENDED_SESSION_TTL_SECS = 24 * 3600"

record session_key =
  sk_tenant :: string
  sk_client_id :: string

definition session_key_new :: "string \<Rightarrow> string \<Rightarrow> session_key" where
  "session_key_new tenant client_id = \<lparr>sk_tenant = tenant, sk_client_id = client_id\<rparr>"

record global_subscription =
  gs_tenant :: string
  gs_client_id :: string
  gs_filter :: topic_filter
  gs_options :: subscription_options

record client_info_row =
  ci_client_id :: string
  ci_tenant_id :: string
  ci_session_id :: u64
  ci_conn_id :: "u64 option"
  ci_keepalive_secs :: u16
  ci_clean_start :: bool
  ci_connected :: bool
  ci_queued :: nat
  ci_subscriptions :: "string list"

text \<open>The operations on floating-point numbers that a token bucket uses.\<close>

record 'f f64_ops =
  f_of_u32 :: "u32 \<Rightarrow> 'f"
  f_add :: "'f \<Rightarrow> 'f \<Rightarrow> 'f"
  f_sub :: "'f \<Rightarrow> 'f \<Rightarrow> 'f"
  f_mul :: "'f \<Rightarrow> 'f \<Rightarrow> 'f"
  f_min :: "'f \<Rightarrow> 'f \<Rightarrow> 'f"
  f_ge :: "'f \<Rightarrow> 'f \<Rightarrow> bool"
  f_one :: 'f

text \<open>
  \<open>tb_last_update\<close> is a reading of the monotonic clock; the function from two readings to the seconds
  between them is the argument \<open>secs\<close>.
\<close>

record 'f token_bucket =
  tb_rate_per_sec :: u32
  tb_burst :: u32
  tb_tokens :: 'f
  tb_last_update :: nat

type_synonym arc = nat

type_synonym session_map = "(string \<times> (string \<times> arc) list) list"

record 'f manager =
  m_heap :: "session list"
  m_sessions :: session_map
  m_next_session_id :: u64
  m_conn_index :: "(u64 \<times> session_key) list"
  m_conn_counts :: "(string \<times> (string \<times> u32) list) list"
  m_buckets :: "(string \<times> (string \<times> 'f token_bucket) list) list"
  m_connected_count :: u64
  m_max_offline_queue :: "nat option"
  m_max_qos1_inflight :: nat
  m_max_qos1_spill :: nat
  m_max_topic_alias :: u16
  m_durable :: bool

record offline_restore_stats =
  rs_messages :: nat
  rs_clients :: nat
  rs_torn :: u64
  rs_capped_dropped :: nat

text \<open>Maps of two levels: look up, \<open>entry(t).or_default().insert(c, v)\<close>, and removal.\<close>

definition lookup2 :: "('t \<times> ('c \<times> 'v) list) list \<Rightarrow> 't \<Rightarrow> 'c \<Rightarrow> 'v option" where
  "lookup2 m t c = Option.bind (map_of m t) (\<lambda>inner. map_of inner c)"

definition or_default :: "('t \<times> 'a list) list \<Rightarrow> 't \<Rightarrow> 'a list" where
  "or_default m t = (case map_of m t of Some inner \<Rightarrow> inner | None \<Rightarrow> [])"

definition insert2 :: "'t \<Rightarrow> 'c \<Rightarrow> 'v \<Rightarrow> ('t \<times> ('c \<times> 'v) list) list \<Rightarrow> ('t \<times> ('c \<times> 'v) list) list" where
  "insert2 t c v m = AList.update t (AList.update c v (or_default m t)) m"

definition remove2 :: "'t \<Rightarrow> 'c list \<Rightarrow> ('t \<times> ('c \<times> 'v) list) list \<Rightarrow> ('t \<times> ('c \<times> 'v) list) list" where
  "remove2 t cs m =
     (case map_of m t of None \<Rightarrow> m | Some inner \<Rightarrow> AList.update t (fold AList.delete cs inner) m)"

definition prune_empty :: "'t \<Rightarrow> ('t \<times> 'a list) list \<Rightarrow> ('t \<times> 'a list) list" where
  "prune_empty t m = (if map_of m t = Some [] then AList.delete t m else m)"

section \<open>Creation and limits\<close>

definition new_with_all_limits :: "nat option \<Rightarrow> nat \<Rightarrow> nat \<Rightarrow> 'f manager" where
  "new_with_all_limits max_offline_queue max_qos1_inflight max_qos1_spill =
     \<lparr>m_heap = [], m_sessions = [], m_next_session_id = 1, m_conn_index = [], m_conn_counts = [],
      m_buckets = [], m_connected_count = 0,
      m_max_offline_queue = map_option (\<lambda>limit. max limit 1) max_offline_queue,
      m_max_qos1_inflight = max max_qos1_inflight 1, m_max_qos1_spill = max max_qos1_spill 1,
      m_max_topic_alias = DEFAULT_TOPIC_ALIAS_MAXIMUM, m_durable = False\<rparr>"

definition new_with_limits :: "nat option \<Rightarrow> 'f manager" where
  "new_with_limits max_offline_queue =
     new_with_all_limits max_offline_queue DEFAULT_MAX_QOS1_INFLIGHT DEFAULT_MAX_QOS1_SPILL"

definition manager_new :: "'f manager" where
  "manager_new = new_with_all_limits (Some DEFAULT_MAX_OFFLINE_QUEUE)
     DEFAULT_MAX_QOS1_INFLIGHT DEFAULT_MAX_QOS1_SPILL"

definition max_qos1_inflight :: "'f manager \<Rightarrow> nat" where
  "max_qos1_inflight m = max (m_max_qos1_inflight m) 1"

definition set_max_qos1_inflight :: "nat \<Rightarrow> 'f manager \<Rightarrow> 'f manager" where
  "set_max_qos1_inflight limit m = m\<lparr>m_max_qos1_inflight := max limit 1\<rparr>"

definition max_qos1_spill :: "'f manager \<Rightarrow> nat" where
  "max_qos1_spill m = max (m_max_qos1_spill m) 1"

definition set_max_qos1_spill :: "nat \<Rightarrow> 'f manager \<Rightarrow> 'f manager" where
  "set_max_qos1_spill limit m = m\<lparr>m_max_qos1_spill := max limit 1\<rparr>"

definition set_max_topic_alias :: "u16 \<Rightarrow> 'f manager \<Rightarrow> 'f manager" where
  "set_max_topic_alias limit m = m\<lparr>m_max_topic_alias := limit\<rparr>"

definition apply_qos1_limits :: "'f manager \<Rightarrow> session \<Rightarrow> session" where
  "apply_qos1_limits m s = set_max_spill (max_qos1_spill m) (set_max_inflight (max_qos1_inflight m) s)"

definition apply_topic_alias_limits :: "'f manager \<Rightarrow> session \<Rightarrow> session" where
  "apply_topic_alias_limits m s = set_inbound_alias_max (m_max_topic_alias m) s"

text \<open>Reading and changing the session behind a handle.\<close>

definition deref :: "'f manager \<Rightarrow> arc \<Rightarrow> session" where
  "deref m a = m_heap m ! a"

definition with_session :: "arc \<Rightarrow> (session \<Rightarrow> session) \<Rightarrow> 'f manager \<Rightarrow> 'f manager" where
  "with_session a f m = m\<lparr>m_heap := (m_heap m)[a := f (m_heap m ! a)]\<rparr>"

text \<open>\<open>Arc::new\<close>.\<close>

definition alloc :: "session \<Rightarrow> 'f manager \<Rightarrow> arc \<times> 'f manager" where
  "alloc s m = (length (m_heap m), m\<lparr>m_heap := m_heap m @ [s]\<rparr>)"

definition values2 :: "session_map \<Rightarrow> arc list" where
  "values2 m = concat (map (\<lambda>(_, inner). map snd inner) m)"

definition set_offline_store :: "'f manager \<Rightarrow> 'f manager" where
  "set_offline_store m =
     fold (\<lambda>a. with_session a (\<lambda>s. s\<lparr>s_durable := True\<rparr>)) (values2 (m_sessions m)) (m\<lparr>m_durable := True\<rparr>)"

section \<open>Lookup\<close>

definition get_in_tenant :: "'f manager \<Rightarrow> string \<Rightarrow> string \<Rightarrow> arc option" where
  "get_in_tenant m tenant client_id = lookup2 (m_sessions m) tenant client_id"

definition manager_get :: "'f manager \<Rightarrow> string \<Rightarrow> arc option" where
  "manager_get m client_id = get_in_tenant m DEFAULT_TENANT_ID client_id"

definition client_id_for_conn :: "'f manager \<Rightarrow> u64 \<Rightarrow> string option" where
  "client_id_for_conn m conn_id =
     (case map_of (m_conn_index m) conn_id of
        Some owner \<Rightarrow> Some (sk_client_id owner)
      | None \<Rightarrow>
          map_option (\<lambda>a. s_client_id (deref m a))
            (find (\<lambda>a. s_conn_id (deref m a) = Some conn_id) (values2 (m_sessions m))))"

definition key_for_conn :: "'f manager \<Rightarrow> u64 \<Rightarrow> session_key option" where
  "key_for_conn m conn_id = map_of (m_conn_index m) conn_id"

definition session_for_conn :: "'f manager \<Rightarrow> u64 \<Rightarrow> arc option" where
  "session_for_conn m conn_id =
     (case map_of (m_conn_index m) conn_id of
        None \<Rightarrow> None
      | Some owner \<Rightarrow> lookup2 (m_sessions m) (sk_tenant owner) (sk_client_id owner))"

definition key_of :: "session \<Rightarrow> session_key" where
  "key_of s = \<lparr>sk_tenant = s_tenant_id s, sk_client_id = s_client_id s\<rparr>"

definition remove_owned_index :: "u64 \<Rightarrow> session_key \<Rightarrow> (u64 \<times> session_key) list \<Rightarrow> (u64 \<times> session_key) list" where
  "remove_owned_index conn_id key ix =
     (if map_of ix conn_id = Some key then AList.delete conn_id ix else ix)"

definition bind_session :: "u64 \<Rightarrow> arc \<Rightarrow> u64 \<Rightarrow> 'f manager \<Rightarrow> 'f manager" where
  "bind_session now a conn_id m =
     (let key = key_of (deref m a); old = s_conn_id (deref m a) in
      if old = Some conn_id then
        if map_of (m_conn_index m) conn_id = Some key then m
        else m\<lparr>m_conn_index := AList.update conn_id key (m_conn_index m)\<rparr>
      else
        let m = with_session a (\<lambda>s. s\<lparr>s_conn_id := Some conn_id, s_connected_at_ms := Some now\<rparr>) m;
            ix = (case old of Some prev \<Rightarrow> remove_owned_index prev key (m_conn_index m)
                  | None \<Rightarrow> m_conn_index m) in
        m\<lparr>m_conn_index := AList.update conn_id key ix\<rparr>)"

section \<open>Listings\<close>

definition active_sessions :: "'f manager \<Rightarrow> arc list" where
  "active_sessions m = filter (\<lambda>a. s_connected (deref m a)) (values2 (m_sessions m))"

definition active_client_ids :: "'f manager \<Rightarrow> string list" where
  "active_client_ids m =
     sort (map (\<lambda>a. s_client_id (deref m a))
       (filter (\<lambda>a. s_connected (deref m a)) (values2 (m_sessions m))))"

definition active_client_ids_in_tenant :: "'f manager \<Rightarrow> string \<Rightarrow> string list" where
  "active_client_ids_in_tenant m tenant =
     sort (case map_of (m_sessions m) tenant of
        Some inner \<Rightarrow> map (\<lambda>(_, a). s_client_id (deref m a)) (filter (\<lambda>(_, a). s_connected (deref m a)) inner)
      | None \<Rightarrow> [])"

text \<open>One row is pushed unless the bound is reached, where the loops break.\<close>

definition push_row :: "global_subscription \<Rightarrow> global_subscription list \<Rightarrow> global_subscription list" where
  "push_row row rows = (if MAX_GLOBAL_SUBSCRIPTIONS \<le> length rows then rows else rows @ [row])"

definition push_rows ::
  "'f manager \<Rightarrow> string \<Rightarrow> (string \<times> arc) list \<Rightarrow> global_subscription list \<Rightarrow> global_subscription list" where
  "push_rows m tenant inner rows =
     fold (\<lambda>(client_id, a). fold (\<lambda>(f, options).
       push_row \<lparr>gs_tenant = tenant, gs_client_id = client_id, gs_filter = f, gs_options = options\<rparr>)
       (s_subscriptions (deref m a))) inner rows"

definition global_subscriptions :: "'f manager \<Rightarrow> global_subscription list" where
  "global_subscriptions m =
     take MAX_GLOBAL_SUBSCRIPTIONS
       (sort_key (\<lambda>r. (gs_tenant r, gs_client_id r, filter_as_str (gs_filter r)))
         (fold (\<lambda>(tenant, inner). push_rows m tenant inner) (m_sessions m) []))"

definition global_subscriptions_in_tenant :: "'f manager \<Rightarrow> string \<Rightarrow> global_subscription list" where
  "global_subscriptions_in_tenant m tenant =
     take MAX_GLOBAL_SUBSCRIPTIONS
       (sort_key (\<lambda>r. (gs_client_id r, filter_as_str (gs_filter r)))
         (case map_of (m_sessions m) tenant of
            Some inner \<Rightarrow> push_rows m tenant inner [] | None \<Rightarrow> []))"

definition client_info_in_tenant :: "'f manager \<Rightarrow> string \<Rightarrow> string \<Rightarrow> client_info_row option" where
  "client_info_in_tenant m tenant client_id =
     map_option (\<lambda>a. let s = deref m a in
       \<lparr>ci_client_id = s_client_id s, ci_tenant_id = s_tenant_id s, ci_session_id = s_id s,
        ci_conn_id = s_conn_id s, ci_keepalive_secs = s_keepalive_secs s,
        ci_clean_start = s_clean_start s, ci_connected = s_connected s,
        ci_queued = length (s_offline_queue s),
        ci_subscriptions = sort (map (\<lambda>(f, _). filter_as_str f) (s_subscriptions s))\<rparr>)
       (get_in_tenant m tenant client_id)"

definition client_info :: "'f manager \<Rightarrow> string \<Rightarrow> client_info_row option" where
  "client_info m client_id = client_info_in_tenant m DEFAULT_TENANT_ID client_id"

section \<open>Subscriptions of a session\<close>

definition add_subscription_with_options_in_tenant ::
  "string \<Rightarrow> string \<Rightarrow> topic_filter \<Rightarrow> qos \<Rightarrow> u8 \<Rightarrow> u8 \<Rightarrow> u8 \<Rightarrow> 'f manager \<Rightarrow> 'f manager" where
  "add_subscription_with_options_in_tenant tenant client_id f q nl rap rh m =
     (case get_in_tenant m tenant client_id of
        Some a \<Rightarrow> with_session a (\<lambda>s. s\<lparr>s_subscriptions :=
                    AList.update f \<lparr>so_qos = q, so_nl = nl, so_rap = rap, so_rh = rh\<rparr> (s_subscriptions s)\<rparr>) m
      | None \<Rightarrow> m)"

definition add_subscription_with_options ::
  "string \<Rightarrow> topic_filter \<Rightarrow> qos \<Rightarrow> u8 \<Rightarrow> u8 \<Rightarrow> u8 \<Rightarrow> 'f manager \<Rightarrow> 'f manager" where
  "add_subscription_with_options client_id f q nl rap rh m =
     add_subscription_with_options_in_tenant DEFAULT_TENANT_ID client_id f q nl rap rh m"

definition add_subscription_in_tenant ::
  "string \<Rightarrow> string \<Rightarrow> topic_filter \<Rightarrow> qos \<Rightarrow> 'f manager \<Rightarrow> 'f manager" where
  "add_subscription_in_tenant tenant client_id f q m =
     add_subscription_with_options_in_tenant tenant client_id f q 0 0 0 m"

definition add_subscription :: "string \<Rightarrow> topic_filter \<Rightarrow> qos \<Rightarrow> 'f manager \<Rightarrow> 'f manager" where
  "add_subscription client_id f q m = add_subscription_with_options client_id f q 0 0 0 m"

definition remove_subscription_in_tenant ::
  "string \<Rightarrow> string \<Rightarrow> topic_filter \<Rightarrow> 'f manager \<Rightarrow> 'f manager" where
  "remove_subscription_in_tenant tenant client_id f m =
     (case get_in_tenant m tenant client_id of
        Some a \<Rightarrow> with_session a (\<lambda>s. s\<lparr>s_subscriptions := AList.delete f (s_subscriptions s)\<rparr>) m
      | None \<Rightarrow> m)"

definition remove_subscription :: "string \<Rightarrow> topic_filter \<Rightarrow> 'f manager \<Rightarrow> 'f manager" where
  "remove_subscription client_id f m = remove_subscription_in_tenant DEFAULT_TENANT_ID client_id f m"

definition subscription_filters_in_tenant :: "'f manager \<Rightarrow> string \<Rightarrow> string \<Rightarrow> topic_filter list" where
  "subscription_filters_in_tenant m tenant client_id =
     (case get_in_tenant m tenant client_id of
        Some a \<Rightarrow> map fst (s_subscriptions (deref m a))
      | None \<Rightarrow> [])"

definition subscription_filters :: "'f manager \<Rightarrow> string \<Rightarrow> topic_filter list" where
  "subscription_filters m client_id = subscription_filters_in_tenant m DEFAULT_TENANT_ID client_id"

definition take_clean_subscriptions_in_tenant ::
  "string \<Rightarrow> string \<Rightarrow> 'f manager \<Rightarrow> topic_filter list \<times> 'f manager" where
  "take_clean_subscriptions_in_tenant tenant client_id m =
     (case get_in_tenant m tenant client_id of
        Some a \<Rightarrow>
          if drops_state_at_disconnect (deref m a)
          then (map fst (s_subscriptions (deref m a)), with_session a (\<lambda>s. s\<lparr>s_subscriptions := []\<rparr>) m)
          else ([], m)
      | None \<Rightarrow> ([], m))"

definition take_clean_subscriptions :: "string \<Rightarrow> 'f manager \<Rightarrow> topic_filter list \<times> 'f manager" where
  "take_clean_subscriptions client_id m = take_clean_subscriptions_in_tenant DEFAULT_TENANT_ID client_id m"

section \<open>Sessions end\<close>

definition prune_ended_in_tenant :: "u64 \<Rightarrow> string \<Rightarrow> 'f manager \<Rightarrow> 'f manager" where
  "prune_ended_in_tenant now tenant m =
     (let ttl_ms = saturating_mul ENDED_SESSION_TTL_SECS 1000 in
      case map_of (m_sessions m) tenant of
        None \<Rightarrow> m
      | Some inner \<Rightarrow>
          let victims = map fst (filter (\<lambda>(_, a). is_ended_stateless (deref m a) \<and>
                ttl_ms \<le> (case s_ended_at_ms (deref m a) of
                  Some ended_at \<Rightarrow> saturating_sub now ended_at | None \<Rightarrow> 0)) inner) in
          if victims = [] then m
          else m\<lparr>m_sessions := prune_empty tenant (remove2 tenant victims (m_sessions m))\<rparr>)"

text \<open>\<open>min_by_key\<close>: the first of the least elements.\<close>

fun min_by_key :: "('a \<Rightarrow> 'k::linorder) \<Rightarrow> 'a list \<Rightarrow> 'a option" where
  "min_by_key k [] = None"
| "min_by_key k (x # xs) =
    (case min_by_key k xs of None \<Rightarrow> Some x | Some y \<Rightarrow> if k y < k x then Some y else Some x)"

definition enforce_session_cap_locked :: "session list \<Rightarrow> string \<Rightarrow> session_map \<Rightarrow> session_map" where
  "enforce_session_cap_locked heap tenant mp =
     (case map_of mp tenant of
        None \<Rightarrow> mp
      | Some inner \<Rightarrow>
          if length inner \<le> MAX_SESSIONS_PER_TENANT then mp
          else (case min_by_key (\<lambda>(_, a). s_id (heap ! a))
                       (filter (\<lambda>(_, a). is_ended_stateless (heap ! a)) inner) of
                  Some (victim, _) \<Rightarrow> remove2 tenant [victim] mp
                | None \<Rightarrow> mp))"

definition enforce_tenant_cap_locked :: "session list \<Rightarrow> string \<Rightarrow> session_map \<Rightarrow> session_map" where
  "enforce_tenant_cap_locked heap tenant mp =
     (if length mp \<le> MAX_TENANTS then mp
      else case filter (\<lambda>(name, inner). name \<noteq> tenant \<and> list_all (\<lambda>(_, a). is_ended_stateless (heap ! a)) inner) mp of
        (victim, _) # _ \<Rightarrow> AList.delete victim mp
      | [] \<Rightarrow> mp)"

section \<open>Connection slots and publish budgets\<close>

definition acquire_connection_slot_in_tenant ::
  "string \<Rightarrow> string \<Rightarrow> u32 option \<Rightarrow> 'f manager \<Rightarrow> bool \<times> 'f manager" where
  "acquire_connection_slot_in_tenant tenant username limit m =
     (case limit of
        None \<Rightarrow> (True, m)
      | Some limit \<Rightarrow>
          let count = (case lookup2 (m_conn_counts m) tenant username of Some n \<Rightarrow> n | None \<Rightarrow> 0) in
          if limit \<le> count
          then (False, m\<lparr>m_conn_counts := insert2 tenant username count (m_conn_counts m)\<rparr>)
          else (True, m\<lparr>m_conn_counts := insert2 tenant username (count + 1) (m_conn_counts m)\<rparr>))"

definition acquire_connection_slot :: "string \<Rightarrow> u32 option \<Rightarrow> 'f manager \<Rightarrow> bool \<times> 'f manager" where
  "acquire_connection_slot username limit m =
     acquire_connection_slot_in_tenant DEFAULT_TENANT_ID username limit m"

definition checked_dec :: "('a::len) word \<Rightarrow> 'a word" where
  "checked_dec n = (if n = 0 then n else n - 1)"

definition release_connection_slot_in_tenant :: "string \<Rightarrow> string \<Rightarrow> 'f manager \<Rightarrow> 'f manager" where
  "release_connection_slot_in_tenant tenant username m =
     (case lookup2 (m_conn_counts m) tenant username of
        None \<Rightarrow> m
      | Some count \<Rightarrow>
          let counts = insert2 tenant username (checked_dec count) (m_conn_counts m) in
          m\<lparr>m_conn_counts :=
             (if list_all (\<lambda>(_, c). c = 0) (or_default counts tenant) then AList.delete tenant counts
              else counts)\<rparr>)"

definition release_connection_slot :: "string \<Rightarrow> 'f manager \<Rightarrow> 'f manager" where
  "release_connection_slot username m = release_connection_slot_in_tenant DEFAULT_TENANT_ID username m"

definition token_bucket_new :: "'f f64_ops \<Rightarrow> nat \<Rightarrow> u32 \<Rightarrow> u32 \<Rightarrow> 'f token_bucket" where
  "token_bucket_new fl now rate_per_sec burst =
     \<lparr>tb_rate_per_sec = rate_per_sec, tb_burst = burst, tb_tokens = f_of_u32 fl burst, tb_last_update = now\<rparr>"

definition try_consume ::
  "'f f64_ops \<Rightarrow> (nat \<Rightarrow> nat \<Rightarrow> 'f) \<Rightarrow> nat \<Rightarrow> 'f token_bucket \<Rightarrow> bool \<times> 'f token_bucket" where
  "try_consume fl secs now b =
     (let elapsed = secs (tb_last_update b) now;
          b = b\<lparr>tb_last_update := now,
                tb_tokens := f_min fl (f_add fl (tb_tokens b) (f_mul fl elapsed (f_of_u32 fl (tb_rate_per_sec b))))
                               (f_of_u32 fl (tb_burst b))\<rparr> in
      if f_ge fl (tb_tokens b) (f_one fl)
      then (True, b\<lparr>tb_tokens := f_sub fl (tb_tokens b) (f_one fl)\<rparr>)
      else (False, b))"

definition check_publish_budget_in_tenant ::
  "'f f64_ops \<Rightarrow> (nat \<Rightarrow> nat \<Rightarrow> 'f) \<Rightarrow> nat \<Rightarrow> nat \<Rightarrow> string \<Rightarrow> string \<Rightarrow> u32 \<Rightarrow> u32 \<Rightarrow> 'f manager
   \<Rightarrow> bool \<times> 'f manager" where
  "check_publish_budget_in_tenant fl secs created now tenant client_id rate burst m =
     (let fresh = token_bucket_new fl created rate burst;
          b = (case lookup2 (m_buckets m) tenant client_id of
                 Some b \<Rightarrow> if tb_rate_per_sec b \<noteq> rate \<or> tb_burst b \<noteq> burst then fresh else b
               | None \<Rightarrow> fresh);
          (allowed, b) = try_consume fl secs now b in
      (allowed, m\<lparr>m_buckets := insert2 tenant client_id b (m_buckets m)\<rparr>))"

definition check_publish_budget ::
  "'f f64_ops \<Rightarrow> (nat \<Rightarrow> nat \<Rightarrow> 'f) \<Rightarrow> nat \<Rightarrow> nat \<Rightarrow> string \<Rightarrow> u32 \<Rightarrow> u32 \<Rightarrow> 'f manager
   \<Rightarrow> bool \<times> 'f manager" where
  "check_publish_budget fl secs created now client_id rate burst m =
     check_publish_budget_in_tenant fl secs created now DEFAULT_TENANT_ID client_id rate burst m"

section \<open>Connect and disconnect\<close>

text \<open>A new session with the limits of the manager, entered in the map under the caps.\<close>

definition create_session ::
  "u64 \<Rightarrow> string \<Rightarrow> string \<Rightarrow> bool \<Rightarrow> 'f manager \<Rightarrow> arc \<times> 'f manager" where
  "create_session now tenant client_id clean_start m =
     (let sid = m_next_session_id m;
          m = m\<lparr>m_next_session_id := sid + 1\<rparr>;
          s = apply_topic_alias_limits m (apply_qos1_limits m
                (set_tenant_id tenant (session_new now sid client_id clean_start)));
          (a, m) = alloc (s\<lparr>s_durable := m_durable m\<rparr>) m;
          mp = insert2 tenant client_id a (m_sessions m);
          mp = enforce_session_cap_locked (m_heap m) tenant mp;
          mp = enforce_tenant_cap_locked (m_heap m) tenant mp in
      (a, m\<lparr>m_sessions := mp\<rparr>))"

definition get_or_create_in_tenant ::
  "bool \<Rightarrow> u64 \<Rightarrow> string \<Rightarrow> string \<Rightarrow> bool \<Rightarrow> 'f manager \<Rightarrow> offline_store
   \<Rightarrow> (arc \<times> bool) \<times> 'f manager \<times> offline_store" where
  "get_or_create_in_tenant unlink_ok now tenant client_id clean_start m st =
     (let key = session_key_new tenant client_id;
          st = (if clean_start \<and> m_durable m then remove_in_tenant unlink_ok tenant client_id st else st) in
      if clean_start then
        let old = lookup2 (m_sessions m) tenant client_id;
            stale_conn = Option.bind old (\<lambda>a. s_conn_id (deref m a));
            stale_connected = (case old of Some a \<Rightarrow> s_connected (deref m a) | None \<Rightarrow> False);
            (a, m) = create_session now tenant client_id clean_start m;
            m = (if \<not> stale_connected then m\<lparr>m_connected_count := m_connected_count m + 1\<rparr> else m);
            m = (case stale_conn of
                   Some stale \<Rightarrow> m\<lparr>m_conn_index := remove_owned_index stale key (m_conn_index m)\<rparr>
                 | None \<Rightarrow> m) in
        ((a, False), m, st)
      else case lookup2 (m_sessions m) tenant client_id of
        Some a \<Rightarrow>
          let m' = (if \<not> s_connected (deref m a)
                   then (with_session a (\<lambda>s. s\<lparr>s_connected := True, s_connected_at_ms := Some now,
                                              s_ended_at_ms := None\<rparr>) m)
                        \<lparr>m_connected_count := m_connected_count m + 1\<rparr>
                   else m);
              m' = with_session a (\<lambda>s. s\<lparr>s_durable := m_durable m\<rparr>) m' in
          ((a, True), m', st)
      | None \<Rightarrow>
          let (a, m) = create_session now tenant client_id clean_start m in
          ((a, False), m\<lparr>m_connected_count := m_connected_count m + 1\<rparr>, st))"

definition get_or_create ::
  "bool \<Rightarrow> u64 \<Rightarrow> string \<Rightarrow> bool \<Rightarrow> 'f manager \<Rightarrow> offline_store \<Rightarrow> (arc \<times> bool) \<times> 'f manager \<times> offline_store" where
  "get_or_create unlink_ok now client_id clean_start m st =
     get_or_create_in_tenant unlink_ok now DEFAULT_TENANT_ID client_id clean_start m st"

text \<open>\<open>now\<close> is the reading for the expiry check, \<open>now'\<close> the one for the session.\<close>

definition get_or_create_v5_in_tenant ::
  "bool \<Rightarrow> u64 \<Rightarrow> u64 \<Rightarrow> string \<Rightarrow> string \<Rightarrow> bool \<Rightarrow> u8 \<Rightarrow> u32 \<Rightarrow> u16 \<Rightarrow> u32 \<Rightarrow> 'f manager \<Rightarrow> offline_store
   \<Rightarrow> (arc \<times> bool \<times> topic_filter list) \<times> 'f manager \<times> offline_store" where
  "get_or_create_v5_in_tenant unlink_ok now now' tenant client_id clean_start version expiry receive_max max_packet m st =
     (let connect = apply_v5_connect version expiry (max receive_max 1) max_packet in
      if clean_start then
        let ((a, _), m, st) = get_or_create_in_tenant unlink_ok now' tenant client_id True m st in
        ((a, False, []), with_session a connect m, st)
      else
        let expired = (case get_in_tenant m tenant client_id of
                         Some a \<Rightarrow> session_expired now (deref m a) | None \<Rightarrow> False) in
        if expired then
          let swept = subscription_filters_in_tenant m tenant client_id;
              st = (if m_durable m then remove_in_tenant unlink_ok tenant client_id st else st);
              m = m\<lparr>m_sessions := remove2 tenant [client_id] (m_sessions m)\<rparr>;
              ((a, _), m, st) = get_or_create_in_tenant unlink_ok now' tenant client_id False m st in
          ((a, False, swept), with_session a connect m, st)
        else
          let ((a, present), m, st) = get_or_create_in_tenant unlink_ok now' tenant client_id False m st in
          ((a, present, []), with_session a connect m, st))"

definition prune_expired_bounded ::
  "bool \<Rightarrow> u64 \<Rightarrow> string \<Rightarrow> nat \<Rightarrow> 'f manager \<Rightarrow> offline_store
   \<Rightarrow> (string \<times> topic_filter list) list \<times> 'f manager \<times> offline_store" where
  "prune_expired_bounded unlink_ok now tenant max_scan m st =
     (case map_of (m_sessions m) tenant of
        None \<Rightarrow> ([], m, st)
      | Some inner \<Rightarrow>
          let victims = map (\<lambda>(client_id, a). (client_id, map fst (s_subscriptions (deref m a))))
                (filter (\<lambda>(_, a). s_protocol_version (deref m a) = 5 \<and> session_expired now (deref m a))
                  (take (max max_scan 1) inner)) in
          if victims = [] then (victims, m, st)
          else (victims,
            m\<lparr>m_sessions := prune_empty tenant (remove2 tenant (map fst victims) (m_sessions m))\<rparr>,
            if m_durable m then fold (\<lambda>(c, _). remove_in_tenant unlink_ok tenant c) victims st else st))"

text \<open>The part of \<open>unbind_connection_in_tenant\<close> that changes the session: the state after a detach.\<close>

definition detached :: "u64 \<Rightarrow> session \<Rightarrow> session" where
  "detached now s =
     (let s = clear_aliases (s\<lparr>s_conn_id := None, s_connected := False\<rparr>);
          s = (if drops_state_at_disconnect s
               then (clear_qos2_outbound (clear_qos2_inbound (clear_inflight s)))\<lparr>s_subscriptions := []\<rparr>
               else s) in
      s\<lparr>s_ended_at_ms := Some now\<rparr>)"

text \<open>\<open>now\<close> is the reading for the end of the session, \<open>now'\<close> the one for the removal of ended sessions.\<close>

definition unbind_connection_in_tenant ::
  "u64 \<Rightarrow> u64 \<Rightarrow> string \<Rightarrow> string \<Rightarrow> u64 \<Rightarrow> 'f manager \<Rightarrow> topic_filter list \<times> 'f manager" where
  "unbind_connection_in_tenant now now' tenant client_id conn_id m =
     (let key = session_key_new tenant client_id;
          (username, swept, did_detach, m) =
            (case lookup2 (m_sessions m) tenant client_id of
               Some a \<Rightarrow>
                 let s = deref m a in
                 if s_conn_id s = Some conn_id then
                   (s_username s,
                    if drops_state_at_disconnect s then map fst (s_subscriptions s) else [],
                    s_connected s, with_session a (detached now) m)
                 else (None, [], False, m)
             | None \<Rightarrow> (None, [], False, m));
          m = (if did_detach then m\<lparr>m_connected_count := checked_dec (m_connected_count m)\<rparr> else m);
          m = (case username of Some u \<Rightarrow> release_connection_slot_in_tenant tenant u m | None \<Rightarrow> m);
          m = m\<lparr>m_conn_index := remove_owned_index conn_id key (m_conn_index m)\<rparr>;
          m = m\<lparr>m_buckets := prune_empty tenant (remove2 tenant [client_id] (m_buckets m))\<rparr> in
      (swept, prune_ended_in_tenant now' tenant m))"

definition unbind_connection :: "u64 \<Rightarrow> u64 \<Rightarrow> string \<Rightarrow> u64 \<Rightarrow> 'f manager \<Rightarrow> topic_filter list \<times> 'f manager" where
  "unbind_connection now now' client_id conn_id m =
     unbind_connection_in_tenant now now' DEFAULT_TENANT_ID client_id conn_id m"

section \<open>Offline queues\<close>

definition queue_offline_in_tenant ::
  "u64 \<Rightarrow> append_io \<Rightarrow> rewrite_env \<Rightarrow> string \<Rightarrow> string \<Rightarrow> queued_message \<Rightarrow> 'f manager \<Rightarrow> offline_store
   \<Rightarrow> bool \<times> 'f manager \<times> offline_store" where
  "queue_offline_in_tenant now aio rio tenant client_id message m st =
     (case get_in_tenant m tenant client_id of
        Some a \<Rightarrow>
          let (ok, s, st) = push_offline_with_limit now aio rio message (m_max_offline_queue m) (deref m a) st in
          (ok, with_session a (\<lambda>_. s) m, st)
      | None \<Rightarrow> (False, m, st))"

definition queue_offline ::
  "u64 \<Rightarrow> append_io \<Rightarrow> rewrite_env \<Rightarrow> string \<Rightarrow> queued_message \<Rightarrow> 'f manager \<Rightarrow> offline_store
   \<Rightarrow> bool \<times> 'f manager \<times> offline_store" where
  "queue_offline now aio rio client_id message m st =
     queue_offline_in_tenant now aio rio DEFAULT_TENANT_ID client_id message m st"

text \<open>The outcomes of the system calls made for one queue file, and the clock.\<close>

record restore_env =
  re_load :: load_io
  re_truncate_ok :: bool
  re_unlink_ok :: bool
  re_rewrite :: rewrite_env
  re_now :: u64

text \<open>One round of the loop of \<open>restore_offline_queues\<close>.\<close>

definition restore_one ::
  "restore_env \<Rightarrow> string \<times> string \<Rightarrow> offline_restore_stats \<times> 'f manager \<times> offline_store
   \<Rightarrow> offline_restore_stats \<times> 'f manager \<times> offline_store" where
  "restore_one env key acc =
     (let (tenant, client_id) = key;
          (stats, m, st) = acc;
          ((records, torn), st) = load_in_tenant (re_load env) (re_truncate_ok env) tenant client_id st;
          stats = stats\<lparr>rs_torn := rs_torn stats + torn\<rparr> in
      if records = [] then
        (stats, m, if torn > 0 then remove_in_tenant (re_unlink_ok env) tenant client_id st else st)
      else if lookup2 (m_sessions m) tenant client_id \<noteq> None then (stats, m, st)
      else
        let messages = map of_record records;
            sid = m_next_session_id m;
            m = m\<lparr>m_next_session_id := sid + 1\<rparr>;
            s = apply_topic_alias_limits m (apply_qos1_limits m
                  (set_tenant_id tenant (session_new (re_now env) sid client_id False)));
            s = s\<lparr>s_durable := True, s_connected := False\<rparr>;
            (dropped, s) = push_restored_with_limit messages (m_max_offline_queue m) s;
            stats = stats\<lparr>rs_capped_dropped := rs_capped_dropped stats + dropped\<rparr>;
            st = (if dropped > 0 then
                    (let (io, unlink_ok, pid) = re_rewrite env in
                     snd (rewrite_in_tenant io unlink_ok pid tenant client_id
                            (map to_record (s_offline_queue s)) st))
                  else st);
            restored = length (s_offline_queue s);
            (a, m) = alloc s m;
            m = m\<lparr>m_sessions := insert2 tenant client_id a (m_sessions m)\<rparr>;
            stats = (if restored > 0
                     then stats\<lparr>rs_messages := rs_messages stats + restored, rs_clients := rs_clients stats + 1\<rparr>
                     else stats) in
        (stats, m, st))"

definition restore_offline_queues ::
  "dir_io \<Rightarrow> (string \<times> string \<Rightarrow> restore_env) \<Rightarrow> 'f manager \<Rightarrow> offline_store
   \<Rightarrow> offline_restore_stats \<times> 'f manager \<times> offline_store" where
  "restore_offline_queues io env m st =
     (let zero = \<lparr>rs_messages = 0, rs_clients = 0, rs_torn = 0, rs_capped_dropped = 0\<rparr> in
      if \<not> m_durable m then (zero, m, st)
      else fold (\<lambda>key. restore_one (env key) key) (queue_keys io st) (zero, m, st))"

end
