(* ===== verification/Manager_Laws.thy ===== *)
theory Manager_Laws
  imports Session_Manager
begin

text \<open>
  Laws of the session manager: what each operation does to the sessions that the manager shows, and
  the invariant \<open>manager_ok\<close>: every session stands under its own tenant and client, the index names
  only the session that holds the connection, and the counter is the number of connected sessions.
\<close>

section \<open>Maps of two levels\<close>

lemma lookup2_insert2 [simp]:
  "lookup2 (insert2 t c v mp) t' c' = (if t' = t \<and> c' = c then Some v else lookup2 mp t' c')"
  by (auto simp: lookup2_def insert2_def or_default_def AList.update_conv' split: option.splits)

lemma lookup2_remove2 [simp]:
  "lookup2 (remove2 t cs mp) t' c' = (if t' = t \<and> c' \<in> set cs then None else lookup2 mp t' c')"
  by (auto simp: lookup2_def remove2_def AList.update_conv' map_of_fold_delete split: option.splits)

lemma lookup2_prune_empty [simp]: "lookup2 (prune_empty t mp) t' c' = lookup2 mp t' c'"
  by (auto simp: lookup2_def prune_empty_def AList.delete_conv')

lemma lookup2_delete [simp]:
  "lookup2 (AList.delete t mp) t' c' = (if t' = t then None else lookup2 mp t' c')"
  by (simp add: lookup2_def AList.delete_conv')

text \<open>The keys of both levels are distinct.\<close>

definition keys2_ok :: "('t \<times> ('c \<times> 'v) list) list \<Rightarrow> bool" where
  "keys2_ok mp \<longleftrightarrow> distinct (map fst mp) \<and> (\<forall>(t, inner) \<in> set mp. distinct (map fst inner))"

lemma keys2_ok_Nil [simp]: "keys2_ok []"
  by (simp add: keys2_ok_def)

lemma keys2_ok_update:
  assumes "keys2_ok mp" and "distinct (map fst inner)"
  shows "keys2_ok (AList.update t inner mp)"
  using assms set_update_subset [of t inner mp]
  by (auto simp: keys2_ok_def distinct_update)

lemma keys2_ok_or_default: "keys2_ok mp \<Longrightarrow> distinct (map fst (or_default mp t))"
  by (auto simp: keys2_ok_def or_default_def split: option.split dest: map_of_SomeD)

lemma keys2_ok_insert2: "keys2_ok mp \<Longrightarrow> keys2_ok (insert2 t c v mp)"
  by (simp add: insert2_def keys2_ok_update keys2_ok_or_default distinct_update)

lemma keys2_ok_remove2: "keys2_ok mp \<Longrightarrow> keys2_ok (remove2 t cs mp)"
  using keys2_ok_or_default [of mp t]
  by (auto simp: remove2_def or_default_def distinct_fold_delete intro!: keys2_ok_update split: option.split)

lemma keys2_ok_delete: "keys2_ok mp \<Longrightarrow> keys2_ok (AList.delete t mp)"
  using AList.distinct_delete [of mp t] by (auto simp: keys2_ok_def AList.delete_eq)

lemma keys2_ok_prune_empty: "keys2_ok mp \<Longrightarrow> keys2_ok (prune_empty t mp)"
  by (simp add: prune_empty_def keys2_ok_delete)

lemmas keys2_intros = keys2_ok_insert2 keys2_ok_remove2 keys2_ok_delete keys2_ok_prune_empty

lemma finite_lookup2: "finite {(t, c). lookup2 mp t c \<noteq> None}"
proof -
  have "{(t, c). lookup2 mp t c \<noteq> None} \<subseteq> fst ` set mp \<times> (\<Union>(t, inner) \<in> set mp. fst ` set inner)"
    by (force simp: lookup2_def bind_eq_Some_conv dest: map_of_SomeD)
  then show ?thesis by (rule finite_subset) (simp add: case_prod_beta)
qed

lemma lookup2_values2: "lookup2 mp t c = Some a \<Longrightarrow> a \<in> set (values2 mp)"
  by (force simp: lookup2_def values2_def bind_eq_Some_conv dest: map_of_SomeD)

lemma values2_lookup2: "keys2_ok mp \<Longrightarrow> a \<in> set (values2 mp) \<Longrightarrow> \<exists>t c. lookup2 mp t c = Some a"
  by (fastforce simp: keys2_ok_def values2_def lookup2_def bind_eq_Some_conv)

section \<open>The view of a manager\<close>

text \<open>What a manager shows: the session of each tenant and client.\<close>

definition sess :: "'f manager \<Rightarrow> string \<Rightarrow> string \<Rightarrow> session option" where
  "sess m t c = map_option (deref m) (get_in_tenant m t c)"

text \<open>Handles are valid, and no two keys share a session.\<close>

definition handles_ok :: "'f manager \<Rightarrow> bool" where
  "handles_ok m \<longleftrightarrow> keys2_ok (m_sessions m) \<and>
     (\<forall>t c a. get_in_tenant m t c = Some a \<longrightarrow> a < length (m_heap m)) \<and>
     (\<forall>t c t' c' a. get_in_tenant m t c = Some a \<longrightarrow> get_in_tenant m t' c' = Some a \<longrightarrow> t = t' \<and> c = c')"

lemma handles_okD:
  assumes "handles_ok m"
  shows "keys2_ok (m_sessions m)" "get_in_tenant m t c = Some a \<Longrightarrow> a < length (m_heap m)"
    "get_in_tenant m t c = Some a \<Longrightarrow> get_in_tenant m t' c' = Some a \<Longrightarrow> t = t' \<and> c = c'"
  using assms unfolding handles_ok_def by blast+

lemma sess_with_session [simp]:
  assumes "handles_ok m" and "get_in_tenant m t c = Some a"
  shows "sess (with_session a f m) t' c' =
    (if t' = t \<and> c' = c then Some (f (deref m a)) else sess m t' c')"
proof (cases "get_in_tenant m t' c'")
  case (Some b)
  have "b = a \<longleftrightarrow> t' = t \<and> c' = c" using handles_okD(3) [OF assms(1), of t c a t' c'] assms(2) Some by auto
  then show ?thesis using Some handles_okD(2) [OF assms(1)] assms(2)
    by (auto simp: sess_def get_in_tenant_def with_session_def deref_def)
qed (use assms in \<open>auto simp: sess_def get_in_tenant_def with_session_def\<close>)

lemma with_session_fields [simp]:
  "m_sessions (with_session a f m) = m_sessions m" "m_conn_index (with_session a f m) = m_conn_index m"
  "m_connected_count (with_session a f m) = m_connected_count m" "m_durable (with_session a f m) = m_durable m"
  "m_conn_counts (with_session a f m) = m_conn_counts m" "m_buckets (with_session a f m) = m_buckets m"
  "m_max_offline_queue (with_session a f m) = m_max_offline_queue m"
  "length (m_heap (with_session a f m)) = length (m_heap m)"
  "get_in_tenant (with_session a f m) t c = get_in_tenant m t c"
  "handles_ok (with_session a f m) = handles_ok m"
  by (simp_all add: with_session_def get_in_tenant_def handles_ok_def)

lemma deref_with_session [simp]:
  "a < length (m_heap m) \<Longrightarrow> deref (with_session a f m) a = f (deref m a)"
  "b \<noteq> a \<Longrightarrow> deref (with_session a f m) b = deref m b"
  by (simp_all add: with_session_def deref_def)

lemma sess_Some: "sess m t c = Some s \<longleftrightarrow> (\<exists>a. get_in_tenant m t c = Some a \<and> deref m a = s)"
  by (auto simp: sess_def)

text \<open>Connected sessions.\<close>

definition live :: "(string \<Rightarrow> string \<Rightarrow> session option) \<Rightarrow> (string \<times> string) set" where
  "live V = {(t, c). \<exists>s. V t c = Some s \<and> s_connected s}"

lemma finite_live [simp]: "finite (live (sess m))"
  by (rule finite_subset [OF _ finite_lookup2 [of "m_sessions m"]])
    (auto simp: live_def sess_def get_in_tenant_def)

text \<open>A session stands under its own key, and only a connected session has a connection.\<close>

definition session_ok :: "string \<Rightarrow> string \<Rightarrow> session \<Rightarrow> bool" where
  "session_ok t c s \<longleftrightarrow> s_tenant_id s = t \<and> s_client_id s = c \<and>
     s_tenant_is_default s = (t = DEFAULT_TENANT_ID) \<and> (s_conn_id s \<noteq> None \<longrightarrow> s_connected s)"

definition index_ok :: "(u64 \<times> session_key) list \<Rightarrow> (string \<Rightarrow> string \<Rightarrow> session option) \<Rightarrow> bool" where
  "index_ok ix V \<longleftrightarrow> (\<forall>k key. map_of ix k = Some key \<longrightarrow>
     (\<exists>s. V (sk_tenant key) (sk_client_id key) = Some s \<and> s_conn_id s = Some k))"

definition manager_ok :: "'f manager \<Rightarrow> bool" where
  "manager_ok m \<longleftrightarrow> handles_ok m \<and> (\<forall>t c s. sess m t c = Some s \<longrightarrow> session_ok t c s) \<and>
     index_ok (m_conn_index m) (sess m) \<and> m_connected_count m = of_nat (card (live (sess m)))"

lemma manager_okD:
  assumes "manager_ok m"
  shows "handles_ok m" "sess m t c = Some s \<Longrightarrow> session_ok t c s" "index_ok (m_conn_index m) (sess m)"
    "m_connected_count m = of_nat (card (live (sess m)))"
  using assms unfolding manager_ok_def by blast+

lemma handles_ok_submap:
  assumes "handles_ok m" and "length (m_heap m) \<le> length (m_heap m')" and "keys2_ok (m_sessions m')"
    and "\<And>t c a. get_in_tenant m' t c = Some a \<Longrightarrow> get_in_tenant m t c = Some a"
  shows "handles_ok m'"
  using assms unfolding handles_ok_def by (meson order_less_le_trans)

text \<open>What the removal of sessions may do: sessions that are not connected disappear.\<close>

definition shrinks :: "(session \<Rightarrow> bool) \<Rightarrow> (string \<Rightarrow> string \<Rightarrow> session option) \<Rightarrow>
  (string \<Rightarrow> string \<Rightarrow> session option) \<Rightarrow> bool" where
  "shrinks P V W \<longleftrightarrow> (\<forall>t c. W t c = V t c \<or> W t c = None \<and> (\<exists>s. V t c = Some s \<and> P s))"

lemma shrinks_refl [simp]: "shrinks P V V"
  by (simp add: shrinks_def)

lemma shrinks_trans: "shrinks P V W \<Longrightarrow> shrinks P W X \<Longrightarrow> shrinks P V X"
  unfolding shrinks_def by metis

lemma shrinks_live:
  assumes "shrinks P V W" and "\<And>s. P s \<Longrightarrow> \<not> s_connected s"
  shows "live W = live V"
proof -
  have "(\<exists>s. W t c = Some s \<and> s_connected s) \<longleftrightarrow> (\<exists>s. V t c = Some s \<and> s_connected s)" for t c
    using assms(1) [unfolded shrinks_def, rule_format, of t c] assms(2) by (elim disjE) (simp, auto)
  then show ?thesis by (simp add: live_def)
qed

lemma shrinks_index:
  assumes "shrinks P V W" and "\<And>s. P s \<Longrightarrow> \<not> s_connected s" and "index_ok ix V"
    and "\<And>t c s. V t c = Some s \<Longrightarrow> session_ok t c s"
  shows "index_ok ix W"
  unfolding index_ok_def
proof (intro allI impI)
  fix k key assume "map_of ix k = Some key"
  then obtain s where s: "V (sk_tenant key) (sk_client_id key) = Some s" "s_conn_id s = Some k"
    using assms(3) unfolding index_ok_def by blast
  then have "\<not> P s" using assms(2,4) unfolding session_ok_def by fastforce
  with s show "\<exists>s. W (sk_tenant key) (sk_client_id key) = Some s \<and> s_conn_id s = Some k"
    using assms(1) unfolding shrinks_def by (metis option.inject)
qed

lemma manager_ok_shrink:
  assumes ok: "manager_ok m" and "handles_ok m'" and sh: "shrinks P (sess m) (sess m')"
    and P: "\<And>s. P s \<Longrightarrow> \<not> s_connected s"
    and "m_conn_index m' = m_conn_index m" and "m_connected_count m' = m_connected_count m"
  shows "manager_ok m'"
proof -
  have "sess m' t c = Some s \<Longrightarrow> session_ok t c s" for t c s
    using sh manager_okD(2) [OF ok] unfolding shrinks_def by (metis option.distinct(1))
  then show ?thesis
    using assms(2,5,6) manager_okD(4) [OF ok] shrinks_live [OF sh P]
      shrinks_index [OF sh P manager_okD(3) [OF ok] manager_okD(2) [OF ok]]
    unfolding manager_ok_def by simp
qed

text \<open>A change that keeps the identity and the connection of a session.\<close>

definition same_binding :: "session \<Rightarrow> session \<Rightarrow> bool" where
  "same_binding s s' \<longleftrightarrow> s_tenant_id s' = s_tenant_id s \<and> s_client_id s' = s_client_id s \<and>
     s_tenant_is_default s' = s_tenant_is_default s \<and> s_connected s' = s_connected s \<and>
     s_conn_id s' = s_conn_id s"

lemma same_binding_refl [simp]: "same_binding s s"
  by (simp add: same_binding_def)

lemma session_ok_binding: "same_binding s s' \<Longrightarrow> session_ok t c s' = session_ok t c s"
  by (simp add: same_binding_def session_ok_def)

lemma manager_ok_binding:
  assumes ok: "manager_ok m" and "handles_ok m'"
    and rel: "\<And>t c. rel_option same_binding (sess m t c) (sess m' t c)"
    and "m_conn_index m' = m_conn_index m" and "m_connected_count m' = m_connected_count m"
  shows "manager_ok m'"
proof -
  have bwd: "\<exists>s. sess m t c = Some s \<and> same_binding s s'" if "sess m' t c = Some s'" for t c s'
    using rel [of t c] that by (cases "sess m t c") auto
  have fwd: "\<exists>s'. sess m' t c = Some s' \<and> same_binding s s'" if "sess m t c = Some s" for t c s
    using rel [of t c] that by (cases "sess m' t c") auto
  have "live (sess m') = live (sess m)"
    unfolding live_def using bwd fwd by (auto simp: same_binding_def) (metis (full_types))+
  moreover have "session_ok t c s'" if "sess m' t c = Some s'" for t c s'
    using bwd [OF that] manager_okD(2) [OF ok] session_ok_binding by metis
  moreover have "index_ok (m_conn_index m) (sess m')"
    unfolding index_ok_def
  proof (intro allI impI)
    fix k key assume "map_of (m_conn_index m) k = Some key"
    then obtain s where s: "sess m (sk_tenant key) (sk_client_id key) = Some s" "s_conn_id s = Some k"
      using manager_okD(3) [OF ok] unfolding index_ok_def by blast
    show "\<exists>s. sess m' (sk_tenant key) (sk_client_id key) = Some s \<and> s_conn_id s = Some k"
      using fwd [OF s(1)] s(2) by (auto simp: same_binding_def)
  qed
  ultimately show ?thesis using assms(2,4,5) manager_okD(4) [OF ok] by (simp add: manager_ok_def)
qed

lemma manager_ok_with_session:
  assumes ok: "manager_ok m" and a: "get_in_tenant m t c = Some a" and f: "same_binding (deref m a) (f (deref m a))"
  shows "manager_ok (with_session a f m)"
proof (rule manager_ok_binding [OF ok])
  have h: "handles_ok m" using manager_okD(1) [OF ok] .
  then show "handles_ok (with_session a f m)" by simp
  have s: "sess m t c = Some (deref m a)" using a by (simp add: sess_def)
  show "rel_option same_binding (sess m t' c') (sess (with_session a f m) t' c')" for t' c'
    using s f by (auto simp: sess_with_session [OF h a] intro: option.rel_refl)
qed simp_all

section \<open>Creation under the caps\<close>

lemma min_by_key_in: "min_by_key k xs = Some x \<Longrightarrow> x \<in> set xs"
  by (induction xs arbitrary: x) (auto split: option.splits if_splits)

lemma keys2_ok_inner: "keys2_ok mp \<Longrightarrow> map_of mp t = Some inner \<Longrightarrow> distinct (map fst inner)"
  by (auto simp: keys2_ok_def dest: map_of_SomeD)

lemma lookup2_inner: "keys2_ok mp \<Longrightarrow> map_of mp t = Some inner \<Longrightarrow> (c, a) \<in> set inner \<Longrightarrow> lookup2 mp t c = Some a"
  by (simp add: lookup2_def keys2_ok_inner)

lemma enforce_session_cap:
  fixes mp :: session_map and heap t
  defines "mp' \<equiv> enforce_session_cap_locked heap t mp"
  assumes "keys2_ok mp"
  shows "keys2_ok mp'"
    and "lookup2 mp' t' c = lookup2 mp t' c \<or>
      lookup2 mp' t' c = None \<and> t' = t \<and> (\<exists>a. lookup2 mp t' c = Some a \<and> is_ended_stateless (heap ! a))"
proof -
  have cs: "mp' = mp \<or> (\<exists>victim a inner. mp' = remove2 t [victim] mp \<and> map_of mp t = Some inner
      \<and> (victim, a) \<in> set inner \<and> is_ended_stateless (heap ! a))"
    by (auto simp: mp'_def enforce_session_cap_locked_def split: option.split if_split prod.split
        dest!: min_by_key_in)
  then show "keys2_ok mp'" using assms(2) keys2_ok_remove2 by metis
  show "lookup2 mp' t' c = lookup2 mp t' c \<or>
      lookup2 mp' t' c = None \<and> t' = t \<and> (\<exists>a. lookup2 mp t' c = Some a \<and> is_ended_stateless (heap ! a))"
    using cs by (auto dest: lookup2_inner [OF assms(2)] split: if_splits)
qed

lemma enforce_tenant_cap:
  fixes mp :: session_map and heap t
  defines "mp' \<equiv> enforce_tenant_cap_locked heap t mp"
  assumes "keys2_ok mp"
  shows "keys2_ok mp'"
    and "lookup2 mp' t' c = lookup2 mp t' c \<or>
      lookup2 mp' t' c = None \<and> t' \<noteq> t \<and> MAX_TENANTS < length mp \<and>
      (\<exists>a. lookup2 mp t' c = Some a \<and> is_ended_stateless (heap ! a))"
proof -
  have cs: "mp' = mp \<or> (\<exists>victim inner. mp' = AList.delete victim mp \<and> (victim, inner) \<in> set mp
      \<and> victim \<noteq> t \<and> (\<forall>(_, a) \<in> set inner. is_ended_stateless (heap ! a)) \<and> MAX_TENANTS < length mp)"
    by (fastforce simp: mp'_def enforce_tenant_cap_locked_def list_all_iff split: list.split if_split
        dest!: filter_eq_ConsD)
  then show "keys2_ok mp'" using assms(2) keys2_ok_delete by metis
  have inner: "map_of mp victim = Some inner" if "(victim, inner) \<in> set mp" for victim inner
    using assms(2) that by (simp add: keys2_ok_def)
  show "lookup2 mp' t' c = lookup2 mp t' c \<or>
      lookup2 mp' t' c = None \<and> t' \<noteq> t \<and> MAX_TENANTS < length mp \<and>
      (\<exists>a. lookup2 mp t' c = Some a \<and> is_ended_stateless (heap ! a))"
    using cs
  proof (elim disjE exE conjE)
    fix victim inner
    assume *: "mp' = AList.delete victim mp" "(victim, inner) \<in> set mp" "victim \<noteq> t"
      "\<forall>(_, a) \<in> set inner. is_ended_stateless (heap ! a)" "MAX_TENANTS < length mp"
    show ?thesis
    proof (cases "t' = victim")
      case True
      have none: "lookup2 mp' t' c = None" using True by (simp add: *(1))
      have "is_ended_stateless (heap ! a)" if "lookup2 mp t' c = Some a" for a
        using that inner [OF *(2)] True *(4) by (auto simp: lookup2_def dest!: map_of_SomeD)
      then show ?thesis using none *(3,5) True by (cases "lookup2 mp t' c") auto
    qed (simp add: *(1))
  qed simp
qed

text \<open>A new session with the limits of its manager.\<close>

definition fresh_session :: "u64 \<Rightarrow> string \<Rightarrow> string \<Rightarrow> bool \<Rightarrow> 'f manager \<Rightarrow> session" where
  "fresh_session now t c clean m =
     (set_inbound_alias_max (m_max_topic_alias m) (set_max_spill (max_qos1_spill m)
        (set_max_inflight (max_qos1_inflight m) (set_tenant_id t (session_new now (m_next_session_id m) c clean)))))
     \<lparr>s_durable := m_durable m\<rparr>"

lemma fresh_session_fields [simp]:
  "s_connected (fresh_session now t c clean m)" "s_conn_id (fresh_session now t c clean m) = None"
  "s_subscriptions (fresh_session now t c clean m) = []" "s_offline_queue (fresh_session now t c clean m) = []"
  "session_ok t c (fresh_session now t c clean m)" "s_durable (fresh_session now t c clean m) = m_durable m"
  by (simp_all add: fresh_session_def set_inbound_alias_max_def set_max_spill_def set_max_inflight_def
      set_tenant_id_def session_new_def session_ok_def Let_def)

text \<open>The view with one session replaced.\<close>

definition put :: "string \<Rightarrow> string \<Rightarrow> session \<Rightarrow> (string \<Rightarrow> string \<Rightarrow> session option) \<Rightarrow>
  string \<Rightarrow> string \<Rightarrow> session option" where
  "put t c s V = (\<lambda>t' c'. if t' = t \<and> c' = c then Some s else V t' c')"

lemma put_simps [simp]:
  "put t c s V t c = Some s" "t' \<noteq> t \<Longrightarrow> put t c s V t' c' = V t' c'" "c' \<noteq> c \<Longrightarrow> put t c s V t' c' = V t' c'"
  by (simp_all add: put_def)

text \<open>The map after a session was entered and both caps were enforced.\<close>

definition entered :: "session list \<Rightarrow> string \<Rightarrow> string \<Rightarrow> arc \<Rightarrow> session_map \<Rightarrow> session_map" where
  "entered heap t c a mp =
     enforce_tenant_cap_locked heap t (enforce_session_cap_locked heap t (insert2 t c a mp))"

lemma entered:
  assumes k: "keys2_ok mp"
  shows "keys2_ok (entered heap t c a mp)"
    "lookup2 (entered heap t c a mp) t' c' = (if t' = t \<and> c' = c then Some a else lookup2 mp t' c') \<or>
     lookup2 (entered heap t c a mp) t' c' = None \<and>
     (\<exists>b. (if t' = t \<and> c' = c then Some a else lookup2 mp t' c') = Some b \<and> is_ended_stateless (heap ! b))"
    "length mp < MAX_TENANTS \<Longrightarrow> t' \<noteq> t \<Longrightarrow> lookup2 (entered heap t c a mp) t' c' = lookup2 mp t' c'"
proof -
  define mp0 where "mp0 = insert2 t c a mp"
  define mp1 where "mp1 = enforce_session_cap_locked heap t mp0"
  have e: "entered heap t c a mp = enforce_tenant_cap_locked heap t mp1"
    by (simp add: entered_def mp0_def mp1_def)
  have k0: "keys2_ok mp0" unfolding mp0_def by (intro keys2_intros k)
  note cap1 = enforce_session_cap [OF k0, of heap t, folded mp1_def]
  note cap2 = enforce_tenant_cap [OF cap1(1), of heap t, folded e]
  show "keys2_ok (entered heap t c a mp)" by (rule cap2(1))
  have look0: "lookup2 mp0 t' c' = (if t' = t \<and> c' = c then Some a else lookup2 mp t' c')" for t' c'
    by (simp add: mp0_def)
  show "lookup2 (entered heap t c a mp) t' c' = (if t' = t \<and> c' = c then Some a else lookup2 mp t' c') \<or>
     lookup2 (entered heap t c a mp) t' c' = None \<and>
     (\<exists>b. (if t' = t \<and> c' = c then Some a else lookup2 mp t' c') = Some b \<and> is_ended_stateless (heap ! b))"
    using cap1(2) [of t' c'] cap2(2) [of t' c'] unfolding look0 [symmetric] by metis
  assume *: "length mp < MAX_TENANTS" "t' \<noteq> t"
  have "length mp0 \<le> MAX_TENANTS"
    using length_update_le [of t _ mp] *(1) unfolding mp0_def insert2_def by (meson Suc_leI le_trans)
  moreover have "length mp1 \<le> length mp0"
    by (auto simp: mp1_def enforce_session_cap_locked_def remove2_def length_update_same
        split: option.split prod.split)
  ultimately show "lookup2 (entered heap t c a mp) t' c' = lookup2 mp t' c'"
    using cap1(2) [of t' c'] cap2(2) [of t' c'] *(2) look0 [of t' c'] by auto
qed

lemma create_session_eq:
  "create_session now t c clean m =
    (length (m_heap m), let H = m_heap m @ [fresh_session now t c clean m] in
     m\<lparr>m_next_session_id := m_next_session_id m + 1, m_heap := H,
       m_sessions := entered H t c (length (m_heap m)) (m_sessions m)\<rparr>)"
  by (simp add: create_session_def alloc_def Let_def apply_topic_alias_limits_def entered_def
      apply_qos1_limits_def max_qos1_spill_def max_qos1_inflight_def fresh_session_def)

lemma create_session_fields:
  assumes "create_session now t c clean m = (a, m')"
  shows "m_conn_index m' = m_conn_index m" "m_connected_count m' = m_connected_count m"
    "m_durable m' = m_durable m" "m_conn_counts m' = m_conn_counts m" "m_buckets m' = m_buckets m"
    "m_max_offline_queue m' = m_max_offline_queue m"
  using assms by (auto simp: create_session_eq Let_def)

lemma create_session:
  assumes h: "handles_ok m" and c: "create_session now t c clean m = (a, m')"
  shows "handles_ok m'" "get_in_tenant m' t c = Some a" "deref m' a = fresh_session now t c clean m"
    "shrinks is_ended_stateless (put t c (fresh_session now t c clean m) (sess m)) (sess m')"
    "length (m_sessions m) < MAX_TENANTS \<Longrightarrow> t' \<noteq> t \<Longrightarrow> sess m' t' c' = sess m t' c'"
proof -
  define s where "s = fresh_session now t c clean m"
  define H where "H = m_heap m @ [s]"
  define mp where "mp = entered H t c a (m_sessions m)"
  have m': "a = length (m_heap m)" "m_heap m' = H" "m_sessions m' = mp"
    using c by (auto simp: create_session_eq H_def s_def mp_def Let_def)
  note e = entered [OF handles_okD(1) [OF h], where heap = H and t = t and c = c and a = a, folded mp_def get_in_tenant_def]
  have s_live: "\<not> is_ended_stateless s" by (simp add: is_ended_stateless_def s_def)
  have Ha: "H ! a = s" by (simp add: H_def m'(1))
  have Hb: "b < a \<and> H ! b = deref m b" if "get_in_tenant m t' c' = Some b" for t' c' b
    using handles_okD(2) [OF h that] by (simp add: H_def deref_def nth_append m'(1))
  have get: "get_in_tenant m' t' c' = lookup2 mp t' c'" for t' c' by (simp add: get_in_tenant_def m'(3))
  show "get_in_tenant m' t c = Some a" using e(2) [of t c] s_live Ha by (auto simp: get)
  show "deref m' a = fresh_session now t c clean m" by (simp add: deref_def m'(2) Ha s_def)
  have sub: "t' = t \<and> c' = c \<and> b = a \<or> get_in_tenant m t' c' = Some b" if "lookup2 mp t' c' = Some b" for t' c' b
    using e(2) [of t' c'] that by (auto split: if_splits)
  have "b < length H" if "lookup2 mp t' c' = Some b" for t' c' b
    using sub [OF that] Hb m'(1) by (fastforce simp: H_def)
  moreover have "t1 = t2 \<and> c1 = c2" if "lookup2 mp t1 c1 = Some b" "lookup2 mp t2 c2 = Some b" for t1 c1 t2 c2 b
    using sub [OF that(1)] sub [OF that(2)] Hb [of t1 c1 b] Hb [of t2 c2 b]
      handles_okD(3) [OF h, of t1 c1 b t2 c2] by auto
  ultimately show "handles_ok m'" using e(1) by (simp add: handles_ok_def get m'(2,3))
  have view: "sess m' t' c' = map_option ((!) H) (lookup2 mp t' c')" for t' c'
    by (cases "lookup2 mp t' c'") (simp_all add: sess_def get deref_def m'(2))
  have view0: "put t c s (sess m) t' c' =
      map_option ((!) H) (if t' = t \<and> c' = c then Some a else get_in_tenant m t' c')" for t' c'
    using Hb [of t' c'] Ha by (cases "get_in_tenant m t' c'") (auto simp: put_def sess_def)
  show "shrinks is_ended_stateless (put t c (fresh_session now t c clean m) (sess m)) (sess m')"
    unfolding shrinks_def s_def [symmetric] view view0
    by (intro allI, rule disjE [OF e(2)]) (simp, auto)
  show "sess m' t' c' = sess m t' c'" if "length (m_sessions m) < MAX_TENANTS" "t' \<noteq> t" for t' c'
    using e(3) [OF that] view [of t' c'] view0 [of t' c'] that(2) by simp
qed

section \<open>The invariant\<close>

lemma view_cong:
  assumes "m_heap m' = m_heap m" and "m_sessions m' = m_sessions m"
  shows "sess m' = sess m" "get_in_tenant m' = get_in_tenant m" "deref m' = deref m" "handles_ok m' = handles_ok m"
proof -
  show g: "get_in_tenant m' = get_in_tenant m" and d: "deref m' = deref m"
    using assms by (auto intro!: ext simp: get_in_tenant_def deref_def)
  show "sess m' = sess m" by (intro ext) (simp add: sess_def g d)
  show "handles_ok m' = handles_ok m" by (simp add: handles_ok_def g assms)
qed

lemma view_update [simp]:
  "sess (m\<lparr>m_conn_index := ix\<rparr>) = sess m" "sess (m\<lparr>m_connected_count := n\<rparr>) = sess m"
  "sess (m\<lparr>m_conn_counts := cs\<rparr>) = sess m" "sess (m\<lparr>m_buckets := bs\<rparr>) = sess m"
  "get_in_tenant (m\<lparr>m_conn_index := ix\<rparr>) = get_in_tenant m"
  "get_in_tenant (m\<lparr>m_connected_count := n\<rparr>) = get_in_tenant m"
  "get_in_tenant (m\<lparr>m_conn_counts := cs\<rparr>) = get_in_tenant m"
  "get_in_tenant (m\<lparr>m_buckets := bs\<rparr>) = get_in_tenant m"
  "deref (m\<lparr>m_conn_index := ix\<rparr>) = deref m" "deref (m\<lparr>m_connected_count := n\<rparr>) = deref m"
  "deref (m\<lparr>m_conn_counts := cs\<rparr>) = deref m" "deref (m\<lparr>m_buckets := bs\<rparr>) = deref m"
  "handles_ok (m\<lparr>m_conn_index := ix\<rparr>) = handles_ok m" "handles_ok (m\<lparr>m_connected_count := n\<rparr>) = handles_ok m"
  "handles_ok (m\<lparr>m_conn_counts := cs\<rparr>) = handles_ok m" "handles_ok (m\<lparr>m_buckets := bs\<rparr>) = handles_ok m"
  by (rule view_cong; simp)+

lemma index_okD:
  "index_ok ix V \<Longrightarrow> map_of ix k = Some key \<Longrightarrow> V (sk_tenant key) (sk_client_id key) = Some s \<Longrightarrow> s_conn_id s = Some k"
  unfolding index_ok_def by (metis option.inject)

lemma session_key_eq: "key = session_key_new t c \<longleftrightarrow> sk_tenant key = t \<and> sk_client_id key = c"
  by (auto simp: session_key_new_def)

text \<open>
  One session is entered or replaced, others may be removed. The index must name the new session
  only by its connection, and the counter must follow the flag of the session.
\<close>

lemma manager_ok_put:
  assumes ok: "manager_ok m" and "handles_ok m'" and sh: "shrinks P (put t c s (sess m)) (sess m')"
    and P: "\<And>s. P s \<Longrightarrow> \<not> s_connected s" and s: "session_ok t c s"
    and ix: "\<And>k key. map_of (m_conn_index m') k = Some key \<Longrightarrow>
      (if key = session_key_new t c then s_conn_id s = Some k else map_of (m_conn_index m) k = Some key)"
    and cnt: "m_connected_count m' =
      of_nat (card (if s_connected s then insert (t, c) (live (sess m)) else live (sess m) - {(t, c)}))"
  shows "manager_ok m'"
proof -
  let ?V = "put t c s (sess m)"
  have ok': "session_ok t' c' s'" if "?V t' c' = Some s'" for t' c' s'
    using that s manager_okD(2) [OF ok] by (auto simp: put_def split: if_splits)
  have "index_ok (m_conn_index m') ?V"
    unfolding index_ok_def
  proof (intro allI impI)
    fix k key assume k: "map_of (m_conn_index m') k = Some key"
    show "\<exists>s'. ?V (sk_tenant key) (sk_client_id key) = Some s' \<and> s_conn_id s' = Some k"
    proof (cases "key = session_key_new t c")
      case True
      then show ?thesis using ix [OF k] by (simp add: session_key_eq)
    next
      case False
      then have "map_of (m_conn_index m) k = Some key" using ix [OF k] by simp
      then show ?thesis
        using manager_okD(3) [OF ok] False unfolding index_ok_def session_key_eq put_def by auto
    qed
  qed
  then have "index_ok (m_conn_index m') (sess m')" using shrinks_index [OF sh P] ok' by blast
  moreover have "live (sess m') = (if s_connected s then insert (t, c) (live (sess m)) else live (sess m) - {(t, c)})"
  proof -
    have "live (sess m') = live ?V" using sh P by (rule shrinks_live)
    also have "\<dots> = (if s_connected s then insert (t, c) (live (sess m)) else live (sess m) - {(t, c)})"
      by (auto simp: live_def put_def)
    finally show ?thesis .
  qed
  moreover have "session_ok t' c' s'" if "sess m' t' c' = Some s'" for t' c' s'
    using sh ok' that unfolding shrinks_def by (metis option.distinct(1))
  ultimately show ?thesis using assms(2) cnt by (simp add: manager_ok_def)
qed

lemma count_insert:
  "n = of_nat (card (live (sess m))) \<Longrightarrow> (t, c) \<notin> live (sess m) \<Longrightarrow>
   n + 1 = of_nat (card (insert (t, c) (live (sess m))))"
  by (simp add: add.commute)

lemma ended_not_connected: "is_ended_stateless s \<Longrightarrow> \<not> s_connected s"
  by (auto simp: is_ended_stateless_def)

lemma remove_owned_index_Some:
  "map_of (remove_owned_index k key ix) k' = Some key' \<longleftrightarrow>
   map_of ix k' = Some key' \<and> \<not> (k' = k \<and> key' = key)"
  by (auto simp: remove_owned_index_def AList.delete_conv')

lemma in_live: "sess m t c = Some s \<Longrightarrow> (t, c) \<in> live (sess m) \<longleftrightarrow> s_connected s"
  by (simp add: live_def)

text \<open>What a connect leaves under its key when the session is resumed.\<close>

definition resumed :: "u64 \<Rightarrow> 'f manager \<Rightarrow> session \<Rightarrow> session" where
  "resumed now m s =
     (if \<not> s_connected s then s\<lparr>s_connected := True, s_connected_at_ms := Some now, s_ended_at_ms := None\<rparr>
      else s)\<lparr>s_durable := m_durable m\<rparr>"

lemma resumed_fields [simp]:
  "s_connected (resumed now m s)" "s_conn_id (resumed now m s) = s_conn_id s"
  "s_tenant_id (resumed now m s) = s_tenant_id s" "s_client_id (resumed now m s) = s_client_id s"
  "s_tenant_is_default (resumed now m s) = s_tenant_is_default s"
  "s_subscriptions (resumed now m s) = s_subscriptions s"
  "s_offline_queue (resumed now m s) = s_offline_queue s" "s_durable (resumed now m s) = m_durable m"
  by (simp_all add: resumed_def)

text \<open>The state that a connect leaves, apart from the store.\<close>

definition connected_to :: "u64 \<Rightarrow> string \<Rightarrow> string \<Rightarrow> bool \<Rightarrow> arc \<Rightarrow> bool \<Rightarrow> 'f manager \<Rightarrow> 'f manager \<Rightarrow> bool" where
  "connected_to now t c clean a present m m' \<longleftrightarrow>
     manager_ok m' \<and> get_in_tenant m' t c = Some a \<and> (present \<longleftrightarrow> \<not> clean \<and> sess m t c \<noteq> None) \<and>
     deref m' a = (if present then resumed now m (the (sess m t c)) else fresh_session now t c clean m) \<and>
     shrinks is_ended_stateless (put t c (deref m' a) (sess m)) (sess m') \<and>
     (length (m_sessions m) < MAX_TENANTS \<longrightarrow> (\<forall>t' c'. t' \<noteq> t \<longrightarrow> sess m' t' c' = sess m t' c')) \<and>
     m_durable m' = m_durable m \<and> m_conn_counts m' = m_conn_counts m \<and> m_buckets m' = m_buckets m \<and>
     m_max_offline_queue m' = m_max_offline_queue m"

lemma connected_to_new:
  assumes ok: "manager_ok m" and c: "create_session now t c clean m = (a, m1)"
    and new: "clean \<or> sess m t c = None"
    and m': "m' = m1\<lparr>m_conn_index := ix, m_connected_count := n\<rparr>"
    and ix: "\<And>k key. map_of ix k = Some key \<Longrightarrow> map_of (m_conn_index m) k = Some key \<and> key \<noteq> session_key_new t c"
    and n: "n = (if (t, c) \<in> live (sess m) then m_connected_count m else m_connected_count m + 1)"
  shows "connected_to now t c clean a False m m'"
proof -
  note cr = create_session [OF manager_okD(1) [OF ok] c] create_session_fields [OF c]
  have view: "sess m' = sess m1" by (simp add: m')
  have get: "get_in_tenant m' t c = Some a" "deref m' a = fresh_session now t c clean m"
    using cr(2,3) by (simp_all add: m')
  have "manager_ok m'"
  proof (rule manager_ok_put [OF ok, where P = is_ended_stateless and s = "fresh_session now t c clean m"])
    show "handles_ok m'" using cr(1) by (simp add: m')
    show "shrinks is_ended_stateless (put t c (fresh_session now t c clean m) (sess m)) (sess m')"
      using cr(4) by (simp add: view)
    show "m_connected_count m' = of_nat (card (if s_connected (fresh_session now t c clean m)
        then insert (t, c) (live (sess m)) else live (sess m) - {(t, c)}))"
      using n manager_okD(4) [OF ok] count_insert [of _ m t c] by (simp add: m' insert_absorb)
  qed (use ix in \<open>auto simp: m' ended_not_connected\<close>)
  then show ?thesis
    using new get cr(4-) by (auto simp: connected_to_def view m')
qed

lemma connected_to_resumed:
  assumes ok: "manager_ok m" and a: "get_in_tenant m t c = Some a"
    and m': "m' = (with_session a (resumed now m) m)\<lparr>m_connected_count := n\<rparr>"
    and n: "n = (if s_connected (deref m a) then m_connected_count m else m_connected_count m + 1)"
  shows "connected_to now t c False a True m m'"
proof -
  have h: "handles_ok m" using manager_okD(1) [OF ok] .
  have s: "sess m t c = Some (deref m a)" using a by (simp add: sess_def)
  have view: "sess m' = put t c (resumed now m (deref m a)) (sess m)"
    using sess_with_session [OF h a, of "resumed now m"]
    by (intro ext) (simp add: m' put_def)
  have get: "get_in_tenant m' t c = Some a" "deref m' a = resumed now m (deref m a)"
    using a handles_okD(2) [OF h a] by (simp_all add: m')
  have "manager_ok m'"
  proof (rule manager_ok_put [OF ok, where P = is_ended_stateless and s = "resumed now m (deref m a)"])
    show "handles_ok m'" using h by (simp add: m')
    show "shrinks is_ended_stateless (put t c (resumed now m (deref m a)) (sess m)) (sess m')"
      by (simp add: view)
    show "session_ok t c (resumed now m (deref m a))"
      using manager_okD(2) [OF ok s] by (simp add: session_ok_def)
    show "m_connected_count m' = of_nat (card (if s_connected (resumed now m (deref m a))
        then insert (t, c) (live (sess m)) else live (sess m) - {(t, c)}))"
      using n manager_okD(4) [OF ok] count_insert [of _ m t c] in_live [OF s]
      by (auto simp: m' insert_absorb)
    show "if key = session_key_new t c then s_conn_id (resumed now m (deref m a)) = Some k
        else map_of (m_conn_index m) k = Some key" if "map_of (m_conn_index m') k = Some key" for k key
      using that index_okD [OF manager_okD(3) [OF ok]] s by (auto simp: session_key_eq m')
  qed (simp add: ended_not_connected)
  moreover have "m_durable m' = m_durable m" "m_conn_counts m' = m_conn_counts m" "m_buckets m' = m_buckets m"
    "m_max_offline_queue m' = m_max_offline_queue m" by (simp_all add: m')
  ultimately show ?thesis using get s by (simp add: connected_to_def view)
qed

lemma get_or_create_in_tenant:
  assumes ok: "manager_ok m"
    and g: "get_or_create_in_tenant unlink_ok now t c clean m st = ((a, present), m', st')"
  shows "connected_to now t c clean a present m m'"
    "st' = (if clean \<and> m_durable m then remove_in_tenant unlink_ok t c st else st)"
proof -
  obtain b m1 where cr: "create_session now t c clean m = (b, m1)" by (cases "create_session now t c clean m")
  note fields = create_session_fields [OF cr]
  show "st' = (if clean \<and> m_durable m then remove_in_tenant unlink_ok t c st else st)"
    using g cr by (auto simp: get_or_create_in_tenant_def Let_def split: option.splits if_splits)
  have stale: "map_of (m_conn_index m) k = Some (session_key_new t c) \<Longrightarrow> Option.bind (sess m t c) s_conn_id = Some k" for k
    using manager_okD(3) [OF ok] by (fastforce simp: index_ok_def session_key_new_def)
  consider (clean) "clean" | (resume) x where "\<not> clean" "get_in_tenant m t c = Some x"
    | (new) "\<not> clean" "get_in_tenant m t c = None" by (cases "get_in_tenant m t c") auto
  then show "connected_to now t c clean a present m m'"
  proof cases
    case clean
    define ix where "ix = (case Option.bind (sess m t c) s_conn_id of
      Some k \<Rightarrow> remove_owned_index k (session_key_new t c) (m_conn_index m) | None \<Rightarrow> m_conn_index m)"
    define n where "n = (if (t, c) \<in> live (sess m) then m_connected_count m else m_connected_count m + 1)"
    have r: "a = b" "\<not> present" "m' = m1\<lparr>m_conn_index := ix, m_connected_count := n\<rparr>"
      using g clean cr fields
      by (auto simp: get_or_create_in_tenant_def Let_def ix_def n_def live_def sess_def get_in_tenant_def
          split: option.splits)
    have "map_of (m_conn_index m) k = Some key \<and> key \<noteq> session_key_new t c" if "map_of ix k = Some key" for k key
      using that stale [of k] by (auto simp: ix_def remove_owned_index_Some split: option.splits)
    then show ?thesis using connected_to_new [OF ok cr _ r(3) _ n_def] clean r(1,2) by simp
  next
    case resume
    have "a = x" "present" "m' = (with_session x (resumed now m) m)
        \<lparr>m_connected_count := if s_connected (deref m x) then m_connected_count m else m_connected_count m + 1\<rparr>"
      using g resume handles_okD(2) [OF manager_okD(1) [OF ok] resume(2)]
      by (auto simp: get_or_create_in_tenant_def Let_def get_in_tenant_def [symmetric] resumed_def
          with_session_def deref_def)
    then show ?thesis using connected_to_resumed [OF ok resume(2) _ refl] resume(1) by simp
  next
    case new
    have "a = b" "\<not> present" "m' = m1\<lparr>m_conn_index := m_conn_index m, m_connected_count := m_connected_count m + 1\<rparr>"
      using g new cr fields
      by (auto simp: get_or_create_in_tenant_def Let_def get_in_tenant_def [symmetric])
    then show ?thesis
      using connected_to_new [OF ok cr, where m' = m' and ix = "m_conn_index m" and n = "m_connected_count m + 1"]
        new stale by (fastforce simp: sess_def live_def)
  qed
qed

lemma same_binding_apply_v5_connect: "same_binding s (apply_v5_connect version expiry rm mp s)"
  by (simp add: same_binding_def apply_v5_connect_def set_protocol_version_def set_client_receive_maximum_def Let_def)

lemma expired_not_connected: "session_expired now s \<Longrightarrow> \<not> s_connected s"
  by (auto simp: session_expired_def split: if_splits)

text \<open>Removal of some sessions of a tenant.\<close>

lemma sessions_removed:
  assumes h: "handles_ok m" and k: "keys2_ok mp"
    and look: "\<And>t' c'. lookup2 mp t' c' = (if t' = t \<and> c' \<in> set cs then None else lookup2 (m_sessions m) t' c')"
  shows "handles_ok (m\<lparr>m_sessions := mp\<rparr>)"
    "sess (m\<lparr>m_sessions := mp\<rparr>) t' c' = (if t' = t \<and> c' \<in> set cs then None else sess m t' c')"
proof -
  let ?m = "m\<lparr>m_sessions := mp\<rparr>"
  have g: "get_in_tenant ?m t' c' = (if t' = t \<and> c' \<in> set cs then None else get_in_tenant m t' c')" for t' c'
    by (simp add: look get_in_tenant_def)
  have d: "deref ?m = deref m" by (auto intro!: ext simp: deref_def)
  show "sess ?m t' c' = (if t' = t \<and> c' \<in> set cs then None else sess m t' c')" by (simp add: sess_def g d)
  show "handles_ok ?m"
    by (rule handles_ok_submap [OF h]) (auto simp: g k split: if_splits)
qed

lemma remove2_view:
  assumes h: "handles_ok m"
  shows "handles_ok (m\<lparr>m_sessions := remove2 t cs (m_sessions m)\<rparr>)"
    "sess (m\<lparr>m_sessions := remove2 t cs (m_sessions m)\<rparr>) t' c' = (if t' = t \<and> c' \<in> set cs then None else sess m t' c')"
    "handles_ok (m\<lparr>m_sessions := prune_empty t (remove2 t cs (m_sessions m))\<rparr>)"
    "sess (m\<lparr>m_sessions := prune_empty t (remove2 t cs (m_sessions m))\<rparr>) t' c' =
      (if t' = t \<and> c' \<in> set cs then None else sess m t' c')"
  by (rule sessions_removed [OF h]; simp add: keys2_intros handles_okD(1) [OF h])+

lemma shrinks_put: "shrinks P (put t c s V) W \<Longrightarrow> shrinks P (put t c s' V) (put t c s' W)"
  unfolding shrinks_def put_def by (simp split: if_splits) blast

lemma get_or_create_v5_in_tenant:
  assumes ok: "manager_ok m"
    and g: "get_or_create_v5_in_tenant unlink_ok now now' t c clean version expiry rm mp m st
      = ((a, present, swept), m', st')"
  defines "expired \<equiv> \<not> clean \<and> (\<exists>s. sess m t c = Some s \<and> session_expired now s)"
  shows "manager_ok m'" "get_in_tenant m' t c = Some a"
    "present \<longleftrightarrow> \<not> clean \<and> \<not> expired \<and> sess m t c \<noteq> None"
    "deref m' a = apply_v5_connect version expiry (max rm 1) mp
       (if present then resumed now' m (the (sess m t c)) else fresh_session now' t c clean m)"
    "shrinks is_ended_stateless (put t c (deref m' a) (sess m)) (sess m')"
    "length (m_sessions m) < MAX_TENANTS \<Longrightarrow> t' \<noteq> t \<Longrightarrow> sess m' t' c' = sess m t' c'"
    "m_durable m' = m_durable m" "m_conn_counts m' = m_conn_counts m" "m_buckets m' = m_buckets m"
    "m_max_offline_queue m' = m_max_offline_queue m"
    "swept = (if expired then map fst (s_subscriptions (the (sess m t c))) else [])"
    "st' = (if (clean \<or> expired) \<and> m_durable m then remove_in_tenant unlink_ok t c st else st)"
proof -
  let ?f = "apply_v5_connect version expiry (max rm 1) mp"
  define m0 where "m0 = (if expired then m\<lparr>m_sessions := remove2 t [c] (m_sessions m)\<rparr> else m)"
  obtain b p m1 st1 where gc: "get_or_create_in_tenant unlink_ok now' t c clean m0
      (if expired \<and> m_durable m then remove_in_tenant unlink_ok t c st else st) = ((b, p), m1, st1)"
    by (metis surj_pair)
  have ex: "expired \<longleftrightarrow> \<not> clean \<and> (case get_in_tenant m t c of Some a \<Rightarrow> session_expired now (deref m a) | None \<Rightarrow> False)"
    by (auto simp: expired_def sess_def split: option.split)
  have r: "a = b" "present = (p \<and> \<not> clean \<and> \<not> expired)" "m' = with_session b ?f m1" "st' = st1"
      "swept = (if expired then map fst (s_subscriptions (the (sess m t c))) else [])"
    using g gc by (auto simp: get_or_create_v5_in_tenant_def Let_def ex m0_def subscription_filters_in_tenant_def
        sess_def split: if_splits option.splits prod.splits)
  have h: "handles_ok m" using manager_okD(1) [OF ok] .
  have view0: "sess m0 t' c' = (if expired \<and> t' = t \<and> c' = c then None else sess m t' c')" for t' c'
    by (simp add: m0_def remove2_view [OF h])
  have m0: "m_conn_index m0 = m_conn_index m" "m_connected_count m0 = m_connected_count m"
    "m_durable m0 = m_durable m" "m_conn_counts m0 = m_conn_counts m" "m_buckets m0 = m_buckets m"
    "m_max_offline_queue m0 = m_max_offline_queue m" "length (m_sessions m0) = length (m_sessions m)"
    "fresh_session n t' c' cl m0 = fresh_session n t' c' cl m" "resumed n m0 = resumed n m" for n t' c' cl
    by (simp_all add: m0_def remove2_def length_update_same fresh_session_def max_qos1_spill_def
        max_qos1_inflight_def resumed_def fun_eq_iff split: option.split)
  have ok0: "manager_ok m0"
  proof (rule manager_ok_shrink [OF ok, where P = "\<lambda>s. \<not> s_connected s"])
    show "handles_ok m0" using h by (simp add: m0_def remove2_view)
    show "shrinks (\<lambda>s. \<not> s_connected s) (sess m) (sess m0)"
      using expired_not_connected by (auto simp: shrinks_def view0 expired_def)
  qed (simp_all add: m0)
  note ct = get_or_create_in_tenant(1) [OF ok0 gc, unfolded connected_to_def m0]
  have get: "get_in_tenant m1 t c = Some b" and ok1: "manager_ok m1" using ct by blast+
  have put0: "put t c s (sess m0) = put t c s (sess m)" for s
    by (auto intro!: ext simp: put_def view0)
  have d: "deref m' a = ?f (deref m1 b)"
    using handles_okD(2) [OF manager_okD(1) [OF ok1] get] by (simp add: r(1,3))
  have view': "sess m' = put t c (deref m' a) (sess m1)"
    unfolding d by (intro ext) (simp add: put_def r(3) sess_with_session [OF manager_okD(1) [OF ok1] get])
  show "manager_ok m'" unfolding r(3) by (intro manager_ok_with_session [OF ok1 get] same_binding_apply_v5_connect)
  show "get_in_tenant m' t c = Some a" using get by (simp add: r(1,3))
  show p: "present \<longleftrightarrow> \<not> clean \<and> \<not> expired \<and> sess m t c \<noteq> None" using ct r(2) by (auto simp: view0)
  show "deref m' a = ?f (if present then resumed now' m (the (sess m t c)) else fresh_session now' t c clean m)"
    using ct p by (auto simp: d view0)
  show "shrinks is_ended_stateless (put t c (deref m' a) (sess m)) (sess m')"
    using ct unfolding put0 view' by (blast intro: shrinks_put)
  show "sess m' t' c' = sess m t' c'" if "length (m_sessions m) < MAX_TENANTS" "t' \<noteq> t" for t' c'
    using ct that by (auto simp: view' view0)
  show "m_durable m' = m_durable m" "m_conn_counts m' = m_conn_counts m" "m_buckets m' = m_buckets m"
    "m_max_offline_queue m' = m_max_offline_queue m" using ct by (simp_all add: r(3))
  show "swept = (if expired then map fst (s_subscriptions (the (sess m t c))) else [])" by (rule r(5))
  show "st' = (if (clean \<or> expired) \<and> m_durable m then remove_in_tenant unlink_ok t c st else st)"
    using get_or_create_in_tenant(2) [OF ok0 gc] by (auto simp: r(4) m0 expired_def)
qed

text \<open>Binding a connection to a session.\<close>

definition bound :: "u64 \<Rightarrow> u64 \<Rightarrow> session \<Rightarrow> session" where
  "bound now k s = (if s_conn_id s = Some k then s else s\<lparr>s_conn_id := Some k, s_connected_at_ms := Some now\<rparr>)"

lemma bind_session:
  assumes ok: "manager_ok m" and a: "get_in_tenant m t c = Some a" and conn: "s_connected (deref m a)"
  shows "manager_ok (bind_session now a k m)"
    "sess (bind_session now a k m) = put t c (bound now k (deref m a)) (sess m)"
    "map_of (m_conn_index (bind_session now a k m)) k = Some (session_key_new t c)"
    "get_in_tenant (bind_session now a k m) = get_in_tenant m"
    "deref (bind_session now a k m) a = bound now k (deref m a)"
    "m_durable (bind_session now a k m) = m_durable m" "m_conn_counts (bind_session now a k m) = m_conn_counts m"
    "m_buckets (bind_session now a k m) = m_buckets m"
    "m_max_offline_queue (bind_session now a k m) = m_max_offline_queue m"
    "m_sessions (bind_session now a k m) = m_sessions m"
proof -
  have h: "handles_ok m" using manager_okD(1) [OF ok] .
  have s: "sess m t c = Some (deref m a)" using a by (simp add: sess_def)
  have sok: "session_ok t c (deref m a)" using manager_okD(2) [OF ok s] .
  have key: "key_of (deref m a) = session_key_new t c"
    using sok by (simp add: key_of_def session_key_new_def session_ok_def)
  let ?m = "bind_session now a k m"
  show fields: "m_durable ?m = m_durable m" "m_conn_counts ?m = m_conn_counts m" "m_buckets ?m = m_buckets m"
    "m_max_offline_queue ?m = m_max_offline_queue m" "m_sessions ?m = m_sessions m"
    by (simp_all add: bind_session_def Let_def)
  then show get: "get_in_tenant ?m = get_in_tenant m" by (auto intro!: ext simp: get_in_tenant_def)
  show view: "sess ?m = put t c (bound now k (deref m a)) (sess m)"
    using s by (auto intro!: ext simp: bind_session_def Let_def bound_def put_def sess_with_session [OF h a])
  show "deref ?m a = bound now k (deref m a)"
    using handles_okD(2) [OF h a] by (auto simp: bind_session_def Let_def bound_def)
  show "map_of (m_conn_index ?m) k = Some (session_key_new t c)"
    by (auto simp: bind_session_def Let_def key AList.update_conv')
  show "manager_ok ?m"
  proof (rule manager_ok_put [OF ok, where P = is_ended_stateless and s = "bound now k (deref m a)"])
    show "handles_ok ?m" using h by (simp add: bind_session_def Let_def)
    show "session_ok t c (bound now k (deref m a))" using sok conn by (simp add: session_ok_def bound_def)
    show "m_connected_count ?m = of_nat (card (if s_connected (bound now k (deref m a))
        then insert (t, c) (live (sess m)) else live (sess m) - {(t, c)}))"
      using conn manager_okD(4) [OF ok] in_live [OF s]
      by (simp add: bind_session_def Let_def bound_def insert_absorb)
    show "if key = session_key_new t c then s_conn_id (bound now k (deref m a)) = Some k'
        else map_of (m_conn_index m) k' = Some key" if "map_of (m_conn_index ?m) k' = Some key" for k' key
      using that index_okD [OF manager_okD(3) [OF ok], of k' key] s
      by (auto simp: bind_session_def Let_def bound_def key AList.update_conv' remove_owned_index_Some
          session_key_eq [symmetric] session_key_new_def split: if_splits option.splits)
  qed (simp_all add: view ended_not_connected)
qed

section \<open>Disconnect\<close>

lemma release_fields [simp]:
  "m_heap (release_connection_slot_in_tenant t u m) = m_heap m"
  "m_sessions (release_connection_slot_in_tenant t u m) = m_sessions m"
  "m_conn_index (release_connection_slot_in_tenant t u m) = m_conn_index m"
  "m_connected_count (release_connection_slot_in_tenant t u m) = m_connected_count m"
  "m_buckets (release_connection_slot_in_tenant t u m) = m_buckets m"
  "m_durable (release_connection_slot_in_tenant t u m) = m_durable m"
  "m_max_offline_queue (release_connection_slot_in_tenant t u m) = m_max_offline_queue m"
  by (simp_all add: release_connection_slot_in_tenant_def Let_def split: option.split)

lemma release_other:
  "t' \<noteq> t \<Longrightarrow> lookup2 (m_conn_counts (release_connection_slot_in_tenant t u m)) t' v = lookup2 (m_conn_counts m) t' v"
  by (simp add: release_connection_slot_in_tenant_def Let_def split: option.split)

lemma detached_fields [simp]:
  "s_connected (detached now s) = False" "s_conn_id (detached now s) = None"
  "s_tenant_id (detached now s) = s_tenant_id s" "s_client_id (detached now s) = s_client_id s"
  "s_tenant_is_default (detached now s) = s_tenant_is_default s"
  "s_offline_queue (detached now s) = s_offline_queue s" "s_durable (detached now s) = s_durable s"
  by (simp_all add: detached_def Let_def clear_aliases_def clear_qos2_outbound_def clear_qos2_inbound_def
      clear_inflight_def)

lemma drops_state_frame [simp]:
  "drops_state_at_disconnect (clear_aliases (s\<lparr>s_conn_id := k, s_connected := b\<rparr>)) = drops_state_at_disconnect s"
  by (simp add: drops_state_at_disconnect_def clear_aliases_def)

lemma detached_subscriptions:
  "s_subscriptions (detached now s) = (if drops_state_at_disconnect s then [] else s_subscriptions s)"
  by (simp add: detached_def Let_def) (simp add: clear_aliases_def)

lemma prune_ended_in_tenant:
  assumes h: "handles_ok m" and m': "m' = prune_ended_in_tenant now t m"
  shows "handles_ok m'" "shrinks is_ended_stateless (sess m) (sess m')" "t' \<noteq> t \<Longrightarrow> sess m' t' c' = sess m t' c'"
    "m_conn_index m' = m_conn_index m" "m_connected_count m' = m_connected_count m"
    "m_durable m' = m_durable m" "m_conn_counts m' = m_conn_counts m" "m_buckets m' = m_buckets m"
    "m_max_offline_queue m' = m_max_offline_queue m"
proof -
  consider (same) "m' = m" | (removed) cs inner where "m' = m\<lparr>m_sessions := prune_empty t (remove2 t cs (m_sessions m))\<rparr>"
      and "map_of (m_sessions m) t = Some inner"
      and "\<And>c. c \<in> set cs \<Longrightarrow> \<exists>a. (c, a) \<in> set inner \<and> is_ended_stateless (deref m a)"
  proof (cases "map_of (m_sessions m) t")
    case None
    then show thesis using that(1) by (simp add: m' prune_ended_in_tenant_def)
  next
    case (Some inner)
    define vs where "vs = filter (\<lambda>(_, a). is_ended_stateless (deref m a) \<and>
      saturating_mul ENDED_SESSION_TTL_SECS 1000 \<le> (case s_ended_at_ms (deref m a) of
        Some ended_at \<Rightarrow> saturating_sub now ended_at | None \<Rightarrow> 0)) inner"
    have e: "m' = (if map fst vs = [] then m else m\<lparr>m_sessions := prune_empty t (remove2 t (map fst vs) (m_sessions m))\<rparr>)"
      by (simp add: m' prune_ended_in_tenant_def Some vs_def Let_def)
    have "\<exists>a. (c, a) \<in> set inner \<and> is_ended_stateless (deref m a)" if "c \<in> set (map fst vs)" for c
      using that by (auto simp: vs_def)
    then show thesis using that(1) that(2) [OF _ Some, of "map fst vs"] e by (cases "map fst vs = []") simp_all
  qed
  then have "handles_ok m' \<and> shrinks is_ended_stateless (sess m) (sess m') \<and>
    (\<forall>t' c'. t' \<noteq> t \<longrightarrow> sess m' t' c' = sess m t' c') \<and> m_conn_index m' = m_conn_index m \<and>
    m_connected_count m' = m_connected_count m \<and> m_durable m' = m_durable m \<and>
    m_conn_counts m' = m_conn_counts m \<and> m_buckets m' = m_buckets m \<and>
    m_max_offline_queue m' = m_max_offline_queue m"
  proof cases
    case removed
    have "\<exists>s. sess m t c = Some s \<and> is_ended_stateless s" if "c \<in> set cs" for c
      using removed(3) [OF that] lookup2_inner [OF handles_okD(1) [OF h] removed(2)]
      by (fastforce simp: sess_def get_in_tenant_def)
    then have "shrinks is_ended_stateless (sess m) (sess m')"
      by (auto simp: shrinks_def removed(1) remove2_view [OF h])
    then show ?thesis using h by (simp add: removed(1) remove2_view)
  qed (simp add: h)
  then show "handles_ok m'" "shrinks is_ended_stateless (sess m) (sess m')"
    "t' \<noteq> t \<Longrightarrow> sess m' t' c' = sess m t' c'" "m_conn_index m' = m_conn_index m"
    "m_connected_count m' = m_connected_count m" "m_durable m' = m_durable m"
    "m_conn_counts m' = m_conn_counts m" "m_buckets m' = m_buckets m"
    "m_max_offline_queue m' = m_max_offline_queue m" by blast+
qed

lemma checked_dec_of_nat: "0 < n \<Longrightarrow> n < 2 ^ 64 \<Longrightarrow> checked_dec (of_nat n :: u64) = of_nat (n - 1)"
  by (simp add: checked_dec_def word_of_nat_eq_0_iff nat_dvd_not_less of_nat_diff)

text \<open>The session that a disconnect leaves under its key, when the connection is its own.\<close>

definition owns :: "'f manager \<Rightarrow> string \<Rightarrow> string \<Rightarrow> u64 \<Rightarrow> bool" where
  "owns m t c k \<longleftrightarrow> (\<exists>s. sess m t c = Some s \<and> s_conn_id s = Some k)"

definition detach_view :: "u64 \<Rightarrow> string \<Rightarrow> string \<Rightarrow> u64 \<Rightarrow> 'f manager \<Rightarrow> string \<Rightarrow> string \<Rightarrow> session option" where
  "detach_view now t c k m =
     (if owns m t c k then put t c (detached now (the (sess m t c))) (sess m) else sess m)"

text \<open>The manager after the detach, before ended sessions are removed.\<close>

definition unbound :: "u64 \<Rightarrow> string \<Rightarrow> string \<Rightarrow> u64 \<Rightarrow> 'f manager \<Rightarrow> 'f manager" where
  "unbound now t c k m =
     (let mine = owns m t c k;
          m1 = (if mine then with_session (the (get_in_tenant m t c)) (detached now) m else m);
          m1 = (if mine \<and> s_connected (the (sess m t c))
                then m1\<lparr>m_connected_count := checked_dec (m_connected_count m1)\<rparr> else m1);
          m2 = (case (if mine then s_username (the (sess m t c)) else None) of
            Some u \<Rightarrow> release_connection_slot_in_tenant t u m1 | None \<Rightarrow> m1) in
      m2\<lparr>m_conn_index := remove_owned_index k (session_key_new t c) (m_conn_index m2),
         m_buckets := prune_empty t (remove2 t [c] (m_buckets m2))\<rparr>)"

lemma unbind_eq:
  "unbind_connection_in_tenant now now' t c k m =
    (if owns m t c k \<and> drops_state_at_disconnect (the (sess m t c))
      then map fst (s_subscriptions (the (sess m t c))) else [],
     prune_ended_in_tenant now' t (unbound now t c k m))"
proof (cases "get_in_tenant m t c")
  case None
  then show ?thesis by (simp add: unbind_connection_in_tenant_def unbound_def owns_def sess_def
      get_in_tenant_def [symmetric] Let_def)
next
  case (Some a)
  then show ?thesis
    by (cases "s_username (deref m a)") (auto simp: unbind_connection_in_tenant_def unbound_def owns_def sess_def
      get_in_tenant_def [symmetric] Let_def)
qed

lemma unbound:
  assumes ok: "manager_ok m" and few: "card (live (sess m)) < 2 ^ 64" and m': "m' = unbound now t c k m"
  shows "manager_ok m'" "sess m' = detach_view now t c k m"
    "t' \<noteq> t \<Longrightarrow> lookup2 (m_conn_counts m') t' v = lookup2 (m_conn_counts m) t' v"
    "t' \<noteq> t \<Longrightarrow> lookup2 (m_buckets m') t' v = lookup2 (m_buckets m) t' v"
    "m_durable m' = m_durable m" "m_max_offline_queue m' = m_max_offline_queue m"
proof -
  have h: "handles_ok m" using manager_okD(1) [OF ok] .
  show "t' \<noteq> t \<Longrightarrow> lookup2 (m_conn_counts m') t' v = lookup2 (m_conn_counts m) t' v"
    "t' \<noteq> t \<Longrightarrow> lookup2 (m_buckets m') t' v = lookup2 (m_buckets m) t' v"
    "m_durable m' = m_durable m" "m_max_offline_queue m' = m_max_offline_queue m"
    by (auto simp: m' unbound_def Let_def release_other split: option.split)
  have ix: "m_conn_index m' = remove_owned_index k (session_key_new t c) (m_conn_index m)"
    by (simp add: m' unbound_def Let_def split: option.split)
  have "sess m' = detach_view now t c k m \<and> manager_ok m'"
  proof (cases "owns m t c k")
    case False
    then have v: "sess m' = sess m" "handles_ok m'" "m_connected_count m' = m_connected_count m"
      using h by (simp_all add: m' unbound_def)
    moreover have "map_of (m_conn_index m) k \<noteq> Some (session_key_new t c)"
      using False manager_okD(3) [OF ok] by (fastforce simp: owns_def index_ok_def session_key_new_def)
    then have "m_conn_index m' = m_conn_index m" by (simp add: ix remove_owned_index_def)
    ultimately show ?thesis
      using ok False by (simp add: manager_ok_def detach_view_def)
  next
    case True
    then obtain a where a: "get_in_tenant m t c = Some a" "s_conn_id (deref m a) = Some k"
      by (auto simp: owns_def sess_def)
    have s: "sess m t c = Some (deref m a)" using a(1) by (simp add: sess_def)
    have sok: "session_ok t c (deref m a)" using manager_okD(2) [OF ok s] .
    then have conn: "s_connected (deref m a)" using a(2) by (simp add: session_ok_def)
    have core: "m_heap m' = m_heap (with_session a (detached now) m)" "m_sessions m' = m_sessions m"
      "m_connected_count m' = checked_dec (m_connected_count m)"
      using True a(1) conn by (simp_all add: m' unbound_def Let_def s with_session_def split: option.split)
    have view: "sess m' = put t c (detached now (deref m a)) (sess m)"
      using view_cong(1) [of m' "with_session a (detached now) m"] core
      by (auto intro!: ext simp: put_def sess_with_session [OF h a(1)])
    have "manager_ok m'"
    proof (rule manager_ok_put [OF ok, where P = is_ended_stateless and s = "detached now (deref m a)"])
      show "handles_ok m'" using h view_cong(4) [of m' "with_session a (detached now) m"] core by simp
      show "session_ok t c (detached now (deref m a))" using sok by (simp add: session_ok_def)
      have "0 < card (live (sess m))" using in_live [OF s] conn by (auto simp: card_gt_0_iff)
      then show "m_connected_count m' = of_nat (card (if s_connected (detached now (deref m a))
          then insert (t, c) (live (sess m)) else live (sess m) - {(t, c)}))"
        using few in_live [OF s] conn
        by (simp add: core(3) manager_okD(4) [OF ok] checked_dec_of_nat card_Diff_singleton)
      show "if key = session_key_new t c then s_conn_id (detached now (deref m a)) = Some k'
          else map_of (m_conn_index m) k' = Some key" if "map_of (m_conn_index m') k' = Some key" for k' key
        using that index_okD [OF manager_okD(3) [OF ok], of k' key] s a(2)
        by (auto simp: ix remove_owned_index_Some session_key_new_def)
    qed (simp_all add: view ended_not_connected)
    then show ?thesis using view True s by (simp add: detach_view_def)
  qed
  then show "manager_ok m'" "sess m' = detach_view now t c k m" by blast+
qed

lemma detach_view_other: "t' \<noteq> t \<Longrightarrow> detach_view now t c k m t' c' = sess m t' c'"
  by (simp add: detach_view_def)

lemma unbind_connection_in_tenant:
  assumes ok: "manager_ok m" and few: "card (live (sess m)) < 2 ^ 64"
    and u: "unbind_connection_in_tenant now now' t c k m = (swept, m')"
  shows "manager_ok m'" "shrinks is_ended_stateless (detach_view now t c k m) (sess m')"
    "t' \<noteq> t \<Longrightarrow> sess m' t' c' = sess m t' c'"
    "swept = (if owns m t c k \<and> drops_state_at_disconnect (the (sess m t c))
      then map fst (s_subscriptions (the (sess m t c))) else [])"
    "t' \<noteq> t \<Longrightarrow> lookup2 (m_conn_counts m') t' v = lookup2 (m_conn_counts m) t' v"
    "t' \<noteq> t \<Longrightarrow> lookup2 (m_buckets m') t' v' = lookup2 (m_buckets m) t' v'"
    "m_durable m' = m_durable m" "m_max_offline_queue m' = m_max_offline_queue m"
proof -
  define m1 where "m1 = unbound now t c k m"
  note ub = unbound [OF ok few m1_def]
  have m': "m' = prune_ended_in_tenant now' t m1" using u by (simp add: unbind_eq m1_def)
  note pr = prune_ended_in_tenant [OF manager_okD(1) [OF ub(1)] m']
  show "manager_ok m'"
    using manager_ok_shrink [OF ub(1) pr(1,2) ended_not_connected] pr(4,5) by simp
  show "shrinks is_ended_stateless (detach_view now t c k m) (sess m')" using pr(2) by (simp add: ub(2))
  show "t' \<noteq> t \<Longrightarrow> sess m' t' c' = sess m t' c'" using pr(3) ub(2) detach_view_other by metis
  show "swept = (if owns m t c k \<and> drops_state_at_disconnect (the (sess m t c))
      then map fst (s_subscriptions (the (sess m t c))) else [])" using u by (simp add: unbind_eq)
  show "t' \<noteq> t \<Longrightarrow> lookup2 (m_conn_counts m') t' v = lookup2 (m_conn_counts m) t' v"
    "t' \<noteq> t \<Longrightarrow> lookup2 (m_buckets m') t' v' = lookup2 (m_buckets m) t' v'"
    "m_durable m' = m_durable m" "m_max_offline_queue m' = m_max_offline_queue m"
    using pr(6-) ub(3-) by simp_all
qed

end
