(* ===== verification/Conn_Table.thy ===== *)
theory Conn_Table
  imports BrokerLink Subscriptions
begin

text \<open>
  The delivery table of the kernel (\<^verbatim>\<open>crates/broker-router/src/lib.rs\<close>, \<open>ConnTable\<close>): connection to
  mailbox, with the bounded backlog of QoS 0 frames, the sequence numbers per destination, the
  labels of a connection and the counters of dropped frames. Each bucket is an association list; a
  call is one atomic step. The channels and wake-up handles of the async runtime are a third-party
  crate: they are identified by numbers, and sending and notifying are parameters (\<open>runtime\<close>) that
  act on a state of their own.
\<close>

section \<open>State\<close>

definition DEFAULT_QOS0_BACKLOG :: nat where
  "DEFAULT_QOS0_BACKLOG = 1000"

definition NUM_SHARDS :: nat where
  "NUM_SHARDS = 16"

type_synonym chan = nat
type_synonym notify = nat

text \<open>\<open>send\<close> answers whether the receiver was alive.\<close>

record 'c runtime =
  rt_send :: "chan \<Rightarrow> broker_frame \<Rightarrow> 'c \<Rightarrow> bool \<times> 'c"
  rt_notify_one :: "notify \<Rightarrow> 'c \<Rightarrow> 'c"

record drop_metrics =
  dm_unknown_conn_dropped :: u64
  dm_dead_mailbox_dropped :: u64
  dm_egress_qos0_shed :: u64
  dm_qos0_shed_by_client :: "(string \<times> u64) list"

record conn_slot =
  cs_tx :: chan
  cs_next_seq :: u64
  cs_qos0 :: "broker_frame list"
  cs_client :: "string option"
  cs_tenant :: "string option"
  cs_waker :: "notify option"

record conn_table =
  ct_shards :: "(u64 \<times> conn_slot) list list"
  ct_metrics :: "drop_metrics option"
  ct_qos0_bound :: nat
  ct_qos0_notify :: notify

section \<open>Counters\<close>

definition inc_unknown_conn_dropped :: "drop_metrics \<Rightarrow> drop_metrics" where
  "inc_unknown_conn_dropped d = d\<lparr>dm_unknown_conn_dropped := dm_unknown_conn_dropped d + 1\<rparr>"

definition inc_dead_mailbox_dropped :: "drop_metrics \<Rightarrow> drop_metrics" where
  "inc_dead_mailbox_dropped d = d\<lparr>dm_dead_mailbox_dropped := dm_dead_mailbox_dropped d + 1\<rparr>"

definition inc_egress_qos0_shed :: "drop_metrics \<Rightarrow> drop_metrics" where
  "inc_egress_qos0_shed d = d\<lparr>dm_egress_qos0_shed := dm_egress_qos0_shed d + 1\<rparr>"

definition egress_qos0_shed_for :: "drop_metrics \<Rightarrow> string \<Rightarrow> u64" where
  "egress_qos0_shed_for d client_id =
     (case map_of (dm_qos0_shed_by_client d) client_id of Some n \<Rightarrow> n | None \<Rightarrow> 0)"

definition inc_egress_qos0_shed_for :: "string \<Rightarrow> drop_metrics \<Rightarrow> drop_metrics" where
  "inc_egress_qos0_shed_for client_id d =
     d\<lparr>dm_egress_qos0_shed := dm_egress_qos0_shed d + 1,
       dm_qos0_shed_by_client :=
         AList.update client_id (egress_qos0_shed_for d client_id + 1) (dm_qos0_shed_by_client d)\<rparr>"

text \<open>A table without metrics routes in the same way and counts nothing.\<close>

definition count_drop :: "(drop_metrics \<Rightarrow> drop_metrics) \<Rightarrow> conn_table \<Rightarrow> conn_table" where
  "count_drop inc t = t\<lparr>ct_metrics := map_option inc (ct_metrics t)\<rparr>"

section \<open>Buckets\<close>

definition conn_shard :: "u64 \<Rightarrow> nat" where
  "conn_shard conn_id = unat conn_id mod NUM_SHARDS"

definition slot_get :: "conn_table \<Rightarrow> u64 \<Rightarrow> conn_slot option" where
  "slot_get t conn_id = map_of (ct_shards t ! conn_shard conn_id) conn_id"

definition slot_put :: "u64 \<Rightarrow> conn_slot \<Rightarrow> conn_table \<Rightarrow> conn_table" where
  "slot_put conn_id slot t =
     (let i = conn_shard conn_id in
      t\<lparr>ct_shards := (ct_shards t)[i := AList.update conn_id slot (ct_shards t ! i)]\<rparr>)"

text \<open>A write to a field of the slot of a known connection; unknown connections are ignored.\<close>

definition slot_modify :: "u64 \<Rightarrow> (conn_slot \<Rightarrow> conn_slot) \<Rightarrow> conn_table \<Rightarrow> conn_table" where
  "slot_modify conn_id g t =
     (case slot_get t conn_id of None \<Rightarrow> t | Some slot \<Rightarrow> slot_put conn_id (g slot) t)"

section \<open>Registration and labels\<close>

definition conn_table_default :: "notify \<Rightarrow> conn_table" where
  "conn_table_default qos0_notify =
     \<lparr>ct_shards = replicate NUM_SHARDS [], ct_metrics = None, ct_qos0_bound = DEFAULT_QOS0_BACKLOG,
      ct_qos0_notify = qos0_notify\<rparr>"

definition set_qos0_bound :: "nat \<Rightarrow> conn_table \<Rightarrow> conn_table" where
  "set_qos0_bound bound t = t\<lparr>ct_qos0_bound := max bound 1\<rparr>"

definition with_qos0_bound :: "nat \<Rightarrow> notify \<Rightarrow> conn_table" where
  "with_qos0_bound bound qos0_notify = set_qos0_bound bound (conn_table_default qos0_notify)"

definition qos0_bound :: "conn_table \<Rightarrow> nat" where
  "qos0_bound t = max (ct_qos0_bound t) 1"

definition set_metrics :: "drop_metrics \<Rightarrow> conn_table \<Rightarrow> conn_table" where
  "set_metrics d t = (case ct_metrics t of None \<Rightarrow> t\<lparr>ct_metrics := Some d\<rparr> | Some _ \<Rightarrow> t)"

definition register :: "u64 \<Rightarrow> chan \<Rightarrow> conn_table \<Rightarrow> conn_table" where
  "register conn_id tx t =
     slot_put conn_id
       \<lparr>cs_tx = tx, cs_next_seq = 1, cs_qos0 = [], cs_client = None, cs_tenant = None, cs_waker = None\<rparr> t"

definition set_client_label :: "u64 \<Rightarrow> string \<Rightarrow> conn_table \<Rightarrow> conn_table" where
  "set_client_label conn_id client_id = slot_modify conn_id (\<lambda>slot. slot\<lparr>cs_client := Some client_id\<rparr>)"

definition set_tenant_label :: "u64 \<Rightarrow> string \<Rightarrow> conn_table \<Rightarrow> conn_table" where
  "set_tenant_label conn_id tenant =
     slot_modify conn_id (\<lambda>slot. slot\<lparr>cs_tenant := Some (normalize_tenant tenant)\<rparr>)"

definition set_client_label_in_tenant :: "u64 \<Rightarrow> string \<Rightarrow> string \<Rightarrow> conn_table \<Rightarrow> conn_table" where
  "set_client_label_in_tenant conn_id client_id tenant =
     slot_modify conn_id (\<lambda>slot.
       slot\<lparr>cs_client := Some client_id, cs_tenant := Some (normalize_tenant tenant)\<rparr>)"

definition set_waker :: "u64 \<Rightarrow> notify \<Rightarrow> conn_table \<Rightarrow> conn_table" where
  "set_waker conn_id waker = slot_modify conn_id (\<lambda>slot. slot\<lparr>cs_waker := Some waker\<rparr>)"

definition client_label_for :: "conn_table \<Rightarrow> u64 \<Rightarrow> string option" where
  "client_label_for t conn_id = Option.bind (slot_get t conn_id) cs_client"

definition slot_tenant :: "conn_slot \<Rightarrow> string" where
  "slot_tenant slot = (case cs_tenant slot of Some tenant \<Rightarrow> tenant | None \<Rightarrow> DEFAULT_TENANT_ID)"

definition tenant_for :: "conn_table \<Rightarrow> u64 \<Rightarrow> string option" where
  "tenant_for t conn_id = map_option slot_tenant (slot_get t conn_id)"

definition conns_in_tenant :: "conn_table \<Rightarrow> string \<Rightarrow> u64 list" where
  "conns_in_tenant t tenant =
     (let want = normalize_tenant tenant in
      sort (concat (map (\<lambda>shard. map fst (filter (\<lambda>(conn_id, slot). slot_tenant slot = want) shard))
        (ct_shards t))))"

definition unregister :: "u64 \<Rightarrow> conn_table \<Rightarrow> conn_table" where
  "unregister conn_id t =
     (let i = conn_shard conn_id in
      t\<lparr>ct_shards := (ct_shards t)[i := AList.delete conn_id (ct_shards t ! i)]\<rparr>)"

definition prune_sender :: "chan \<Rightarrow> conn_table \<Rightarrow> conn_table" where
  "prune_sender tx t =
     t\<lparr>ct_shards := map (filter (\<lambda>(conn_id, slot). cs_tx slot \<noteq> tx)) (ct_shards t)\<rparr>"

section \<open>The backlog\<close>

definition qos0_len :: "conn_table \<Rightarrow> u64 \<Rightarrow> nat" where
  "qos0_len t conn_id = (case slot_get t conn_id of Some slot \<Rightarrow> length (cs_qos0 slot) | None \<Rightarrow> 0)"

definition pop_qos0 :: "u64 \<Rightarrow> conn_table \<Rightarrow> broker_frame option \<times> conn_table" where
  "pop_qos0 conn_id t =
     (case slot_get t conn_id of
        None \<Rightarrow> (None, t)
      | Some slot \<Rightarrow>
          (case cs_qos0 slot of
             [] \<Rightarrow> (None, t)
           | f # fs \<Rightarrow> (Some f, slot_put conn_id (slot\<lparr>cs_qos0 := fs\<rparr>) t)))"

definition drain_qos0 :: "u64 \<Rightarrow> nat \<Rightarrow> conn_table \<Rightarrow> broker_frame list \<times> conn_table" where
  "drain_qos0 conn_id max_frames t =
     (case slot_get t conn_id of
        None \<Rightarrow> ([], t)
      | Some slot \<Rightarrow>
          let queue = cs_qos0 slot; k = min max_frames (length queue) in
          (take k queue, slot_put conn_id (slot\<lparr>cs_qos0 := drop k queue\<rparr>) t))"

text \<open>The loop: the frames taken so far, their size, and the rest of the queue.\<close>

fun drain_budget ::
  "nat \<Rightarrow> nat \<Rightarrow> broker_frame list \<Rightarrow> nat \<Rightarrow> broker_frame list \<Rightarrow> broker_frame list \<times> broker_frame list" where
  "drain_budget max_frames max_bytes out out_bytes [] = (out, [])"
| "drain_budget max_frames max_bytes out out_bytes (f # queue) =
    (if \<not> length out < max_frames then (out, f # queue)
     else if out_bytes + total_frame_len f > max_bytes \<and> out \<noteq> [] then (out, f # queue)
     else if out_bytes + total_frame_len f \<ge> max_bytes then (out @ [f], queue)
     else drain_budget max_frames max_bytes (out @ [f]) (out_bytes + total_frame_len f) queue)"

definition drain_qos0_with_budget :: "u64 \<Rightarrow> nat \<Rightarrow> nat \<Rightarrow> conn_table \<Rightarrow> broker_frame list \<times> conn_table" where
  "drain_qos0_with_budget conn_id max_frames max_bytes t =
     (case slot_get t conn_id of
        None \<Rightarrow> ([], t)
      | Some slot \<Rightarrow>
          let (out, queue) = drain_budget max_frames max_bytes [] 0 (cs_qos0 slot) in
          (out, slot_put conn_id (slot\<lparr>cs_qos0 := queue\<rparr>) t))"

section \<open>Routing\<close>

definition is_qos0_publish_out :: "broker_frame \<Rightarrow> bool" where
  "is_qos0_publish_out f =
     (if h_opcode (f_header f) \<noteq> PublishOut then False
      else
        let meta = f_metadata f in
        if length meta < 7 then False
        else
          let topic_len = unat (u16_from_be (take 2 meta));
              old_len = 2 + topic_len + 5;
              known_len = (length meta = old_len \<or> length meta = old_len + 2 \<or>
                length meta = old_len + 2 + 4 \<or> length meta \<ge> old_len + 2 + 4 + 7) in
          if \<not> known_len then False else meta ! (2 + topic_len + 2) = 0)"

definition stamp :: "u64 \<Rightarrow> broker_frame \<Rightarrow> broker_frame" where
  "stamp sq f = f\<lparr>f_header := (f_header f)\<lparr>h_sequence_no := sq\<rparr>\<rparr>"

text \<open>The shedding loop: frames leave at the front while the queue is at its bound.\<close>

fun shed_oldest :: "nat \<Rightarrow> broker_frame list \<Rightarrow> u64 \<Rightarrow> broker_frame list \<times> u64" where
  "shed_oldest bound [] dropped = ([], dropped)"
| "shed_oldest bound (f # queue) dropped =
    (if length (f # queue) \<ge> bound then shed_oldest bound queue (dropped + 1) else (f # queue, dropped))"

definition wake :: "'c runtime \<Rightarrow> notify option \<Rightarrow> notify \<Rightarrow> 'c \<Rightarrow> 'c" where
  "wake rt waker global c =
     rt_notify_one rt global (case waker of None \<Rightarrow> c | Some w \<Rightarrow> rt_notify_one rt w c)"

text \<open>The guaranteed path after the stamp: send, or drop the dead destination and count.\<close>

definition send_or_prune ::
  "'c runtime \<Rightarrow> u64 \<Rightarrow> chan \<Rightarrow> broker_frame \<Rightarrow> conn_table \<Rightarrow> 'c \<Rightarrow> bool \<times> conn_table \<times> 'c" where
  "send_or_prune rt conn_id tx f t c =
     (let (ok, c) = rt_send rt tx f c in
      if ok then (True, t, c)
      else (False, count_drop inc_dead_mailbox_dropped (unregister conn_id t), c))"

definition route_qos0 ::
  "'c runtime \<Rightarrow> u64 \<Rightarrow> string \<Rightarrow> broker_frame \<Rightarrow> conn_table \<Rightarrow> 'c \<Rightarrow> bool \<times> conn_table \<times> 'c" where
  "route_qos0 rt conn_id client_id f t c =
     (case slot_get t conn_id of
        None \<Rightarrow> (False, count_drop inc_unknown_conn_dropped t, c)
      | Some slot \<Rightarrow>
          let f = stamp (cs_next_seq slot) f;
              slot = slot\<lparr>cs_next_seq := cs_next_seq slot + 1\<rparr> in
          if \<not> is_qos0_publish_out f then send_or_prune rt conn_id (cs_tx slot) f (slot_put conn_id slot t) c
          else
            let bound = max (ct_qos0_bound t) 1;
                (queue, shed) = shed_oldest bound (cs_qos0 slot) 0;
                t = slot_put conn_id (slot\<lparr>cs_qos0 := queue @ [f]\<rparr>) t;
                t = (count_drop (inc_egress_qos0_shed_for client_id) ^^ unat shed) t in
            (True, t, wake rt (cs_waker slot) (ct_qos0_notify t) c))"

definition route ::
  "'c runtime \<Rightarrow> u64 \<Rightarrow> broker_frame \<Rightarrow> conn_table \<Rightarrow> 'c \<Rightarrow> bool \<times> conn_table \<times> 'c" where
  "route rt conn_id f t c =
     (case slot_get t conn_id of
        None \<Rightarrow> (False, count_drop inc_unknown_conn_dropped t, c)
      | Some slot \<Rightarrow>
          let f' = stamp (cs_next_seq slot) f;
              slot = slot\<lparr>cs_next_seq := cs_next_seq slot + 1\<rparr> in
          if \<not> is_qos0_publish_out f then send_or_prune rt conn_id (cs_tx slot) f' (slot_put conn_id slot t) c
          else
            let bound = max (ct_qos0_bound t) 1;
                (queue, shed) = shed_oldest bound (cs_qos0 slot) 0;
                t = slot_put conn_id (slot\<lparr>cs_qos0 := queue @ [f']\<rparr>) t;
                inc = (case cs_client slot of
                         Some client \<Rightarrow> inc_egress_qos0_shed_for client | None \<Rightarrow> inc_egress_qos0_shed);
                t = (count_drop inc ^^ unat shed) t in
            (True, t, wake rt (cs_waker slot) (ct_qos0_notify t) c))"

section \<open>Interface: a store of slots\<close>

text \<open>What routing relies on: a lookup sees the last write or removal of its key only.\<close>

locale slot_store =
  fixes ok :: "'t \<Rightarrow> bool"
    and look :: "'t \<Rightarrow> 'k \<Rightarrow> 'v option"
    and put :: "'k \<Rightarrow> 'v \<Rightarrow> 't \<Rightarrow> 't"
    and del :: "'k \<Rightarrow> 't \<Rightarrow> 't"
  assumes ok_put: "ok t \<Longrightarrow> ok (put k v t)"
    and ok_del: "ok t \<Longrightarrow> ok (del k t)"
    and look_put: "ok t \<Longrightarrow> look (put k v t) k' = (if k' = k then Some v else look t k')"
    and look_del: "ok t \<Longrightarrow> look (del k t) k' = (if k' = k then None else look t k')"
begin

text \<open>An update of a value in place, as the label writes and the drains do.\<close>

lemma look_update:
  "ok t \<Longrightarrow> look (case look t k of None \<Rightarrow> t | Some v \<Rightarrow> put k (g v) t) k' =
     (if k' = k then map_option g (look t k) else look t k')"
  by (simp add: look_put split: option.split)

lemma ok_update: "ok t \<Longrightarrow> ok (case look t k of None \<Rightarrow> t | Some v \<Rightarrow> put k (g v) t)"
  by (simp add: ok_put split: option.split)

lemma put_twice: "ok t \<Longrightarrow> look (put k v (put k w t)) = look (put k v t)"
  by (simp add: fun_eq_iff look_put ok_put)

end

text \<open>The buckets: distinct keys, each in the bucket of its connection.\<close>

definition table_ok :: "conn_table \<Rightarrow> bool" where
  "table_ok t \<longleftrightarrow> length (ct_shards t) = NUM_SHARDS \<and>
     (\<forall>i < NUM_SHARDS. distinct (map fst (ct_shards t ! i)) \<and>
        (\<forall>k \<in> fst ` set (ct_shards t ! i). conn_shard k = i))"

lemma conn_shard_less [simp]: "conn_shard k < NUM_SHARDS"
  by (simp add: conn_shard_def NUM_SHARDS_def)

lemma table_ok_shards:
  assumes "table_ok t" and "distinct (map fst shard)" and "\<forall>k \<in> fst ` set shard. conn_shard k = i"
  shows "table_ok (t\<lparr>ct_shards := (ct_shards t)[i := shard]\<rparr>)"
proof (cases "i < NUM_SHARDS")
  case True
  with assms show ?thesis by (auto simp: table_ok_def nth_list_update)
qed (use assms in \<open>simp add: table_ok_def\<close>)

lemma table_ok_shard:
  "table_ok t \<Longrightarrow> distinct (map fst (ct_shards t ! conn_shard k))"
  "table_ok t \<Longrightarrow> k' \<in> fst ` set (ct_shards t ! conn_shard k) \<Longrightarrow> conn_shard k' = conn_shard k"
  unfolding table_ok_def using conn_shard_less by blast+

interpretation st: slot_store table_ok slot_get slot_put unregister
proof
  fix t k slot assume t: "table_ok t"
  show "table_ok (slot_put k slot t)"
    unfolding slot_put_def Let_def
  proof (rule table_ok_shards [OF t])
    show "distinct (map fst (AList.update k slot (ct_shards t ! conn_shard k)))"
      using table_ok_shard(1) [OF t] by (rule distinct_update)
    show "\<forall>k' \<in> fst ` set (AList.update k slot (ct_shards t ! conn_shard k)). conn_shard k' = conn_shard k"
      using table_ok_shard(2) [OF t, of _ k] by (simp only: dom_update) blast
  qed
  show "table_ok (unregister k t)"
    unfolding unregister_def Let_def
  proof (rule table_ok_shards [OF t])
    show "distinct (map fst (AList.delete k (ct_shards t ! conn_shard k)))"
      using table_ok_shard(1) [OF t] by (rule distinct_delete)
    show "\<forall>k' \<in> fst ` set (AList.delete k (ct_shards t ! conn_shard k)). conn_shard k' = conn_shard k"
      using table_ok_shard(2) [OF t, of _ k] dom_delete_subset [of k "ct_shards t ! conn_shard k"] by blast
  qed
  have len: "conn_shard k < length (ct_shards t)" using t by (simp add: table_ok_def)
  show "slot_get (slot_put k slot t) k' = (if k' = k then Some slot else slot_get t k')" for k'
    using len by (auto simp: slot_get_def slot_put_def Let_def nth_list_update update_conv')
  show "slot_get (unregister k t) k' = (if k' = k then None else slot_get t k')" for k'
    using len by (auto simp: slot_get_def unregister_def Let_def nth_list_update delete_conv')
qed

lemmas store_simps = st.look_put st.look_del st.ok_put st.ok_del

lemma slot_modify_laws:
  assumes "table_ok t"
  shows "table_ok (slot_modify k g t)"
    and "slot_get (slot_modify k g t) k' = (if k' = k then map_option g (slot_get t k) else slot_get t k')"
  using st.ok_update [OF assms, of k g] st.look_update [OF assms, of k g k'] by (simp_all add: slot_modify_def)

lemma count_drop_frame [simp]:
  "slot_get (count_drop inc t) k = slot_get t k" "table_ok (count_drop inc t) = table_ok t"
  "ct_qos0_bound (count_drop inc t) = ct_qos0_bound t" "ct_shards (count_drop inc t) = ct_shards t"
  "ct_metrics (count_drop inc t) = map_option inc (ct_metrics t)"
  by (simp_all add: count_drop_def slot_get_def table_ok_def)

lemma count_drop_pow:
  "(count_drop inc ^^ n) t = t\<lparr>ct_metrics := map_option (inc ^^ n) (ct_metrics t)\<rparr>"
  by (induction n) (simp_all add: count_drop_def option.map_comp option.map_ident o_def)

lemma set_metrics_frame [simp]:
  "slot_get (t\<lparr>ct_metrics := d\<rparr>) k = slot_get t k" "table_ok (t\<lparr>ct_metrics := d\<rparr>) = table_ok t"
  by (simp_all add: slot_get_def table_ok_def)

lemma slot_put_fields [simp]:
  "ct_metrics (slot_put k s t) = ct_metrics t" "ct_qos0_bound (slot_put k s t) = ct_qos0_bound t"
  "ct_metrics (unregister k t) = ct_metrics t" "ct_qos0_bound (unregister k t) = ct_qos0_bound t"
  by (simp_all add: slot_put_def unregister_def Let_def)

section \<open>Shedding\<close>

text \<open>The last \<open>n\<close> entries of a queue.\<close>

definition window :: "nat \<Rightarrow> 'a list \<Rightarrow> 'a list" where
  "window n xs = drop (length xs - n) xs"

lemma length_window [simp]: "length (window n xs) = min n (length xs)"
  by (simp add: window_def)

lemma window_all: "length xs \<le> n \<Longrightarrow> window n xs = xs"
  by (simp add: window_def)

lemma window_snoc: "0 < n \<Longrightarrow> window n (xs @ [x]) = window (n - 1) xs @ [x]"
  by (cases n) (simp_all add: window_def)

lemma window_window_append: "window n (window n xs @ ys) = window n (xs @ ys)"
  by (cases "n \<le> length xs") (simp_all add: window_def add.commute)

lemma shed_oldest_window: "shed_oldest (Suc b) q d = (window b q, d + of_nat (length q - b))"
  by (induction q arbitrary: d) (simp_all add: window_def Suc_diff_le)

lemma inc_shed_pow: "(inc_egress_qos0_shed ^^ n) d = d\<lparr>dm_egress_qos0_shed := dm_egress_qos0_shed d + of_nat n\<rparr>"
  by (induction n) (simp_all add: inc_egress_qos0_shed_def)

lemma inc_shed_for_fields [simp]:
  "dm_unknown_conn_dropped ((inc_egress_qos0_shed_for cl ^^ n) d) = dm_unknown_conn_dropped d"
  "dm_dead_mailbox_dropped ((inc_egress_qos0_shed_for cl ^^ n) d) = dm_dead_mailbox_dropped d"
  "dm_egress_qos0_shed ((inc_egress_qos0_shed_for cl ^^ n) d) = dm_egress_qos0_shed d + of_nat n"
  "egress_qos0_shed_for ((inc_egress_qos0_shed_for cl ^^ n) d) cl = egress_qos0_shed_for d cl + of_nat n"
  by (induction n) (simp_all add: inc_egress_qos0_shed_for_def egress_qos0_shed_for_def update_conv')

lemma is_qos0_stamp [simp]: "is_qos0_publish_out (stamp sq f) = is_qos0_publish_out f"
  by (simp add: is_qos0_publish_out_def stamp_def)

section \<open>Routing\<close>

lemma qos0_bound_Suc: "\<exists>b. qos0_bound t = Suc b"
  by (cases "qos0_bound t") (simp_all add: qos0_bound_def)

lemma shed_bound:
  "shed_oldest (qos0_bound t) q d =
     (window (qos0_bound t - 1) q, d + of_nat (length q - (qos0_bound t - 1)))"
  using qos0_bound_Suc [of t] shed_oldest_window by auto

lemma window_bound_snoc: "window (qos0_bound t - 1) q @ [f] = window (qos0_bound t) (q @ [f])"
  by (simp add: window_snoc qos0_bound_def)

text \<open>The slot after an accepted QoS 0 frame, and after a frame on the guaranteed path.\<close>

definition slot_queued :: "conn_table \<Rightarrow> broker_frame \<Rightarrow> conn_slot \<Rightarrow> conn_slot" where
  "slot_queued t f slot = slot\<lparr>cs_next_seq := cs_next_seq slot + 1,
     cs_qos0 := window (qos0_bound t) (cs_qos0 slot @ [stamp (cs_next_seq slot) f])\<rparr>"

definition slot_sent :: "conn_slot \<Rightarrow> conn_slot" where
  "slot_sent slot = slot\<lparr>cs_next_seq := cs_next_seq slot + 1\<rparr>"

definition shed_count :: "conn_table \<Rightarrow> conn_slot \<Rightarrow> nat" where
  "shed_count t slot = length (cs_qos0 slot) - (qos0_bound t - 1)"

definition shed_label :: "conn_slot \<Rightarrow> drop_metrics \<Rightarrow> drop_metrics" where
  "shed_label slot =
     (case cs_client slot of Some client \<Rightarrow> inc_egress_qos0_shed_for client | None \<Rightarrow> inc_egress_qos0_shed)"

lemma route_unknown:
  "slot_get t k = None \<Longrightarrow> route rt k f t c = (False, count_drop inc_unknown_conn_dropped t, c)"
  "slot_get t k = None \<Longrightarrow> route_qos0 rt k cl f t c = (False, count_drop inc_unknown_conn_dropped t, c)"
  by (simp_all add: route_def route_qos0_def)

lemma route_guaranteed:
  assumes "slot_get t k = Some slot" and "\<not> is_qos0_publish_out f"
  shows "route rt k f t c =
      send_or_prune rt k (cs_tx slot) (stamp (cs_next_seq slot) f) (slot_put k (slot_sent slot) t) c"
    and "route_qos0 rt k cl f t c =
      send_or_prune rt k (cs_tx slot) (stamp (cs_next_seq slot) f) (slot_put k (slot_sent slot) t) c"
  using assms by (simp_all add: route_def route_qos0_def slot_sent_def Let_def)

lemma route_queued:
  assumes "slot_get t k = Some slot" and "is_qos0_publish_out f"
  shows "\<exists>c'. route rt k f t c = (True,
      (count_drop (shed_label slot) ^^ unat (of_nat (shed_count t slot) :: u64))
        (slot_put k (slot_queued t f slot) t), c') \<and>
      c' = wake rt (cs_waker slot) (ct_qos0_notify t) c"
    and "\<exists>c'. route_qos0 rt k cl f t c = (True,
      (count_drop (inc_egress_qos0_shed_for cl) ^^ unat (of_nat (shed_count t slot) :: u64))
        (slot_put k (slot_queued t f slot) t), c') \<and>
      c' = wake rt (cs_waker slot) (ct_qos0_notify t) c"
proof -
  have n: "ct_qos0_notify ((count_drop inc ^^ m) (slot_put k s t)) = ct_qos0_notify t" for inc m s
    by (simp add: count_drop_pow slot_put_def Let_def)
  have sh: "shed_oldest (max (ct_qos0_bound t) (Suc 0)) (cs_qos0 slot) 0 =
      (window (qos0_bound t - 1) (cs_qos0 slot), of_nat (shed_count t slot))"
    using shed_bound [of t "cs_qos0 slot" 0] by (simp add: qos0_bound_def shed_count_def)
  show "\<exists>c'. route rt k f t c = (True,
      (count_drop (shed_label slot) ^^ unat (of_nat (shed_count t slot) :: u64))
        (slot_put k (slot_queued t f slot) t), c') \<and>
      c' = wake rt (cs_waker slot) (ct_qos0_notify t) c"
    using assms by (simp add: route_def Let_def slot_queued_def sh shed_label_def n flip: window_bound_snoc)
  show "\<exists>c'. route_qos0 rt k cl f t c = (True,
      (count_drop (inc_egress_qos0_shed_for cl) ^^ unat (of_nat (shed_count t slot) :: u64))
        (slot_put k (slot_queued t f slot) t), c') \<and>
      c' = wake rt (cs_waker slot) (ct_qos0_notify t) c"
    using assms by (simp add: route_qos0_def Let_def slot_queued_def sh n flip: window_bound_snoc)
qed

lemma slot_get_count_pow [simp]:
  "slot_get ((count_drop inc ^^ n) t) k = slot_get t k" "table_ok ((count_drop inc ^^ n) t) = table_ok t"
  "qos0_bound ((count_drop inc ^^ n) t) = qos0_bound t"
  by (simp_all add: count_drop_pow qos0_bound_def)

lemma qos0_bound_put [simp]: "qos0_bound (slot_put k s t) = qos0_bound t"
  by (simp add: qos0_bound_def)

section \<open>Streams to one connection\<close>

text \<open>
  What the channels of the runtime promise: a send to a live channel appends to its inbox, a send to
  a closed one is refused, and waking a task sends nothing.
\<close>

definition fifo_runtime ::
  "'c runtime \<Rightarrow> ('c \<Rightarrow> chan \<Rightarrow> broker_frame list) \<Rightarrow> ('c \<Rightarrow> chan \<Rightarrow> bool) \<Rightarrow> bool" where
  "fifo_runtime rt inbox alive \<longleftrightarrow>
     (\<forall>ch f c. fst (rt_send rt ch f c) = alive c ch) \<and>
     (\<forall>ch f c. alive (snd (rt_send rt ch f c)) = alive c) \<and>
     (\<forall>ch f c. inbox (snd (rt_send rt ch f c)) =
        (if alive c ch then (inbox c)(ch := inbox c ch @ [f]) else inbox c)) \<and>
     (\<forall>n c. inbox (rt_notify_one rt n c) = inbox c \<and> alive (rt_notify_one rt n c) = alive c)"

lemma fifo_wake:
  "fifo_runtime rt inbox alive \<Longrightarrow> inbox (wake rt w n c) = inbox c \<and> alive (wake rt w n c) = alive c"
  by (simp add: fifo_runtime_def wake_def split: option.split)

fun route_all ::
  "'c runtime \<Rightarrow> u64 \<Rightarrow> broker_frame list \<Rightarrow> conn_table \<Rightarrow> 'c \<Rightarrow> bool list \<times> conn_table \<times> 'c" where
  "route_all rt k [] t c = ([], t, c)"
| "route_all rt k (f # fs) t c =
    (let (b, t, c) = route rt k f t c; (bs, t, c) = route_all rt k fs t c in (b # bs, t, c))"

text \<open>Frames with consecutive sequence numbers.\<close>

fun stamp_from :: "u64 \<Rightarrow> broker_frame list \<Rightarrow> broker_frame list" where
  "stamp_from n [] = []"
| "stamp_from n (f # fs) = stamp n f # stamp_from (n + 1) fs"

text \<open>One routed frame at a live connection.\<close>

lemma route_live:
  assumes "fifo_runtime rt inbox alive" and "table_ok t" and "slot_get t k = Some slot" and "alive c (cs_tx slot)"
  obtains t' c' where "route rt k f t c = (True, t', c')" and "table_ok t'" and "qos0_bound t' = qos0_bound t"
    and "slot_get t' k = Some (if is_qos0_publish_out f then slot_queued t f slot else slot_sent slot)"
    and "\<And>k'. k' \<noteq> k \<Longrightarrow> slot_get t' k' = slot_get t k'"
    and "alive c' = alive c"
    and "inbox c' = (if is_qos0_publish_out f then inbox c
           else (inbox c)(cs_tx slot := inbox c (cs_tx slot) @ [stamp (cs_next_seq slot) f]))"
proof (cases "is_qos0_publish_out f")
  case True
  let ?t = "(count_drop (shed_label slot) ^^ unat (of_nat (shed_count t slot) :: u64))
        (slot_put k (slot_queued t f slot) t)"
  let ?c = "wake rt (cs_waker slot) (ct_qos0_notify t) c"
  have r: "route rt k f t c = (True, ?t, ?c)" using route_queued(1) [OF assms(3) True, of rt c] by blast
  show thesis
    by (rule that [OF r]) (use True assms(2) fifo_wake [OF assms(1)] in \<open>simp_all add: store_simps\<close>)
next
  case False
  let ?f = "stamp (cs_next_seq slot) f"
  have s: "fst (rt_send rt (cs_tx slot) ?f c)" "alive (snd (rt_send rt (cs_tx slot) ?f c)) = alive c"
    "inbox (snd (rt_send rt (cs_tx slot) ?f c)) = (inbox c)(cs_tx slot := inbox c (cs_tx slot) @ [?f])"
    using assms(1,4) by (simp_all add: fifo_runtime_def)
  have r: "route rt k f t c = (True, slot_put k (slot_sent slot) t, snd (rt_send rt (cs_tx slot) ?f c))"
    using s(1) by (simp add: route_guaranteed(1) [OF assms(3) False] send_or_prune_def case_prod_unfold Let_def)
  show thesis by (rule that [OF r]) (use False assms(2) s in \<open>simp_all add: store_simps\<close>)
qed

lemma route_all_live:
  assumes rt: "fifo_runtime rt inbox alive"
  shows "table_ok t \<Longrightarrow> slot_get t k = Some slot \<Longrightarrow> alive c (cs_tx slot) \<Longrightarrow> length (cs_qos0 slot) \<le> qos0_bound t \<Longrightarrow>
    (let (bs, t', c') = route_all rt k fs t c; n = cs_next_seq slot in
     bs = replicate (length fs) True \<and>
     inbox c' = (inbox c)(cs_tx slot :=
       inbox c (cs_tx slot) @ filter (\<lambda>f. \<not> is_qos0_publish_out f) (stamp_from n fs)) \<and>
     slot_get t' k = Some (slot\<lparr>cs_next_seq := n + of_nat (length fs),
       cs_qos0 := window (qos0_bound t) (cs_qos0 slot @ filter is_qos0_publish_out (stamp_from n fs))\<rparr>) \<and>
     (\<forall>k'. k' \<noteq> k \<longrightarrow> slot_get t' k' = slot_get t k'))"
proof (induction fs arbitrary: t c slot)
  case Nil
  then show ?case by (simp add: window_all)
next
  case (Cons f fs)
  define s1 where "s1 = (if is_qos0_publish_out f then slot_queued t f slot else slot_sent slot)"
  obtain t1 c1 where r: "route rt k f t c = (True, t1, c1)" "table_ok t1" "qos0_bound t1 = qos0_bound t"
    "slot_get t1 k = Some s1" "\<And>k'. k' \<noteq> k \<Longrightarrow> slot_get t1 k' = slot_get t k'" "alive c1 = alive c"
    "inbox c1 = (if is_qos0_publish_out f then inbox c
       else (inbox c)(cs_tx slot := inbox c (cs_tx slot) @ [stamp (cs_next_seq slot) f]))"
    by (rule route_live [OF rt Cons.prems(1-3), of f]) (rule that; (assumption | simp add: s1_def))
  have s: "cs_tx s1 = cs_tx slot" "cs_next_seq s1 = cs_next_seq slot + 1"
    "length (cs_qos0 s1) \<le> qos0_bound t"
    using Cons.prems(4) by (simp_all add: s1_def slot_queued_def slot_sent_def)
  have IH: "let (bs, t', c') = route_all rt k fs t1 c1; n = cs_next_seq slot + 1 in
     bs = replicate (length fs) True \<and>
     inbox c' = (inbox c1)(cs_tx slot :=
       inbox c1 (cs_tx slot) @ filter (\<lambda>f. \<not> is_qos0_publish_out f) (stamp_from n fs)) \<and>
     slot_get t' k = Some (s1\<lparr>cs_next_seq := n + of_nat (length fs),
       cs_qos0 := window (qos0_bound t) (cs_qos0 s1 @ filter is_qos0_publish_out (stamp_from n fs))\<rparr>) \<and>
     (\<forall>k'. k' \<noteq> k \<longrightarrow> slot_get t' k' = slot_get t1 k')"
    using Cons.IH [OF r(2,4)] Cons.prems(3) r(3,6) s by (simp only: s refl)
  have w: "window b (window b (q @ [x]) @ ys) = window b (q @ x # ys)" for b and q :: "broker_frame list" and x ys
    using window_window_append [of b "q @ [x]" ys] by simp
  show ?case
    using IH r(1,5,7)
    by (auto simp: case_prod_unfold Let_def s1_def slot_queued_def slot_sent_def w add.assoc split: if_splits)
qed

section \<open>Draining within a budget\<close>

definition frame_bytes :: "broker_frame list \<Rightarrow> nat" where
  "frame_bytes fs = sum_list (map total_frame_len fs)"

lemma frame_bytes_simps [simp]:
  "frame_bytes [] = 0" "frame_bytes (xs @ ys) = frame_bytes xs + frame_bytes ys"
  "frame_bytes (f # fs) = total_frame_len f + frame_bytes fs"
  by (simp_all add: frame_bytes_def)

lemma total_frame_len_pos: "0 < total_frame_len f"
  by (simp add: total_frame_len_def HEADER_LEN_def)

text \<open>The outcome of a drain: a prefix, within the limits, and as long as they allow.\<close>

definition drained :: "nat \<Rightarrow> nat \<Rightarrow> broker_frame list \<Rightarrow> broker_frame list \<Rightarrow> bool" where
  "drained max_frames max_bytes out rest \<longleftrightarrow>
     length out \<le> max_frames \<and> (frame_bytes out \<le> max_bytes \<or> length out = 1) \<and>
     (rest = [] \<or> length out = max_frames \<or> frame_bytes out + total_frame_len (hd rest) > max_bytes)"

lemma drain_budget_drained:
  "length out \<le> mf \<Longrightarrow> out = [] \<or> frame_bytes out < mb \<Longrightarrow>
   (let (out', rest) = drain_budget mf mb out (frame_bytes out) q in
    out' @ rest = out @ q \<and> length out \<le> length out' \<and> drained mf mb out' rest \<and>
    (out = [] \<and> q \<noteq> [] \<and> 0 < mf \<longrightarrow> out' \<noteq> []))"
proof (induction q arbitrary: out)
  case (Cons f q)
  let ?stop = "length out < mf \<longrightarrow> frame_bytes out + total_frame_len f > mb \<and> out \<noteq> []"
  show ?case
  proof (cases ?stop)
    case True
    then show ?thesis using Cons.prems by (auto simp: drained_def Let_def)
  next
    case False
    show ?thesis
    proof (cases "frame_bytes out + total_frame_len f \<ge> mb")
      case True
      have "drained mf mb (out @ [f]) q"
        using False True total_frame_len_pos [of "hd q"] by (auto simp: drained_def)
      with False True show ?thesis by (auto simp: Let_def)
    next
      case lt: False
      then show ?thesis using Cons.IH [of "out @ [f]"] False by (auto simp: Let_def case_prod_unfold)
    qed
  qed
qed (auto simp: drained_def)

section \<open>Accounting\<close>

text \<open>
  A routed frame with its counters: accepted, and every frame that left the backlog for it is
  counted as shed; or dropped, counted by exactly one of the two drop counters, and the destination
  is unknown afterwards.
\<close>

definition accounted :: "u64 \<Rightarrow> broker_frame \<Rightarrow> conn_table \<Rightarrow> bool \<Rightarrow> conn_table \<Rightarrow> bool" where
  "accounted k f t ok t' \<longleftrightarrow>
     (case (ct_metrics t, ct_metrics t') of
        (Some d, Some d') \<Rightarrow>
          (if ok then
             dm_unknown_conn_dropped d' = dm_unknown_conn_dropped d \<and>
             dm_dead_mailbox_dropped d' = dm_dead_mailbox_dropped d \<and>
             dm_egress_qos0_shed d' = dm_egress_qos0_shed d +
               of_nat (qos0_len t k + (if is_qos0_publish_out f then 1 else 0) - qos0_len t' k)
           else
             slot_get t' k = None \<and> dm_egress_qos0_shed d' = dm_egress_qos0_shed d \<and>
             (dm_unknown_conn_dropped d', dm_dead_mailbox_dropped d') =
               (if slot_get t k = None
                then (dm_unknown_conn_dropped d + 1, dm_dead_mailbox_dropped d)
                else (dm_unknown_conn_dropped d, dm_dead_mailbox_dropped d + 1)))
      | _ \<Rightarrow> False)"

lemma send_or_prune_accounted:
  assumes "table_ok t" and "slot_get t k = Some slot" and "\<not> is_qos0_publish_out f" and "ct_metrics t = Some d"
  shows "case send_or_prune rt k tx f' (slot_put k (slot_sent slot) t) c of (ok, t', c') \<Rightarrow> accounted k f t ok t'"
  using assms
  by (auto simp: send_or_prune_def case_prod_unfold Let_def accounted_def qos0_len_def store_simps slot_sent_def
      inc_dead_mailbox_dropped_def)

lemma queued_accounted:
  assumes "table_ok t" and "slot_get t k = Some slot" and "is_qos0_publish_out f" and "ct_metrics t = Some d"
    and "inc = inc_egress_qos0_shed \<or> (\<exists>cl. inc = inc_egress_qos0_shed_for cl)"
  shows "accounted k f t True
    ((count_drop inc ^^ unat (of_nat (shed_count t slot) :: u64)) (slot_put k (slot_queued t f slot) t))"
proof -
  have "length (cs_qos0 slot) + 1 - min (qos0_bound t) (Suc (length (cs_qos0 slot))) = shed_count t slot"
    by (auto simp: shed_count_def qos0_bound_def)
  then have n: "qos0_len t k + 1 - qos0_len (slot_put k (slot_queued t f slot) t) k = shed_count t slot"
    using assms(1,2) by (simp add: qos0_len_def store_simps slot_queued_def)
  moreover have "qos0_len (t'\<lparr>ct_metrics := x\<rparr>) k = qos0_len t' k" for t' x
    by (simp add: qos0_len_def)
  moreover have "(of_nat (unat (of_nat m :: u64)) :: u64) = of_nat m" for m
    by simp
  ultimately show ?thesis
    using assms(3-5) by (auto simp: accounted_def count_drop_pow inc_shed_pow)
qed

section \<open>Runs of the table\<close>

inductive table_run :: "'c runtime \<Rightarrow> conn_table \<Rightarrow> bool" for rt where
  run_default: "table_run rt (conn_table_default n)"
| run_bound: "table_run rt t \<Longrightarrow> table_run rt (set_qos0_bound b t)"
| run_metrics: "table_run rt t \<Longrightarrow> table_run rt (set_metrics d t)"
| run_register: "table_run rt t \<Longrightarrow> table_run rt (register k tx t)"
| run_client: "table_run rt t \<Longrightarrow> table_run rt (set_client_label k cl t)"
| run_tenant: "table_run rt t \<Longrightarrow> table_run rt (set_tenant_label k n t)"
| run_labels: "table_run rt t \<Longrightarrow> table_run rt (set_client_label_in_tenant k cl n t)"
| run_waker: "table_run rt t \<Longrightarrow> table_run rt (set_waker k w t)"
| run_pop: "table_run rt t \<Longrightarrow> table_run rt (snd (pop_qos0 k t))"
| run_drain: "table_run rt t \<Longrightarrow> table_run rt (snd (drain_qos0 k m t))"
| run_budget: "table_run rt t \<Longrightarrow> table_run rt (snd (drain_qos0_with_budget k m b t))"
| run_route: "table_run rt t \<Longrightarrow> route rt k f t c = (ok, t', c') \<Longrightarrow> table_run rt t'"
| run_route_qos0: "table_run rt t \<Longrightarrow> route_qos0 rt k cl f t c = (ok, t', c') \<Longrightarrow> table_run rt t'"
| run_unregister: "table_run rt t \<Longrightarrow> table_run rt (unregister k t)"
| run_prune: "table_run rt t \<Longrightarrow> table_run rt (prune_sender tx t)"

lemma route_table_ok:
  assumes "table_ok t"
  shows "route rt k f t c = (ok, t', c') \<Longrightarrow> table_ok t'" "route_qos0 rt k cl f t c = (ok, t', c') \<Longrightarrow> table_ok t'"
  using assms
  by (auto simp: route_def route_qos0_def send_or_prune_def Let_def store_simps split: option.splits prod.splits if_splits)

lemma drain_table_ok:
  assumes "table_ok t"
  shows "table_ok (snd (pop_qos0 k t))" "table_ok (snd (drain_qos0 k m t))"
    "table_ok (snd (drain_qos0_with_budget k m b t))"
  using assms
  by (simp_all add: pop_qos0_def drain_qos0_def drain_qos0_with_budget_def Let_def store_simps case_prod_unfold
      split: option.split list.split)

lemma distinct_filter_fst: "distinct (map fst xs) \<Longrightarrow> distinct (map fst (filter P xs))"
  by (induction xs) auto

lemma prune_table_ok: "table_ok t \<Longrightarrow> table_ok (prune_sender tx t)"
  by (auto simp: table_ok_def prune_sender_def distinct_filter_fst)

lemma map_of_filter_value:
  "distinct (map fst xs) \<Longrightarrow> map_of (filter (\<lambda>(k, v). P v) xs) k =
     (case map_of xs k of Some v \<Rightarrow> if P v then Some v else None | None \<Rightarrow> None)"
  by (induction xs) (auto split: option.split simp: map_of_eq_None_iff)

lemma slot_get_prune:
  assumes "table_ok t"
  shows "slot_get (prune_sender tx t) k =
    (case slot_get t k of Some slot \<Rightarrow> if cs_tx slot = tx then None else Some slot | None \<Rightarrow> None)"
proof -
  have "distinct (map fst (ct_shards t ! conn_shard k))" "conn_shard k < length (ct_shards t)"
    using assms table_ok_shard(1) by (simp_all add: table_ok_def)
  then show ?thesis by (simp add: slot_get_def prune_sender_def map_of_filter_value split: option.split)
qed

lemma run_table_ok: "table_run rt t \<Longrightarrow> table_ok t"
proof (induction rule: table_run.induct)
  case (run_default n)
  show ?case by (simp add: table_ok_def conn_table_default_def)
next
  case (run_bound t b)
  then show ?case by (simp add: set_qos0_bound_def table_ok_def)
next
  case (run_metrics t d)
  then show ?case by (simp add: set_metrics_def split: option.split)
next
  case (run_route t k f c ok t' c')
  from run_route.IH run_route.hyps(2) show ?case by (rule route_table_ok)
next
  case (run_route_qos0 t k cl f c ok t' c')
  from run_route_qos0.IH run_route_qos0.hyps(2) show ?case by (rule route_table_ok)
qed (simp_all add: register_def set_client_label_def set_tenant_label_def set_client_label_in_tenant_def
    set_waker_def store_simps slot_modify_laws(1) drain_table_ok prune_table_ok)

text \<open>The buckets hold every connection once.\<close>

lemma distinct_concat_indexed:
  "\<forall>i < length xs. distinct (xs ! i) \<and> (\<forall>k \<in> set (xs ! i). ix k = i) \<Longrightarrow> distinct (concat xs)"
proof (induction xs rule: rev_induct)
  case (snoc x xs)
  then have xs: "\<forall>i < length xs. distinct (xs ! i) \<and> (\<forall>k \<in> set (xs ! i). ix k = i)"
    by (metis butlast_snoc length_append_singleton less_SucI nth_butlast)
  from snoc.prems [rule_format, of "length xs"] have x: "distinct x" "\<forall>k \<in> set x. ix k = length xs"
    by simp_all
  have "ix k < length xs" if "k \<in> set (concat xs)" for k
  proof -
    from that obtain i where "i < length xs" "k \<in> set (xs ! i)" by (auto simp: in_set_conv_nth [of _ xs])
    with xs show ?thesis by simp
  qed
  with x snoc.IH [OF xs] show ?case by fastforce
qed simp

lemma conns_in_tenant_sorted_set:
  assumes "table_ok t"
  shows "sorted (conns_in_tenant t n) \<and> distinct (conns_in_tenant t n) \<and>
    set (conns_in_tenant t n) = {k. tenant_for t k = Some (normalize_tenant n)}"
proof -
  let ?sel = "\<lambda>shard. map fst (filter (\<lambda>(k, slot). slot_tenant slot = normalize_tenant n) shard)"
  have l: "length (ct_shards t) = NUM_SHARDS" using assms by (simp add: table_ok_def)
  have "\<forall>i < length (map ?sel (ct_shards t)). distinct (map ?sel (ct_shards t) ! i) \<and>
      (\<forall>k \<in> set (map ?sel (ct_shards t) ! i). conn_shard k = i)"
    using assms by (auto simp: table_ok_def distinct_filter_fst)
  then have "distinct (concat (map ?sel (ct_shards t)))" by (rule distinct_concat_indexed)
  moreover have "k \<in> set (concat (map ?sel (ct_shards t))) \<longleftrightarrow> tenant_for t k = Some (normalize_tenant n)" for k
  proof -
    have d: "distinct (map fst (ct_shards t ! i))" and ix: "\<forall>k \<in> fst ` set (ct_shards t ! i). conn_shard k = i"
      if "i < NUM_SHARDS" for i using assms that by (simp_all add: table_ok_def)
    have "k \<in> set (concat (map ?sel (ct_shards t))) \<longleftrightarrow>
        (\<exists>shard \<in> set (ct_shards t). \<exists>slot. (k, slot) \<in> set shard \<and> slot_tenant slot = normalize_tenant n)"
      by (force simp: image_iff)
    also have "\<dots> \<longleftrightarrow> (\<exists>i < NUM_SHARDS. \<exists>slot. (k, slot) \<in> set (ct_shards t ! i) \<and> slot_tenant slot = normalize_tenant n)"
      by (metis in_set_conv_nth l)
    also have "\<dots> \<longleftrightarrow> (\<exists>slot. (k, slot) \<in> set (ct_shards t ! conn_shard k) \<and> slot_tenant slot = normalize_tenant n)"
      using ix by (metis conn_shard_less fst_conv image_eqI)
    also have "\<dots> \<longleftrightarrow> tenant_for t k = Some (normalize_tenant n)"
      using d [OF conn_shard_less [of k]] by (auto simp: tenant_for_def slot_get_def)
    finally show ?thesis .
  qed
  ultimately show ?thesis by (auto simp: conns_in_tenant_def Let_def)
qed

section \<open>Properties\<close>

text \<open>A concrete runtime and table: one connection on channel 7 with a backlog of one frame.\<close>

definition list_runtime :: "(chan \<Rightarrow> broker_frame list) runtime" where
  "list_runtime = \<lparr>rt_send = (\<lambda>ch f c. (True, c(ch := c ch @ [f]))), rt_notify_one = (\<lambda>_ c. c)\<rparr>"

lemma list_runtime_fifo: "fifo_runtime list_runtime (\<lambda>c. c) (\<lambda>_ _. True)"
  by (simp add: fifo_runtime_def list_runtime_def)

definition pub_frame :: "u8 \<Rightarrow> broker_frame" where
  "pub_frame q = \<lparr>f_header = header_new PublishOut 5 0 8 0, f_metadata = [0, 1, 97, 0, 0, q, 0, 0], f_payload = []\<rparr>"

lemma pub_frame_qos0: "is_qos0_publish_out (pub_frame q) \<longleftrightarrow> q = 0"
  by (simp add: is_qos0_publish_out_def pub_frame_def header_new_def u16_from_be_def be_value_def Let_def)

definition one_conn :: conn_table where
  "one_conn = register 5 7 (set_metrics \<lparr>dm_unknown_conn_dropped = 0, dm_dead_mailbox_dropped = 0,
     dm_egress_qos0_shed = 0, dm_qos0_shed_by_client = []\<rparr> (with_qos0_bound 1 0))"

lemma one_conn_run: "table_run rt one_conn"
  unfolding one_conn_def with_qos0_bound_def by (intro run_register run_metrics run_bound run_default)

lemma one_conn_slot:
  "slot_get one_conn k = (if k = 5 then Some \<lparr>cs_tx = 7, cs_next_seq = 1, cs_qos0 = [], cs_client = None,
     cs_tenant = None, cs_waker = None\<rparr> else None)"
  "qos0_bound one_conn = 1" "\<exists>d. ct_metrics one_conn = Some d"
proof -
  let ?t = "set_metrics \<lparr>dm_unknown_conn_dropped = 0, dm_dead_mailbox_dropped = 0,
     dm_egress_qos0_shed = 0, dm_qos0_shed_by_client = []\<rparr> (with_qos0_bound 1 0)"
  have ok: "table_ok ?t"
    unfolding with_qos0_bound_def by (rule run_table_ok [OF run_metrics [OF run_bound [OF run_default]]])
  have none: "slot_get ?t k = None"
    by (simp add: set_metrics_def with_qos0_bound_def set_qos0_bound_def conn_table_default_def slot_get_def)
  show "slot_get one_conn k = (if k = 5 then Some \<lparr>cs_tx = 7, cs_next_seq = 1, cs_qos0 = [], cs_client = None,
     cs_tenant = None, cs_waker = None\<rparr> else None)"
    using st.look_put [OF ok] none by (simp add: one_conn_def register_def)
  show "qos0_bound one_conn = 1" "\<exists>d. ct_metrics one_conn = Some d"
    by (simp_all add: one_conn_def register_def with_qos0_bound_def set_qos0_bound_def set_metrics_def
        conn_table_default_def qos0_bound_def)
qed

definition busy_conn :: conn_table where
  "busy_conn = fst (snd (route list_runtime 5 (pub_frame 0) one_conn (\<lambda>_. [])))"

lemma busy_conn_run: "table_run list_runtime busy_conn"
  unfolding busy_conn_def
  by (rule run_route [OF one_conn_run, where c' = "snd (snd (route list_runtime 5 (pub_frame 0) one_conn (\<lambda>_. [])))"])
    (simp add: prod_eq_iff)

lemma busy_conn_slot: "\<exists>slot. slot_get busy_conn 5 = Some slot \<and> cs_qos0 slot = [stamp 1 (pub_frame 0)]"
proof -
  have q: "is_qos0_publish_out (pub_frame 0)" by (simp add: pub_frame_qos0)
  have s: "slot_get one_conn 5 = Some \<lparr>cs_tx = 7, cs_next_seq = 1, cs_qos0 = [], cs_client = None,
     cs_tenant = None, cs_waker = None\<rparr>" by (simp add: one_conn_slot)
  show ?thesis
    using route_queued(1) [OF s q, of list_runtime "\<lambda>_. []"]
      st.look_put [OF run_table_ok [OF one_conn_run]]
    by (auto simp: busy_conn_def slot_queued_def one_conn_slot(2) window_def)
qed

text \<open>
  C31. Order and loss of one connection's stream. When frames are routed to a live connection whose
  backlog is within its bound, every frame is accepted and numbered consecutively over both paths;
  the guaranteed frames all reach the mailbox in that order and are never shed; the backlog holds
  the newest QoS 0 frames up to the bound, in order; and no other connection is touched.
\<close>

theorem conn_stream_order:
  assumes "fifo_runtime rt inbox alive" and "table_run rt t" and "slot_get t k = Some slot"
    and "alive c (cs_tx slot)" and "length (cs_qos0 slot) \<le> qos0_bound t"
  shows "let (bs, t', c') = route_all rt k fs t c; n = cs_next_seq slot in
    bs = replicate (length fs) True \<and>
    inbox c' = (inbox c)(cs_tx slot :=
      inbox c (cs_tx slot) @ filter (\<lambda>f. \<not> is_qos0_publish_out f) (stamp_from n fs)) \<and>
    slot_get t' k = Some (slot\<lparr>cs_next_seq := n + of_nat (length fs),
      cs_qos0 := window (qos0_bound t) (cs_qos0 slot @ filter is_qos0_publish_out (stamp_from n fs))\<rparr>) \<and>
    (\<forall>k'. k' \<noteq> k \<longrightarrow> slot_get t' k' = slot_get t k')"
  by (rule route_all_live [OF assms(1) run_table_ok [OF assms(2)] assms(3-5)])

theorem conn_stream_order_witness:
  "let (bs, t', c') = route_all list_runtime 5 [pub_frame 0, pub_frame 1, pub_frame 0] one_conn (\<lambda>_. []) in
   c' 7 = [stamp 2 (pub_frame 1)] \<and> map_option cs_qos0 (slot_get t' 5) = Some [stamp 3 (pub_frame 0)]"
  using conn_stream_order [OF list_runtime_fifo one_conn_run, where k = 5 and c = "\<lambda>_. []"
      and fs = "[pub_frame 0, pub_frame 1, pub_frame 0]"]
  by (simp add: one_conn_slot pub_frame_qos0 window_def case_prod_unfold Let_def)

text \<open>
  C32. No silent loss: with metrics attached, a call of either routing entry point that accepts its
  frame counts as shed exactly the frames that left the backlog for it, and a call that drops its
  frame moves exactly one of the two drop counters by one (unknown destination or dead mailbox) and
  leaves the destination unregistered.
\<close>

theorem route_accounting:
  assumes "table_run rt t" and "ct_metrics t = Some d"
  shows "(case route rt k f t c of (ok, t', c') \<Rightarrow> accounted k f t ok t') \<and>
    (case route_qos0 rt k cl f t c of (ok, t', c') \<Rightarrow> accounted k f t ok t')"
proof (cases "slot_get t k")
  case None
  then show ?thesis
    using assms(2) by (simp add: route_unknown accounted_def inc_unknown_conn_dropped_def)
next
  case (Some slot)
  have ok: "table_ok t" using assms(1) by (rule run_table_ok)
  show ?thesis
  proof (cases "is_qos0_publish_out f")
    case True
    let ?n = "unat (of_nat (shed_count t slot) :: u64)" and ?t = "slot_put k (slot_queued t f slot) t"
    obtain c1 where r1: "route rt k f t c = (True, (count_drop (shed_label slot) ^^ ?n) ?t, c1)"
      using route_queued(1) [OF Some True, of rt c] by (elim exE conjE)
    obtain c2 where r2: "route_qos0 rt k cl f t c = (True, (count_drop (inc_egress_qos0_shed_for cl) ^^ ?n) ?t, c2)"
      using route_queued(2) [OF Some True, of rt cl c] by (elim exE conjE)
    have "shed_label slot = inc_egress_qos0_shed \<or> (\<exists>cl. shed_label slot = inc_egress_qos0_shed_for cl)"
      by (auto simp: shed_label_def split: option.split)
    then have "accounted k f t True ((count_drop (shed_label slot) ^^ ?n) ?t)"
      by (rule queued_accounted [OF ok Some True assms(2)])
    moreover have "accounted k f t True ((count_drop (inc_egress_qos0_shed_for cl) ^^ ?n) ?t)"
      by (rule queued_accounted [OF ok Some True assms(2)]) blast
    ultimately show ?thesis by (simp only: r1 r2 prod.case simp_thms)
  next
    case False
    then show ?thesis
      using send_or_prune_accounted [OF ok Some False assms(2)] by (simp add: route_guaranteed [OF Some])
  qed
qed

theorem route_accounting_witness:
  "\<exists>d. ct_metrics one_conn = Some d \<and>
   (case route list_runtime 9 (pub_frame 1) one_conn (\<lambda>_. []) of (ok, t', c') \<Rightarrow> accounted 9 (pub_frame 1) one_conn ok t')"
proof -
  obtain d where d: "ct_metrics one_conn = Some d" using one_conn_slot(3) by blast
  note route_accounting [OF one_conn_run [of list_runtime] d, where k = 9 and f = "pub_frame 1"
      and c = "\<lambda>_. []" and cl = "''x''", THEN conjunct1]
  with d show ?thesis by (intro exI conjI)
qed

text \<open>
  C33. The drain of the backlog within a frame and a byte budget takes a prefix of it, at most the
  frame budget, within the byte budget unless it is a single frame, as long as the budgets allow,
  and at least one frame when there is one: a large frame cannot block its connection.
\<close>

theorem drain_within_budget:
  assumes "table_run rt t" and "slot_get t k = Some slot"
  shows "case drain_qos0_with_budget k mf mb t of (out, t') \<Rightarrow>
    (let q = cs_qos0 slot; rest = drop (length out) q in
     out = take (length out) q \<and> slot_get t' k = Some (slot\<lparr>cs_qos0 := rest\<rparr>) \<and>
     drained mf mb out rest \<and> (q \<noteq> [] \<and> 0 < mf \<longrightarrow> out \<noteq> []))"
proof -
  obtain out rest where d: "drain_budget mf mb [] 0 (cs_qos0 slot) = (out, rest)"
    by (cases "drain_budget mf mb [] 0 (cs_qos0 slot)")
  with drain_budget_drained [of "[]" mf mb "cs_qos0 slot"]
  have q: "cs_qos0 slot = out @ rest" "drained mf mb out rest" "cs_qos0 slot \<noteq> [] \<and> 0 < mf \<longrightarrow> out \<noteq> []" by simp_all
  have "drain_qos0_with_budget k mf mb t = (out, slot_put k (slot\<lparr>cs_qos0 := rest\<rparr>) t)"
    using assms(2) by (simp add: drain_qos0_with_budget_def d)
  then show ?thesis using q st.look_put [OF run_table_ok [OF assms(1)]] by (simp add: Let_def)
qed

theorem drain_within_budget_witness:
  "case drain_qos0_with_budget 5 10 2 busy_conn of (out, t') \<Rightarrow>
     out = [stamp 1 (pub_frame 0)] \<and> map_option cs_qos0 (slot_get t' 5) = Some []"
proof -
  obtain slot where s: "slot_get busy_conn 5 = Some slot" "cs_qos0 slot = [stamp 1 (pub_frame 0)]"
    using busy_conn_slot by blast
  obtain out t' where d: "drain_qos0_with_budget 5 10 2 busy_conn = (out, t')"
    by (cases "drain_qos0_with_budget 5 10 2 busy_conn")
  have "out = take (length out) [stamp 1 (pub_frame 0)] \<and> out \<noteq> [] \<and>
      slot_get t' 5 = Some (slot\<lparr>cs_qos0 := drop (length out) [stamp 1 (pub_frame 0)]\<rparr>)"
    using drain_within_budget [OF busy_conn_run s(1), of 10 2] by (simp add: d s(2) Let_def)
  then show ?thesis unfolding d by (cases out) auto
qed

text \<open>
  Tenant listing: after any run of the table the connections listed for a tenant are sorted, free
  of duplicates, and exactly the registered ones whose tenant is that tenant; connections without a
  label count for the default tenant.
\<close>

theorem tenant_listing_exact:
  assumes "table_run rt t"
  shows "sorted (conns_in_tenant t n) \<and> distinct (conns_in_tenant t n) \<and>
    set (conns_in_tenant t n) = {k. tenant_for t k = Some (normalize_tenant n)}"
  using run_table_ok [OF assms] by (rule conns_in_tenant_sorted_set)

theorem tenant_listing_exact_witness: "set (conns_in_tenant one_conn []) = {5}"
proof -
  have "tenant_for one_conn k = Some (normalize_tenant []) \<longleftrightarrow> k = 5" for k
    by (simp add: tenant_for_def one_conn_slot slot_tenant_def normalize_tenant_def)
  then show ?thesis using tenant_listing_exact [OF one_conn_run [of list_runtime], of "[]"] by simp
qed

text \<open>
  Pruning by sender: when a task ends, exactly the connections whose mailbox is its channel leave
  the table.
\<close>

theorem prune_sender_exact:
  assumes "table_run rt t"
  shows "slot_get (prune_sender tx t) k =
    (case slot_get t k of Some slot \<Rightarrow> if cs_tx slot = tx then None else Some slot | None \<Rightarrow> None)"
  using run_table_ok [OF assms] by (rule slot_get_prune)

theorem prune_sender_exact_witness:
  "slot_get (prune_sender 7 one_conn) 5 = None \<and> slot_get (prune_sender 8 one_conn) 5 = slot_get one_conn 5"
  using prune_sender_exact [OF one_conn_run [of list_runtime], of _ 5] by (simp add: one_conn_slot)

end
