(* ===== verification/Session_Laws.thy ===== *)
theory Session_Laws
  imports Session
begin

text \<open>
  Correctness of a session: the identifiers it hands out, the window and overflow buffer as one
  bounded queue, the exactly-once hand-over of a QoS 2 publish, the topic aliases and the bounds of
  every collection. The operations of a session are the transitions of the relation
  \<open>session_step\<close>, and the invariants hold along every sequence of them.
\<close>

section \<open>Packet identifiers\<close>

lemma packet_id_held_next [simp]:
  "packet_id_held pid (s\<lparr>s_next_packet_id := x\<rparr>) = packet_id_held pid s"
  by (simp add: packet_id_held_def)

lemma next_packet_id_step:
  "next_packet_id s =
     (if s_next_packet_id s = 0 \<or> packet_id_held (s_next_packet_id s) s
      then next_packet_id (s\<lparr>s_next_packet_id := s_next_packet_id s + 1\<rparr>)
      else Some (s_next_packet_id s, s\<lparr>s_next_packet_id := s_next_packet_id s + 1\<rparr>))"
  by (subst next_packet_id.simps) (simp add: Let_def)

lemma next_packet_id_total:
  assumes "p \<noteq> 0" and "\<not> packet_id_held p s"
  shows "next_packet_id s \<noteq> None"
  using assms
proof (induction "unat (p - s_next_packet_id s)" arbitrary: s)
  case 0
  then have "p - s_next_packet_id s = 0" by (simp add: unat_eq_0)
  then have "p = s_next_packet_id s" by simp
  with 0 show ?case by (simp add: next_packet_id_step)
next
  case (Suc n)
  let ?s = "s\<lparr>s_next_packet_id := s_next_packet_id s + 1\<rparr>"
  have ne: "p - s_next_packet_id s \<noteq> 0" using Suc.hyps(2) by force
  have e: "p - (s_next_packet_id s + 1) = p - s_next_packet_id s - 1" by simp
  have "unat (p - (s_next_packet_id s + 1)) = n"
    unfolding e unat_minus_one [OF ne] using Suc.hyps(2) by simp
  then have "next_packet_id ?s \<noteq> None" using Suc.hyps(1) [of ?s] Suc.prems by simp
  then show ?case by (subst next_packet_id_step) simp
qed

lemma next_packet_id_result:
  assumes "next_packet_id s = Some (pid, s')"
  shows "pid \<noteq> 0 \<and> \<not> packet_id_held pid s \<and> s' = s\<lparr>s_next_packet_id := pid + 1\<rparr>"
proof -
  have "\<forall>r. next_packet_id s = Some r \<longrightarrow>
      fst r \<noteq> 0 \<and> \<not> packet_id_held (fst r) s \<and> snd r = s\<lparr>s_next_packet_id := fst r + 1\<rparr>"
  proof (rule allI, rule impI, erule next_packet_id.raw_induct [rotated], goal_cases)
    case (1 _ f x r)
    note IH = 1(1) [of "x\<lparr>s_next_packet_id := s_next_packet_id x + 1\<rparr>" r]
    show ?case using 1(2) IH by (auto simp: Let_def split: if_splits)
  qed
  with assms show ?thesis by auto
qed

lemma packet_id_free:
  assumes few: "inflight_total_len s + length (s_qos2_outbound s) < 65535"
  shows "\<exists>p. p \<noteq> 0 \<and> \<not> packet_id_held p s"
proof -
  let ?held = "im_packet_id ` set (s_inflight s) \<union> im_packet_id ` set (s_inflight_spill s)
      \<union> qo_packet_id ` set (s_qos2_outbound s)"
  have "card ?held \<le> length (s_inflight s) + length (s_inflight_spill s) + length (s_qos2_outbound s)"
    by (intro order_trans [OF card_Un_le] add_mono order_trans [OF card_image_le] card_length) simp_all
  then have "card (insert 0 ?held) < 65536"
    using few by (simp add: inflight_total_len_def card_insert_if)
  moreover have "card (UNIV :: u16 set) = 65536" by (simp add: card_word)
  ultimately have "insert 0 ?held \<noteq> UNIV" by force
  then obtain p where "p \<notin> insert 0 ?held" by blast
  then show ?thesis by (auto simp: packet_id_held_def)
qed

text \<open>
  C17. The search for a packet identifier ends exactly when an identifier is free, and then returns
  a free one that is not zero and moves the counter past it. It always ends while the tracked
  deliveries are fewer than the 65535 identifiers; when all identifiers are held it does not end.
\<close>

theorem next_packet_id_terminates:
  "(next_packet_id s \<noteq> None \<longleftrightarrow> (\<exists>p. p \<noteq> 0 \<and> \<not> packet_id_held p s))
   \<and> (inflight_total_len s + length (s_qos2_outbound s) < 65535 \<longrightarrow> next_packet_id s \<noteq> None)
   \<and> (\<forall>pid s'. next_packet_id s = Some (pid, s') \<longrightarrow>
        pid \<noteq> 0 \<and> \<not> packet_id_held pid s \<and> s' = s\<lparr>s_next_packet_id := pid + 1\<rparr>)"
proof (intro conjI impI allI)
  show ends: "next_packet_id s \<noteq> None \<longleftrightarrow> (\<exists>p. p \<noteq> 0 \<and> \<not> packet_id_held p s)"
    using next_packet_id_total next_packet_id_result by fastforce
  assume "inflight_total_len s + length (s_qos2_outbound s) < 65535"
  then show "next_packet_id s \<noteq> None" using ends packet_id_free by blast
next
  fix pid s'
  assume "next_packet_id s = Some (pid, s')"
  from next_packet_id_result [OF this]
  show "pid \<noteq> 0" "\<not> packet_id_held pid s" "s' = s\<lparr>s_next_packet_id := pid + 1\<rparr>" by simp_all
qed

section \<open>Transitions\<close>

text \<open>
  What the kernel does with a session while it is bound or detached. A delivery takes an identifier
  and tracks the message, as the fan-out of a publish does; the limits of the window are set when
  the session is created. A PUBREL takes the stored publish. When its fan-out could not be made
  durable, the PUBREL is withheld: it is not answered and the publish is put back. The frames of one
  connection are handled one after the other, so no other event of the table falls in between.
\<close>

datatype session_event =
    Deliver_qos1 inflight_message
  | Deliver_qos2 qos2_outbound_entry
  | Puback u16
  | Pubrec u16
  | Pubcomp u16
  | Publish_qos2 u16 qos2_inbound_entry
  | Pubrel u16
  | Pubrel_withheld u16
  | Use_alias u16 topic
  | Assign_alias topic
  | Alias_maxima u16 u16
  | Decide string string u8 bool bool u64
  | Drop_aliases
  | Drop_state

inductive session_step :: "session \<Rightarrow> session_event \<Rightarrow> session \<Rightarrow> bool" where
  deliver_qos1: "next_packet_id s = Some (pid, s1) \<Longrightarrow>
    session_step s (Deliver_qos1 m) (snd (track_inflight_or_spill (m\<lparr>im_packet_id := pid\<rparr>) s1))"
| deliver_qos2: "next_packet_id s = Some (pid, s1) \<Longrightarrow>
    session_step s (Deliver_qos2 e) (snd (track_qos2_outbound (e\<lparr>qo_packet_id := pid\<rparr>) s1))"
| puback: "session_step s (Puback pid) (snd (ack_inflight_timed pid s))"
| pubrec: "session_step s (Pubrec pid) (snd (complete_qos2_pubrec pid s))"
| pubcomp: "session_step s (Pubcomp pid) (snd (ack_qos2_pubcomp pid s))"
| publish_qos2: "session_step s (Publish_qos2 pid entry) (snd (store_qos2_inbound pid entry s))"
| pubrel: "session_step s (Pubrel pid) (snd (take_qos2_inbound pid s))"
| pubrel_withheld: "take_qos2_inbound pid s = (Some entry, s1) \<Longrightarrow>
    session_step s (Pubrel_withheld pid) (snd (store_qos2_inbound pid entry s1))"
| use_alias: "session_step s (Use_alias a t) (snd (register_inbound_alias a t s))"
| assign_alias: "session_step s (Assign_alias t) (snd (assign_outbound_alias t s))"
| alias_maxima: "session_step s (Alias_maxima i k) (set_outbound_alias_max k (set_inbound_alias_max i s))"
| decide: "session_step s (Decide action topic qos retain allow now)
    (record_authz_decision now action topic qos retain allow s)"
| drop_aliases: "session_step s Drop_aliases (clear_aliases s)"
| drop_state: "session_step s Drop_state (clear_qos2_outbound (clear_qos2_inbound (clear_inflight s)))"

inductive_cases session_stepE [elim!]:
  "session_step s (Deliver_qos1 m) s'" "session_step s (Deliver_qos2 e) s'" "session_step s (Puback pid) s'"
  "session_step s (Pubrec pid) s'" "session_step s (Pubcomp pid) s'" "session_step s (Publish_qos2 pid entry) s'"
  "session_step s (Pubrel pid) s'" "session_step s (Pubrel_withheld pid) s'" "session_step s (Use_alias a t) s'" "session_step s (Assign_alias t) s'"
  "session_step s (Alias_maxima i k) s'" "session_step s (Decide action topic qos retain allow now) s'"
  "session_step s Drop_aliases s'" "session_step s Drop_state s'"

inductive session_steps :: "session \<Rightarrow> session_event list \<Rightarrow> session \<Rightarrow> bool" where
  none: "session_steps s [] s"
| step: "session_step s e s1 \<Longrightarrow> session_steps s1 es s2 \<Longrightarrow> session_steps s (e # es) s2"

section \<open>Unacknowledged deliveries\<close>

definition pending :: "session \<Rightarrow> inflight_message list" where
  "pending s = s_inflight s @ s_inflight_spill s"

definition downlink_ids :: "session \<Rightarrow> u16 list" where
  "downlink_ids s = map im_packet_id (pending s) @ map qo_packet_id (s_qos2_outbound s)"

definition window_ok :: "session \<Rightarrow> bool" where
  "window_ok s \<longleftrightarrow>
     s_spill_count s = length (s_inflight_spill s)
     \<and> length (s_inflight s) \<le> max_inflight s \<and> length (s_inflight_spill s) \<le> max_spill s
     \<and> (s_inflight_spill s \<noteq> [] \<longrightarrow> length (s_inflight s) = max_inflight s)"

definition ids_ok :: "session \<Rightarrow> bool" where
  "ids_ok s \<longleftrightarrow> distinct (downlink_ids s) \<and> 0 \<notin> set (downlink_ids s) \<and> length (s_qos2_outbound s) \<le> MAX_QOS2_INFLIGHT"

lemma remove_first_None: "remove_first p xs = None \<longleftrightarrow> (\<forall>x\<in>set xs. \<not> p x)"
  by (induction xs) auto

lemma remove_first_Some:
  "remove_first p xs = Some (y, ys) \<Longrightarrow> \<exists>us vs. xs = us @ y # vs \<and> ys = us @ vs \<and> p y \<and> (\<forall>x\<in>set us. \<not> p x)"
proof (induction xs arbitrary: ys)
  case (Cons x xs)
  show ?case
  proof (cases "p x")
    case True
    with Cons.prems show ?thesis by (intro exI [of _ "[]"] exI [of _ xs]) simp
  next
    case False
    with Cons.prems obtain zs where z: "remove_first p xs = Some (y, zs)" "ys = x # zs" by auto
    from Cons.IH [OF z(1)] obtain us vs where
      "xs = us @ y # vs" "zs = us @ vs" "p y" "\<forall>x\<in>set us. \<not> p x" by (elim exE conjE) (rule that)
    with z(2) False show ?thesis by (intro exI [of _ "x # us"] exI [of _ vs]) simp
  qed
qed simp

lemma remove_first_append:
  "remove_first p (xs @ ys) =
     (case remove_first p xs of
        Some (y, r) \<Rightarrow> Some (y, r @ ys)
      | None \<Rightarrow> map_option (\<lambda>(y, r). (y, xs @ r)) (remove_first p ys))"
  by (induction xs) (auto split: option.splits simp: option.map_comp comp_def case_prod_unfold option.map_ident)

lemma remove_first_length: "remove_first p xs = Some (y, ys) \<Longrightarrow> length xs = Suc (length ys)"
  by (drule remove_first_Some) auto

lemma packet_id_held_iff: "window_ok s \<Longrightarrow> packet_id_held pid s \<longleftrightarrow> pid \<in> set (downlink_ids s)"
  by (auto simp: packet_id_held_def downlink_ids_def pending_def window_ok_def)

lemma window_pending:
  assumes "window_ok s"
  shows "s_inflight s = take (max_inflight s) (pending s)"
    and "s_inflight_spill s = drop (max_inflight s) (pending s)"
  using assms by (cases "s_inflight_spill s = []"; simp add: window_ok_def pending_def)+

lemma track_pending:
  assumes "window_ok s"
  shows "pending (snd (track_inflight_or_spill m s)) =
      (if length (pending s) < max_inflight s + max_spill s then pending s @ [m] else pending s)"
    and "window_ok (snd (track_inflight_or_spill m s))"
  using assms
  by (auto simp: track_inflight_or_spill_def window_ok_def pending_def max_inflight_def max_spill_def)

lemma ack_pending:
  assumes "window_ok s"
  shows "pending (snd (ack_inflight_timed pid s)) =
      (case remove_first (\<lambda>m. im_packet_id m = pid) (pending s) of Some (_, rest) \<Rightarrow> rest | None \<Rightarrow> pending s)"
      (is ?pending)
    and "fst (ack_inflight_timed pid s) = map_option fst (remove_first (\<lambda>m. im_packet_id m = pid) (pending s))"
      (is ?entry)
    and "window_ok (snd (ack_inflight_timed pid s))" (is ?window)
proof -
  let ?p = "\<lambda>m. im_packet_id m = pid"
  have "?pending \<and> ?entry \<and> ?window"
  proof (cases "remove_first ?p (s_inflight s)")
    case (Some er)
    obtain entry rest where r: "remove_first ?p (s_inflight s) = Some (entry, rest)" using Some by (cases er) simp
    note l = remove_first_length [OF r]
    show ?thesis
    proof (cases "s_inflight_spill s")
      case Nil
      with assms l show ?thesis
        by (simp add: ack_inflight_timed_def r pending_def remove_first_append window_ok_def max_inflight_def max_spill_def)
    next
      case (Cons x xs)
      with assms l show ?thesis
        by (simp add: ack_inflight_timed_def r pending_def remove_first_append window_ok_def max_inflight_def max_spill_def)
    qed
  next
    case None
    show ?thesis
    proof (cases "remove_first ?p (s_inflight_spill s)")
      case None': None
      with None assms show ?thesis by (simp add: ack_inflight_timed_def pending_def remove_first_append)
    next
      case (Some er)
      obtain entry rest where r: "remove_first ?p (s_inflight_spill s) = Some (entry, rest)" using Some by (cases er) simp
      from remove_first_length [OF r] have "s_inflight_spill s \<noteq> []" by auto
      with None assms r remove_first_length [OF r] show ?thesis
        by (simp add: ack_inflight_timed_def pending_def remove_first_append window_ok_def max_inflight_def max_spill_def)
    qed
  qed
  then show ?pending ?entry ?window by blast+
qed

lemma window_frame [simp]:
  "window_ok (s\<lparr>s_qos2_outbound := a\<rparr>) = window_ok s" "window_ok (s\<lparr>s_qos2_inbound := b\<rparr>) = window_ok s"
  "window_ok (s\<lparr>s_next_packet_id := c\<rparr>) = window_ok s" "window_ok (s\<lparr>s_inbound_aliases := d\<rparr>) = window_ok s"
  "window_ok (s\<lparr>s_outbound_aliases := e\<rparr>) = window_ok s" "window_ok (s\<lparr>s_authz_cache := f\<rparr>) = window_ok s"
  "window_ok (s\<lparr>s_inbound_alias_max := g\<rparr>) = window_ok s" "window_ok (s\<lparr>s_outbound_alias_max := h\<rparr>) = window_ok s"
  by (simp_all add: window_ok_def max_inflight_def max_spill_def)

lemma pending_frame [simp]:
  "pending (s\<lparr>s_qos2_outbound := a\<rparr>) = pending s" "pending (s\<lparr>s_qos2_inbound := b\<rparr>) = pending s"
  "pending (s\<lparr>s_next_packet_id := c\<rparr>) = pending s" "pending (s\<lparr>s_inbound_aliases := d\<rparr>) = pending s"
  "pending (s\<lparr>s_outbound_aliases := e\<rparr>) = pending s" "pending (s\<lparr>s_authz_cache := f\<rparr>) = pending s"
  "pending (s\<lparr>s_inbound_alias_max := g\<rparr>) = pending s" "pending (s\<lparr>s_outbound_alias_max := h\<rparr>) = pending s"
  by (simp_all add: pending_def)

lemma ids_frame [simp]:
  "ids_ok (s\<lparr>s_qos2_inbound := b\<rparr>) = ids_ok s" "ids_ok (s\<lparr>s_next_packet_id := c\<rparr>) = ids_ok s"
  "ids_ok (s\<lparr>s_inbound_aliases := d\<rparr>) = ids_ok s" "ids_ok (s\<lparr>s_outbound_aliases := e\<rparr>) = ids_ok s"
  "ids_ok (s\<lparr>s_authz_cache := f\<rparr>) = ids_ok s" "ids_ok (s\<lparr>s_inbound_alias_max := g\<rparr>) = ids_ok s"
  "ids_ok (s\<lparr>s_outbound_alias_max := h\<rparr>) = ids_ok s"
  by (simp_all add: ids_ok_def downlink_ids_def)

lemma mark_rec_ids: "map qo_packet_id (snd (mark_rec pid es)) = map qo_packet_id es"
  by (induction es) (auto simp: case_prod_unfold Let_def)

lemma outbound_track [simp]:
  "s_qos2_outbound (snd (track_inflight_or_spill m s)) = s_qos2_outbound s"
  "s_qos2_outbound (snd (ack_inflight_timed pid s)) = s_qos2_outbound s"
  by (simp_all add: track_inflight_or_spill_def ack_inflight_timed_def Let_def split: option.split list.split)

lemma remove_first_subseq:
  assumes "remove_first p xs = Some (y, ys)"
  shows "set ys \<subseteq> set xs" "distinct (map f xs) \<Longrightarrow> distinct (map f ys)"
proof -
  from remove_first_Some [OF assms] obtain us vs where x: "xs = us @ y # vs" "ys = us @ vs" by (elim exE conjE) (rule that)
  show "set ys \<subseteq> set xs" "distinct (map f xs) \<Longrightarrow> distinct (map f ys)" by (auto simp: x)
qed

lemma step_window:
  assumes "session_step s e s'" and "window_ok s" and "ids_ok s"
  shows "window_ok s' \<and> ids_ok s'"
  using assms
proof (induction rule: session_step.induct)
  case (deliver_qos1 s pid s1 m)
  from next_packet_id_result [OF deliver_qos1(1)]
  have s1: "pid \<noteq> 0" "\<not> packet_id_held pid s" "s1 = s\<lparr>s_next_packet_id := pid + 1\<rparr>" by simp_all
  have w: "window_ok (s\<lparr>s_next_packet_id := pid + 1\<rparr>)" using deliver_qos1(2) by simp
  have "pid \<notin> set (downlink_ids s)" using s1(2) packet_id_held_iff [OF deliver_qos1(2)] by simp
  with deliver_qos1(3) s1 show ?case
    by (auto simp: track_pending [OF w] ids_ok_def downlink_ids_def)
next
  case (deliver_qos2 s pid s1 e)
  from next_packet_id_result [OF deliver_qos2(1)]
  have s1: "pid \<noteq> 0" "\<not> packet_id_held pid s" "s1 = s\<lparr>s_next_packet_id := pid + 1\<rparr>" by simp_all
  have "pid \<notin> set (downlink_ids s)" using s1(2) packet_id_held_iff [OF deliver_qos2(2)] by simp
  with deliver_qos2(2,3) s1 show ?case
    by (auto simp: track_qos2_outbound_def ids_ok_def downlink_ids_def)
next
  case (puback s pid)
  show ?case
  proof (cases "remove_first (\<lambda>m. im_packet_id m = pid) (pending s)")
    case None
    with puback show ?thesis by (simp add: ack_pending [OF puback(1)] ids_ok_def downlink_ids_def)
  next
    case (Some er)
    obtain y ys where r: "remove_first (\<lambda>m. im_packet_id m = pid) (pending s) = Some (y, ys)" using Some by (cases er) simp
    with puback remove_first_subseq(1) [OF r] remove_first_subseq(2) [OF r, of im_packet_id] show ?thesis
      by (auto simp: ack_pending [OF puback(1)] ids_ok_def downlink_ids_def)
  qed
next
  case (pubrec s pid)
  then show ?case
    using mark_rec_ids [of pid "s_qos2_outbound s"]
    by (auto simp: complete_qos2_pubrec_def case_prod_unfold Let_def ids_ok_def downlink_ids_def dest: map_eq_imp_length_eq)
next
  case (pubcomp s pid)
  show ?case
  proof (cases "remove_first (\<lambda>m. qo_packet_id m = pid) (s_qos2_outbound s)")
    case None
    with pubcomp show ?thesis by (simp add: ack_qos2_pubcomp_def)
  next
    case (Some er)
    obtain y ys where r: "remove_first (\<lambda>m. qo_packet_id m = pid) (s_qos2_outbound s) = Some (y, ys)"
      using Some by (cases er) simp
    with pubcomp remove_first_subseq(1) [OF r] remove_first_length [OF r]
      remove_first_subseq(2) [OF r, of qo_packet_id]
    show ?thesis by (auto simp: ack_qos2_pubcomp_def ids_ok_def downlink_ids_def)
  qed
next
  case (drop_state s)
  then show ?case
    by (simp add: clear_qos2_outbound_def clear_qos2_inbound_def clear_inflight_def window_ok_def ids_ok_def
        downlink_ids_def pending_def)
qed (simp_all add: store_qos2_inbound_def take_qos2_inbound_def register_inbound_alias_def
    assign_outbound_alias_def set_outbound_alias_max_def set_inbound_alias_max_def record_authz_decision_def
    clear_aliases_def Let_def split: option.split)

definition created :: "u64 \<Rightarrow> u64 \<Rightarrow> string \<Rightarrow> bool \<Rightarrow> nat \<Rightarrow> nat \<Rightarrow> session" where
  "created now sid client_id clean_start window spill =
     set_max_spill spill (set_max_inflight window (session_new now sid client_id clean_start))"

lemma created_ok: "window_ok (created now sid c clean w sp)" "ids_ok (created now sid c clean w sp)"
  by (simp_all add: created_def set_max_spill_def set_max_inflight_def session_new_def window_ok_def ids_ok_def
      downlink_ids_def pending_def)

lemma steps_window:
  "session_steps s es s' \<Longrightarrow> window_ok s \<Longrightarrow> ids_ok s \<Longrightarrow> window_ok s' \<and> ids_ok s'"
  by (induction rule: session_steps.induct) (auto dest: step_window)

lemma remove_first_filter:
  "distinct (map f xs) \<Longrightarrow>
    (case remove_first (\<lambda>m. f m = k) xs of Some (_, rest) \<Rightarrow> rest | None \<Rightarrow> xs) = filter (\<lambda>m. f m \<noteq> k) xs"
proof (induction xs)
  case (Cons x xs)
  have "filter (\<lambda>m. f m \<noteq> f x) xs = xs" using Cons.prems by (intro filter_True) (force simp: image_iff)
  with Cons show ?case by (auto split: option.splits)
qed simp

lemma step_limits: "session_step s e s' \<Longrightarrow> max_inflight s' = max_inflight s \<and> max_spill s' = max_spill s"
  by (induction rule: session_step.induct)
    (auto simp: max_inflight_def max_spill_def track_inflight_or_spill_def track_qos2_outbound_def
      ack_inflight_timed_def complete_qos2_pubrec_def ack_qos2_pubcomp_def store_qos2_inbound_def
      take_qos2_inbound_def register_inbound_alias_def assign_outbound_alias_def set_outbound_alias_max_def
      set_inbound_alias_max_def record_authz_decision_def clear_aliases_def clear_qos2_outbound_def
      clear_qos2_inbound_def clear_inflight_def Let_def case_prod_unfold
      dest!: next_packet_id_result split: option.split list.split)

text \<open>
  C14. The window and the overflow buffer of a session are one bounded queue of unacknowledged
  QoS 1 deliveries, along every sequence of events: a delivery appends its message under a fresh
  identifier, unless window and buffer are full, when the queue stays as it is; an acknowledgement
  removes exactly the message with its identifier; no other event changes the queue, and the window
  always holds its oldest messages.
\<close>

theorem qos1_queue_refinement:
  assumes "session_steps (created now sid c clean w sp) es s" and "session_step s e s'"
  shows "s_inflight s' = take (max_inflight s) (pending s')
    \<and> s_inflight_spill s' = drop (max_inflight s) (pending s')
    \<and> (case e of
         Deliver_qos1 m \<Rightarrow>
           \<exists>pid. pid \<noteq> 0 \<and> pid \<notin> set (downlink_ids s) \<and>
             pending s' = (if length (pending s) < max_inflight s + max_spill s
                           then pending s @ [m\<lparr>im_packet_id := pid\<rparr>] else pending s)
       | Puback pid \<Rightarrow> pending s' = filter (\<lambda>m. im_packet_id m \<noteq> pid) (pending s)
       | Drop_state \<Rightarrow> pending s' = []
       | _ \<Rightarrow> pending s' = pending s)"
proof -
  have ok: "window_ok s" "ids_ok s" using steps_window [OF assms(1) created_ok] by simp_all
  have ok': "window_ok s'" using step_window [OF assms(2) ok] by simp
  note frame = store_qos2_inbound_def take_qos2_inbound_def register_inbound_alias_def complete_qos2_pubrec_def
    assign_outbound_alias_def set_outbound_alias_max_def set_inbound_alias_max_def record_authz_decision_def
    track_qos2_outbound_def ack_qos2_pubcomp_def clear_aliases_def
  have "case e of
         Deliver_qos1 m \<Rightarrow>
           \<exists>pid. pid \<noteq> 0 \<and> pid \<notin> set (downlink_ids s) \<and>
             pending s' = (if length (pending s) < max_inflight s + max_spill s
                           then pending s @ [m\<lparr>im_packet_id := pid\<rparr>] else pending s)
       | Puback pid \<Rightarrow> pending s' = filter (\<lambda>m. im_packet_id m \<noteq> pid) (pending s)
       | Drop_state \<Rightarrow> pending s' = []
       | _ \<Rightarrow> pending s' = pending s"
    using assms(2) ok
  proof (induction rule: session_step.induct)
    case (deliver_qos1 s pid s1 m)
    from next_packet_id_result [OF deliver_qos1(1)]
    have s1: "pid \<noteq> 0" "\<not> packet_id_held pid s" "s1 = s\<lparr>s_next_packet_id := pid + 1\<rparr>" by simp_all
    have w: "window_ok (s\<lparr>s_next_packet_id := pid + 1\<rparr>)" using deliver_qos1(2) by simp
    have "pid \<notin> set (downlink_ids s)" using s1(2) packet_id_held_iff [OF deliver_qos1(2)] by simp
    with s1 show ?case
      by (simp add: track_pending [OF w]) (auto simp: max_inflight_def max_spill_def)
  next
    case (puback s pid)
    then show ?case
      by (simp add: ack_pending remove_first_filter ids_ok_def downlink_ids_def)
  next
    case (drop_state s)
    then show ?case by (simp add: clear_qos2_outbound_def clear_qos2_inbound_def clear_inflight_def pending_def)
  next
    case (deliver_qos2 s pid s1 e)
    from next_packet_id_result [OF deliver_qos2(1)] show ?case by (simp add: track_qos2_outbound_def)
  qed (simp_all add: frame Let_def case_prod_unfold split: option.split)
  then show ?thesis using window_pending [OF ok'] step_limits [OF assms(2)] by simp
qed

section \<open>QoS 2 publishes\<close>

text \<open>Putting back what was just taken always succeeds: there is room for it.\<close>

lemma length_delete_less: "map_of xs k = Some v \<Longrightarrow> length (AList.delete k xs) < length xs"
  by (auto simp: AList.delete_eq dest!: map_of_SomeD intro!: length_filter_less)

lemma restore_taken:
  assumes "take_qos2_inbound pid s = (Some entry, s1)" and "length (s_qos2_inbound s) \<le> MAX_QOS2_INBOUND"
  shows "store_qos2_inbound pid entry s1 =
    (True, s\<lparr>s_qos2_inbound := AList.update pid entry (AList.delete pid (s_qos2_inbound s))\<rparr>)"
  using assms length_delete_less [of "s_qos2_inbound s" pid entry]
  by (auto simp: take_qos2_inbound_def store_qos2_inbound_def delete_conv')

lemma restored_entries:
  assumes "take_qos2_inbound pid s = (Some entry, s1)" and "length (s_qos2_inbound s) \<le> MAX_QOS2_INBOUND"
  shows "map_of (s_qos2_inbound (snd (store_qos2_inbound pid entry s1))) = map_of (s_qos2_inbound s)"
  using assms(1) unfolding restore_taken [OF assms] by (auto simp: take_qos2_inbound_def update_conv' delete_conv')

lemma restored_length:
  assumes "take_qos2_inbound pid s = (Some entry, s1)" and "length (s_qos2_inbound s) \<le> MAX_QOS2_INBOUND"
  shows "length (s_qos2_inbound (snd (store_qos2_inbound pid entry s1))) \<le> MAX_QOS2_INBOUND"
  using assms length_delete_less [of "s_qos2_inbound s" pid entry] unfolding restore_taken [OF assms]
  by (auto simp: take_qos2_inbound_def intro!: order_trans [OF length_update_le])

lemmas inbound_defs = track_inflight_or_spill_def track_qos2_outbound_def
  ack_inflight_timed_def complete_qos2_pubrec_def ack_qos2_pubcomp_def store_qos2_inbound_def
  take_qos2_inbound_def register_inbound_alias_def assign_outbound_alias_def set_outbound_alias_max_def
  set_inbound_alias_max_def record_authz_decision_def clear_aliases_def clear_qos2_outbound_def
  clear_qos2_inbound_def clear_inflight_def Let_def case_prod_unfold

lemma step_inbound:
  assumes "session_step s e s'" and "length (s_qos2_inbound s) \<le> MAX_QOS2_INBOUND"
  shows "e \<noteq> Pubrel pid \<Longrightarrow> e \<noteq> Drop_state \<Longrightarrow> map_of (s_qos2_inbound s) pid = Some x \<Longrightarrow>
      map_of (s_qos2_inbound s') pid = Some x"
    and "(\<And>x. e \<noteq> Publish_qos2 pid x) \<Longrightarrow> map_of (s_qos2_inbound s) pid = None \<Longrightarrow>
      map_of (s_qos2_inbound s') pid = None"
    and "length (s_qos2_inbound s') \<le> MAX_QOS2_INBOUND"
  using assms
proof (induction rule: session_step.induct)
  case (pubrel_withheld pid' s entry s1)
  {
    case 1
    with restored_entries [OF pubrel_withheld 1(4)] show ?case by simp
  next
    case 2
    with restored_entries [OF pubrel_withheld 2(3)] show ?case by simp
  next
    case 3
    then show ?case by (rule restored_length [OF pubrel_withheld])
  }
qed (auto simp: inbound_defs update_conv' delete_conv' dest!: next_packet_id_result
    intro: order_trans [OF length_delete_le] order_trans [OF length_update_le] split: option.splits list.splits)

lemma steps_inbound:
  assumes "session_steps s es s'" and "length (s_qos2_inbound s) \<le> MAX_QOS2_INBOUND"
  shows "Pubrel pid \<notin> set es \<Longrightarrow> Drop_state \<notin> set es \<Longrightarrow> map_of (s_qos2_inbound s) pid = Some x \<Longrightarrow>
      map_of (s_qos2_inbound s') pid = Some x"
    and "(\<And>x. Publish_qos2 pid x \<notin> set es) \<Longrightarrow> map_of (s_qos2_inbound s) pid = None \<Longrightarrow>
      map_of (s_qos2_inbound s') pid = None"
    and "length (s_qos2_inbound s') \<le> MAX_QOS2_INBOUND"
  using assms
proof (induction rule: session_steps.induct)
  case (step s e s1 es s2)
  {
    case 1
    then have "e \<noteq> Pubrel pid" "e \<noteq> Drop_state" by auto
    from step_inbound(1) [OF step(1) 1(4) this 1(3)] step_inbound(3) [OF step(1) 1(4)] 1
    show ?case by (intro step.IH(1)) auto
  next
    case 2
    from 2(1) have "e \<noteq> Publish_qos2 pid y" "Publish_qos2 pid y \<notin> set es" for y by auto
    from step_inbound(2) [OF step(1) 2(3) this(1) 2(2)] step_inbound(3) [OF step(1) 2(3)] this(2)
    show ?case by (intro step.IH(2))
  next
    case 3
    from step_inbound(3) [OF step(1) 3] show ?case by (rule step.IH(3))
  }
qed simp_all

text \<open>
  C16. A QoS 2 publish is handed over for good exactly once. After it was stored, and whatever
  repetitions of its PUBLISH and other events follow, its PUBREL takes the stored message. If its
  fan-out could not be made durable, the PUBREL is not answered and the message is put back, which
  always succeeds and leaves it to the repeated PUBREL, any number of times. Once a PUBREL keeps what
  it took, and until a new PUBLISH uses the identifier, a repeated PUBREL takes nothing.
\<close>

theorem qos2_exactly_once:
  assumes "store_qos2_inbound pid entry s = (True, s1)" and "session_steps s1 es s2"
    and "Pubrel pid \<notin> set es" and "Drop_state \<notin> set es"
    and "take_qos2_inbound pid s2 = (taken, s3)" and "session_steps s3 es' s4"
    and "\<And>x. Publish_qos2 pid x \<notin> set es'"
  shows "taken = Some entry \<and> fst (take_qos2_inbound pid s4) = None
    \<and> fst (store_qos2_inbound pid other s2) = False
    \<and> (\<exists>s5. store_qos2_inbound pid entry s3 = (True, s5) \<and> session_step s2 (Pubrel_withheld pid) s5
         \<and> fst (take_qos2_inbound pid s5) = Some entry)"
proof -
  have "map_of (s_qos2_inbound s1) pid = Some entry" and l1: "length (s_qos2_inbound s1) \<le> MAX_QOS2_INBOUND"
    using assms(1) by (auto simp: store_qos2_inbound_def update_conv' intro!: order_trans [OF length_update_le] split: if_splits)
  from steps_inbound(1) [OF assms(2) l1 assms(3,4) this(1)] have 2: "map_of (s_qos2_inbound s2) pid = Some entry" .
  have l2: "length (s_qos2_inbound s2) \<le> MAX_QOS2_INBOUND" by (rule steps_inbound(3) [OF assms(2) l1])
  have 3: "map_of (s_qos2_inbound s3) pid = None" and l3: "length (s_qos2_inbound s3) \<le> MAX_QOS2_INBOUND"
    using assms(5) l2 by (auto simp: take_qos2_inbound_def delete_conv' intro: order_trans [OF length_delete_le])
  have "map_of (s_qos2_inbound s4) pid = None" by (rule steps_inbound(2) [OF assms(6) l3 assms(7) 3])
  moreover have t: "taken = Some entry" using 2 assms(5) by (simp add: take_qos2_inbound_def)
  moreover have "fst (store_qos2_inbound pid other s2) = False" using 2 by (simp add: store_qos2_inbound_def)
  moreover note assms(5) [unfolded t]
  from restore_taken [OF this l2] restored_entries [OF this l2] session_step.pubrel_withheld [OF this] 2
  have "\<exists>s5. store_qos2_inbound pid entry s3 = (True, s5) \<and> session_step s2 (Pubrel_withheld pid) s5
         \<and> fst (take_qos2_inbound pid s5) = Some entry" by (simp add: take_qos2_inbound_def)
  ultimately show ?thesis by (simp add: take_qos2_inbound_def)
qed

section \<open>Tables\<close>

lemma find_slot_Some: "find_slot p i xs = Some k \<Longrightarrow> i \<le> k \<and> k < i + length xs \<and> p (xs ! (k - i))"
proof (induction xs arbitrary: i)
  case (Cons x xs)
  show ?case
  proof (cases "p x")
    case False
    with Cons have k: "Suc i \<le> k" "k < Suc i + length xs" "p (xs ! (k - Suc i))" by fastforce+
    then have "(x # xs) ! (k - i) = xs ! (k - Suc i)" by (simp add: nth_Cons')
    with k show ?thesis by simp
  qed (use Cons in simp)
qed simp

lemma find_slot_None: "find_slot p i xs = None \<longleftrightarrow> (\<forall>x\<in>set xs. \<not> p x)"
  by (induction xs arbitrary: i) auto

text \<open>Slot 0 of a table is never used: the search starts behind it.\<close>

lemma find_slot_table:
  "find_slot p (Suc 0) (drop (Suc 0) xs) = Some k \<Longrightarrow> 0 < k \<and> k < length xs \<and> p (xs ! k)"
  using find_slot_Some [of p "Suc 0" "drop (Suc 0) xs" k] by (cases xs) auto

lemma find_slot_table_None:
  assumes "find_slot p (Suc 0) (drop (Suc 0) xs) = None" and "0 < k" and "k < length xs"
  shows "\<not> p (xs ! k)"
proof -
  have "xs ! k = drop (Suc 0) xs ! (k - 1)" and "k - 1 < length (drop (Suc 0) xs)" using assms(2,3) by auto
  then have "xs ! k \<in> set (drop (Suc 0) xs)" by (metis nth_mem)
  with assms(1) show ?thesis by (simp add: find_slot_None)
qed

definition alias_ok :: "session \<Rightarrow> bool" where
  "alias_ok s \<longleftrightarrow>
     length (s_inbound_aliases s) \<in> {0, unat (s_inbound_alias_max s) + 1}
     \<and> length (s_outbound_aliases s) = (if s_outbound_alias_max s = 0 then 0 else unat (s_outbound_alias_max s) + 1)
     \<and> (\<forall>x\<in>set (take 1 (s_outbound_aliases s)). x = None)
     \<and> (\<forall>i < length (s_outbound_aliases s). \<forall>j < length (s_outbound_aliases s). \<forall>t.
          s_outbound_aliases s ! i = Some t \<and> s_outbound_aliases s ! j = Some t \<longrightarrow> i = j)"

definition tables_ok :: "session \<Rightarrow> bool" where
  "tables_ok s \<longleftrightarrow>
     distinct (map fst (s_qos2_inbound s)) \<and> length (s_qos2_inbound s) \<le> MAX_QOS2_INBOUND
     \<and> length (s_authz_cache s) \<le> MAX_AUTHZ_DECISIONS_PER_CLIENT"

lemma length_resize [simp]: "length (resize n xs) = n"
  by (simp add: resize_def)

lemma evict_past_length: "length (evict_past n xs) \<le> max n 0"
  by (induction xs) auto

lemma alias_frame [simp]:
  "alias_ok (s\<lparr>s_qos2_outbound := a\<rparr>) = alias_ok s" "alias_ok (s\<lparr>s_qos2_inbound := b\<rparr>) = alias_ok s"
  "alias_ok (s\<lparr>s_next_packet_id := c\<rparr>) = alias_ok s" "alias_ok (s\<lparr>s_authz_cache := f\<rparr>) = alias_ok s"
  "alias_ok (s\<lparr>s_inflight := d\<rparr>) = alias_ok s" "alias_ok (s\<lparr>s_inflight_spill := e\<rparr>) = alias_ok s"
  "alias_ok (s\<lparr>s_spill_count := g\<rparr>) = alias_ok s"
  by (simp_all add: alias_ok_def)

lemma assign_cases:
  assumes "alias_ok s" and "s_outbound_alias_max s \<noteq> 0"
  obtains (reused) i where "0 < i" "i < length (s_outbound_aliases s)" "s_outbound_aliases s ! i = Some t"
      "assign_outbound_alias t s = (Some (of_nat i), s)"
  | (claimed) i where "0 < i" "i < length (s_outbound_aliases s)" "s_outbound_aliases s ! i = None"
      "\<And>j. 0 < j \<Longrightarrow> j < length (s_outbound_aliases s) \<Longrightarrow> s_outbound_aliases s ! j \<noteq> Some t"
      "assign_outbound_alias t s = (Some (of_nat i), s\<lparr>s_outbound_aliases := (s_outbound_aliases s)[i := Some t]\<rparr>)"
  | (full) "assign_outbound_alias t s = (None, s)"
proof -
  let ?table = "s_outbound_aliases s"
  have len: "length ?table = unat (s_outbound_alias_max s) + 1" using assms by (simp add: alias_ok_def)
  have d: "assign_outbound_alias t s =
      (case find_slot (\<lambda>slot. slot = Some t) (Suc 0) (drop (Suc 0) ?table) of
          Some i \<Rightarrow> (Some (of_nat i), s)
        | None \<Rightarrow>
            (case find_slot (\<lambda>slot. slot = None) (Suc 0) (drop (Suc 0) ?table) of
               Some i \<Rightarrow> (Some (of_nat i), s\<lparr>s_outbound_aliases := ?table[i := Some t]\<rparr>)
             | None \<Rightarrow> (None, s)))"
    using assms(2) len by (simp add: assign_outbound_alias_def NO_TOPIC_ALIAS_def Let_def split: option.split)
  show ?thesis
  proof (cases "find_slot (\<lambda>slot. slot = Some t) (Suc 0) (drop (Suc 0) ?table)")
    case (Some i)
    with find_slot_table [OF Some] show ?thesis by (intro reused [of i]) (simp_all add: d)
  next
    case None
    show ?thesis
    proof (cases "find_slot (\<lambda>slot. slot = None) (Suc 0) (drop (Suc 0) ?table)")
      case (Some i)
      with None find_slot_table [OF Some] find_slot_table_None [OF None] show ?thesis
        by (intro claimed [of i]) (simp_all add: d)
    next
      case None': None
      with None show ?thesis by (intro full) (simp add: d)
    qed
  qed
qed

lemma slot_zero: "alias_ok s \<Longrightarrow> 0 < length (s_outbound_aliases s) \<Longrightarrow> s_outbound_aliases s ! 0 = None"
  by (cases "s_outbound_aliases s") (simp_all add: alias_ok_def)

lemma assign_alias_ok:
  assumes "alias_ok s"
  shows "alias_ok (snd (assign_outbound_alias t s))"
proof (cases "s_outbound_alias_max s = 0")
  case True
  with assms show ?thesis by (simp add: assign_outbound_alias_def NO_TOPIC_ALIAS_def Let_def)
next
  case False
  from assms False show ?thesis
  proof (cases rule: assign_cases [of s t, case_names reused claimed full])
    case (claimed i)
    let ?table = "s_outbound_aliases s"
    have other: "?table ! j \<noteq> Some t" if "j < length ?table" for j
      using claimed(4) [of j] slot_zero [OF assms] that by (cases "j = 0") auto
    have "i' = j'" if "i' < length ?table" "j' < length ?table"
      "?table[i := Some t] ! i' = Some u" "?table[i := Some t] ! j' = Some u" for i' j' u
      using that other [of i'] other [of j'] assms
      by (cases "i' = i"; cases "j' = i") (auto simp: alias_ok_def)
    moreover have "take 1 (?table[i := Some t]) = take 1 ?table" using claimed(1) by simp
    ultimately show ?thesis using assms claimed(5) by (simp add: alias_ok_def)
  qed (use assms in simp_all)
qed

lemma step_alias_ok:
  assumes "session_step s e s'" and "alias_ok s"
  shows "alias_ok s'"
  using assms
proof (induction rule: session_step.induct)
  case (deliver_qos1 s pid s1 m)
  from next_packet_id_result [OF deliver_qos1(1)] deliver_qos1(2) show ?case
    by (auto simp: track_inflight_or_spill_def)
next
  case (deliver_qos2 s pid s1 e)
  from next_packet_id_result [OF deliver_qos2(1)] deliver_qos2(2) show ?case
    by (auto simp: track_qos2_outbound_def)
next
  case (use_alias s a t)
  then show ?case by (auto simp: register_inbound_alias_def Let_def alias_ok_def)
next
  case (assign_alias s t)
  then show ?case by (rule assign_alias_ok)
next
  case (alias_maxima s i k)
  then show ?case
    by (auto simp: set_outbound_alias_max_def set_inbound_alias_max_def Let_def alias_ok_def resize_def)
next
  case (drop_aliases s)
  then show ?case by (auto simp: clear_aliases_def alias_ok_def dest: in_set_takeD simp flip: take_map)
qed (auto simp: ack_inflight_timed_def complete_qos2_pubrec_def ack_qos2_pubcomp_def store_qos2_inbound_def
    take_qos2_inbound_def record_authz_decision_def clear_qos2_outbound_def clear_qos2_inbound_def
    clear_inflight_def Let_def case_prod_unfold split: option.split list.split)

lemma tables_frame [simp]:
  "tables_ok (s\<lparr>s_qos2_outbound := a\<rparr>) = tables_ok s" "tables_ok (s\<lparr>s_next_packet_id := c\<rparr>) = tables_ok s"
  "tables_ok (s\<lparr>s_inflight := d\<rparr>) = tables_ok s" "tables_ok (s\<lparr>s_inflight_spill := e\<rparr>) = tables_ok s"
  "tables_ok (s\<lparr>s_spill_count := g\<rparr>) = tables_ok s" "tables_ok (s\<lparr>s_inbound_aliases := h\<rparr>) = tables_ok s"
  "tables_ok (s\<lparr>s_outbound_aliases := i\<rparr>) = tables_ok s" "tables_ok (s\<lparr>s_inbound_alias_max := j\<rparr>) = tables_ok s"
  "tables_ok (s\<lparr>s_outbound_alias_max := k\<rparr>) = tables_ok s"
  by (simp_all add: tables_ok_def)

lemma step_tables_ok:
  assumes "session_step s e s'" and "tables_ok s"
  shows "tables_ok s'"
  using assms
proof (induction rule: session_step.induct)
  case (deliver_qos1 s pid s1 m)
  from next_packet_id_result [OF deliver_qos1(1)] deliver_qos1(2) show ?case
    by (auto simp: track_inflight_or_spill_def)
next
  case (deliver_qos2 s pid s1 e)
  from next_packet_id_result [OF deliver_qos2(1)] deliver_qos2(2) show ?case
    by (auto simp: track_qos2_outbound_def)
next
  case (publish_qos2 s pid entry)
  then show ?case by (auto simp: store_qos2_inbound_def tables_ok_def distinct_update
        intro: order_trans [OF length_update_le])
next
  case (pubrel s pid)
  then show ?case
    by (auto simp: take_qos2_inbound_def tables_ok_def distinct_delete intro: order_trans [OF length_delete_le])
next
  case (pubrel_withheld pid s entry s1)
  then have "length (s_qos2_inbound s) \<le> MAX_QOS2_INBOUND" by (simp add: tables_ok_def)
  from restore_taken [OF pubrel_withheld(1) this] restored_length [OF pubrel_withheld(1) this] pubrel_withheld(2)
  show ?case by (auto simp: tables_ok_def distinct_update distinct_delete)
next
  case (decide s action topic qos retain allow now)
  then show ?case
    using evict_past_length [of MAX_AUTHZ_DECISIONS_PER_CLIENT]
    by (auto simp: record_authz_decision_def tables_ok_def Let_def)
next
  case (drop_state s)
  then show ?case by (simp add: clear_qos2_outbound_def clear_qos2_inbound_def clear_inflight_def tables_ok_def)
qed (auto simp: ack_inflight_timed_def complete_qos2_pubrec_def ack_qos2_pubcomp_def register_inbound_alias_def
    assign_outbound_alias_def set_outbound_alias_max_def set_inbound_alias_max_def clear_aliases_def
    Let_def case_prod_unfold split: option.split list.split)

lemma created_tables: "alias_ok (created now sid c clean w sp)" "tables_ok (created now sid c clean w sp)"
  by (simp_all add: created_def set_max_spill_def set_max_inflight_def session_new_def alias_ok_def tables_ok_def)

lemma steps_tables:
  "session_steps s es s' \<Longrightarrow> alias_ok s \<Longrightarrow> tables_ok s \<Longrightarrow> alias_ok s' \<and> tables_ok s'"
  by (induction rule: session_steps.induct) (auto dest: step_alias_ok step_tables_ok)

lemma steps_limits: "session_steps s es s' \<Longrightarrow> max_inflight s' = max_inflight s \<and> max_spill s' = max_spill s"
  by (induction rule: session_steps.induct) (auto dest: step_limits)

text \<open>
  C29. A session is well formed along every sequence of events: the window, its overflow buffer,
  both QoS 2 tables, both alias tables and the cache of decisions stay within their bounds, the
  lock-free counter agrees with the overflow buffer, and the identifiers of all unacknowledged
  deliveries, QoS 1 and QoS 2 together, are distinct and not zero.
\<close>

theorem session_well_formed:
  assumes "session_steps (created now sid c clean w sp) es s"
  shows "length (s_inflight s) \<le> max w 1 \<and> length (s_inflight_spill s) \<le> max sp 1
    \<and> s_spill_count s = length (s_inflight_spill s)
    \<and> length (s_qos2_inbound s) \<le> MAX_QOS2_INBOUND \<and> distinct (map fst (s_qos2_inbound s))
    \<and> length (s_qos2_outbound s) \<le> MAX_QOS2_INFLIGHT
    \<and> length (s_inbound_aliases s) \<le> unat (s_inbound_alias_max s) + 1
    \<and> length (s_outbound_aliases s) \<le> unat (s_outbound_alias_max s) + 1
    \<and> length (s_authz_cache s) \<le> MAX_AUTHZ_DECISIONS_PER_CLIENT
    \<and> distinct (downlink_ids s) \<and> 0 \<notin> set (downlink_ids s)"
proof -
  have "max_inflight s = max w 1" "max_spill s = max sp 1"
    using steps_limits [OF assms]
    by (simp_all add: created_def max_inflight_def max_spill_def set_max_spill_def set_max_inflight_def)
  moreover have "window_ok s" "ids_ok s" using steps_window [OF assms created_ok] by simp_all
  moreover have "alias_ok s" "tables_ok s" using steps_tables [OF assms created_tables] by simp_all
  ultimately show ?thesis by (auto simp: window_ok_def ids_ok_def alias_ok_def tables_ok_def)
qed

lemma alias_in_range_bounds: "alias_in_range a m \<Longrightarrow> 0 < unat a \<and> unat a \<le> unat m"
  by (auto simp: alias_in_range_def NO_TOPIC_ALIAS_def word_le_nat_alt unat_gt_0)

lemma topic_as_str_inject: "topic_as_str t = topic_as_str u \<longleftrightarrow> t = u"
  by (cases t; cases u) simp

lemma outbound_alias_for_iff:
  assumes "alias_ok s"
  shows "outbound_alias_for (topic_as_str t) s = Some a \<longleftrightarrow>
    a \<noteq> 0 \<and> unat a < length (s_outbound_aliases s) \<and> s_outbound_aliases s ! unat a = Some t"
proof (cases "s_outbound_alias_max s = 0")
  case True
  with assms show ?thesis by (simp add: outbound_alias_for_def NO_TOPIC_ALIAS_def alias_ok_def)
next
  case False
  let ?table = "s_outbound_aliases s"
  let ?p = "\<lambda>slot. case slot of Some u \<Rightarrow> topic_as_str u = topic_as_str t | None \<Rightarrow> False"
  have len: "length ?table = unat (s_outbound_alias_max s) + 1" using assms False by (simp add: alias_ok_def)
  have small: "length ?table \<le> 65536" using unat_bounds(2) [of "s_outbound_alias_max s"] len by simp
  have p: "?p slot \<longleftrightarrow> slot = Some t" for slot by (auto simp: topic_as_str_inject split: option.split)
  have d: "outbound_alias_for (topic_as_str t) s = map_option of_nat (find_slot ?p (Suc 0) (drop (Suc 0) ?table))"
    using False len by (simp add: outbound_alias_for_def NO_TOPIC_ALIAS_def Let_def)
  show ?thesis
  proof (cases "find_slot ?p (Suc 0) (drop (Suc 0) ?table)")
    case None
    have "?table ! unat a \<noteq> Some t" if "a \<noteq> 0" "unat a < length ?table"
      using find_slot_table_None [OF None, of "unat a"] that p by (simp add: unat_gt_0)
    with None show ?thesis by (auto simp: d)
  next
    case (Some i)
    from find_slot_table [OF this] have i: "0 < i" "i < length ?table" "?table ! i = Some t" by (simp_all add: p)
    have u: "unat (of_nat i :: u16) = i" using i(2) small by (simp add: unat_of_nat)
    have uniq: "unat a = i" if "unat a < length ?table" "?table ! unat a = Some t"
      using that i assms by (auto simp: alias_ok_def)
    show ?thesis
    proof
      assume "outbound_alias_for (topic_as_str t) s = Some a"
      then have "a = of_nat i" by (simp add: d Some)
      with i u show "a \<noteq> 0 \<and> unat a < length ?table \<and> ?table ! unat a = Some t" by (auto simp flip: unat_eq_0)
    next
      assume "a \<noteq> 0 \<and> unat a < length ?table \<and> ?table ! unat a = Some t"
      then have "of_nat i = a" using uniq by (metis of_nat_unat ucast_id)
      then show "outbound_alias_for (topic_as_str t) s = Some a" by (simp add: d Some)
    qed
  qed
qed

lemma register_resolves:
  assumes "alias_ok s" and "register_inbound_alias a t s = (Ok (), s')"
  shows "resolve_inbound_alias a s' = Some t"
    and "b \<noteq> a \<Longrightarrow> resolve_inbound_alias b s' = resolve_inbound_alias b s"
proof -
  define want where "want = unat (s_inbound_alias_max s) + 1"
  define table where "table = (if length (s_inbound_aliases s) \<noteq> want then resize want (s_inbound_aliases s) else s_inbound_aliases s)"
  have a: "a \<noteq> NO_TOPIC_ALIAS" "alias_in_range a (s_inbound_alias_max s)"
    and s': "s' = s\<lparr>s_inbound_aliases := table[unat a := Some t]\<rparr>"
    using assms(2) by (auto simp: register_inbound_alias_def Let_def table_def want_def split: if_splits)
  have len: "length table = want" by (simp add: table_def)
  have bound: "unat b < want" if "alias_in_range b (s_inbound_alias_max s)" for b
    using alias_in_range_bounds [OF that] by (simp add: want_def)
  show "resolve_inbound_alias a s' = Some t"
    using a bound [OF a(2)] len by (simp add: resolve_inbound_alias_def s')
  have same: "(if unat b < length (s_inbound_aliases s) then s_inbound_aliases s ! unat b else None) = table ! unat b"
    if "unat b < want"
  proof -
    have "s_inbound_aliases s = [] \<or> length (s_inbound_aliases s) = want"
      using assms(1) by (auto simp: alias_ok_def want_def)
    with that show ?thesis by (auto simp: table_def resize_def)
  qed
  assume "b \<noteq> a"
  then have "unat b \<noteq> unat a" by (metis word_unat_eq_iff)
  then show "resolve_inbound_alias b s' = resolve_inbound_alias b s"
    using bound [of b] same len by (simp add: resolve_inbound_alias_def s')
qed

lemma assign_found:
  assumes "alias_ok s" and "assign_outbound_alias t s = (Some k, s')"
  shows "0 < k \<and> k \<le> s_outbound_alias_max s \<and> outbound_alias_for (topic_as_str t) s' = Some k"
    and "u \<noteq> t \<Longrightarrow> outbound_alias_for (topic_as_str u) s' = outbound_alias_for (topic_as_str u) s
      \<and> outbound_alias_for (topic_as_str u) s' \<noteq> Some k"
proof -
  let ?table = "s_outbound_aliases s"
  have nz: "s_outbound_alias_max s \<noteq> 0" using assms(2) by (auto simp: assign_outbound_alias_def NO_TOPIC_ALIAS_def)
  have ok': "alias_ok s'" using assign_alias_ok [OF assms(1), of t] assms(2) by simp
  have len: "length ?table = unat (s_outbound_alias_max s) + 1" using assms(1) nz by (simp add: alias_ok_def)
  obtain i where i: "0 < i" "i < length ?table" "k = of_nat i" "?table ! i = Some t \<or> ?table ! i = None"
    and s': "s_outbound_aliases s' = ?table[i := Some t]"
    using assms(1) nz
  proof (cases rule: assign_cases [of s t, case_names reused claimed full])
    case (reused i)
    with assms(2) that [of i] show ?thesis by (metis list_update_id fst_conv snd_conv option.inject)
  next
    case (claimed i)
    with assms(2) that [of i] show ?thesis by auto
  qed (use assms(2) in simp)
  have u: "unat k = i" using i(2,3) len unat_bounds(2) [of "s_outbound_alias_max s"] by (simp add: unat_of_nat)
  have k: "k \<noteq> 0" using u i(1) by auto
  have "outbound_alias_for (topic_as_str t) s' = Some k"
    unfolding outbound_alias_for_iff [OF ok'] using k u i(2) by (simp add: s')
  moreover have "k \<le> s_outbound_alias_max s" using u i(2) len by (simp add: word_le_nat_alt)
  ultimately show "0 < k \<and> k \<le> s_outbound_alias_max s \<and> outbound_alias_for (topic_as_str t) s' = Some k"
    using k by (simp add: word_neq_0_conv)
  assume ne: "u \<noteq> t"
  have "outbound_alias_for (topic_as_str u) s' = Some b \<longleftrightarrow> outbound_alias_for (topic_as_str u) s = Some b" for b
    unfolding outbound_alias_for_iff [OF ok'] outbound_alias_for_iff [OF assms(1)]
    using i(4) ne by (cases "unat b = i") (auto simp: s')
  then have "outbound_alias_for (topic_as_str u) s' = outbound_alias_for (topic_as_str u) s"
    by (metis not_None_eq)
  moreover have "outbound_alias_for (topic_as_str u) s' \<noteq> Some k"
    unfolding outbound_alias_for_iff [OF ok'] using ne u i(2) by (simp add: s')
  ultimately show "outbound_alias_for (topic_as_str u) s' = outbound_alias_for (topic_as_str u) s
      \<and> outbound_alias_for (topic_as_str u) s' \<noteq> Some k" by simp
qed

text \<open>
  C30. The alias tables of a session are consistent along every sequence of events. An alias that a
  client registers resolves to its topic and no other alias changes. An alias that the broker
  assigns is between one and the maximum of the client, is found again for its topic, belongs to no
  other topic, and leaves the aliases of all other topics as they were.
\<close>

theorem aliases_consistent:
  assumes "session_steps (created now sid c clean w sp) es s"
  shows "(register_inbound_alias a t s = (Ok (), s') \<longrightarrow>
      resolve_inbound_alias a s' = Some t \<and> (\<forall>b. b \<noteq> a \<longrightarrow> resolve_inbound_alias b s' = resolve_inbound_alias b s))
    \<and> (assign_outbound_alias t s = (Some k, s'') \<longrightarrow>
      0 < k \<and> k \<le> s_outbound_alias_max s \<and> outbound_alias_for (topic_as_str t) s'' = Some k
      \<and> (\<forall>u. u \<noteq> t \<longrightarrow> outbound_alias_for (topic_as_str u) s'' = outbound_alias_for (topic_as_str u) s
           \<and> outbound_alias_for (topic_as_str u) s'' \<noteq> Some k))"
proof -
  have ok: "alias_ok s" using steps_tables [OF assms created_tables] by simp
  show ?thesis using register_resolves [OF ok] assign_found [OF ok] by blast
qed

section \<open>Concrete sessions\<close>

definition demo_inflight :: inflight_message where
  "demo_inflight = \<lparr>im_packet_id = 0, im_topic = Topic ''a'', im_qos = AtLeastOnce, im_retain = False,
     im_payload = [1], im_enqueued_at = 0\<rparr>"

lemma created_fields [simp]:
  "s_next_packet_id (created now sid c clean w sp) = 1" "s_inflight (created now sid c clean w sp) = []"
  "s_inflight_spill (created now sid c clean w sp) = []" "s_qos2_outbound (created now sid c clean w sp) = []"
  "s_qos2_inbound (created now sid c clean w sp) = []" "pending (created now sid c clean w sp) = []"
  "max_inflight (created now sid c clean w sp) = max w 1" "max_spill (created now sid c clean w sp) = max sp 1"
  by (simp_all add: created_def set_max_spill_def set_max_inflight_def session_new_def pending_def max_inflight_def
      max_spill_def)

lemma created_next_id:
  "next_packet_id (created now sid c clean w sp) =
     Some (1, (created now sid c clean w sp)\<lparr>s_next_packet_id := 2\<rparr>)"
  by (subst next_packet_id_step) (simp add: packet_id_held_def)

theorem next_packet_id_terminates_witness:
  "next_packet_id (created 0 1 ''x'' True 2 2) \<noteq> None"
proof -
  have "inflight_total_len (created 0 1 ''x'' True 2 2) + length (s_qos2_outbound (created 0 1 ''x'' True 2 2)) < 65535"
    by (simp add: inflight_total_len_def)
  with next_packet_id_terminates [of "created 0 1 ''x'' True 2 2"] show ?thesis by blast
qed

theorem qos1_queue_refinement_witness:
  "\<exists>pid s'. session_step (created 0 1 ''x'' True 2 2) (Deliver_qos1 demo_inflight) s'
     \<and> pid \<noteq> 0 \<and> s_inflight s' = [demo_inflight\<lparr>im_packet_id := pid\<rparr>] \<and> s_inflight_spill s' = []"
proof -
  let ?s = "created 0 1 ''x'' True 2 2"
  obtain s' where st: "session_step ?s (Deliver_qos1 demo_inflight) s'"
    using session_step.deliver_qos1 [OF created_next_id] by blast
  obtain pid where "pid \<noteq> 0" "s_inflight s' = [demo_inflight\<lparr>im_packet_id := pid\<rparr>]" "s_inflight_spill s' = []"
    using qos1_queue_refinement [OF session_steps.none st] by auto
  with st show ?thesis by (intro exI [of _ pid] exI [of _ s'] conjI)
qed

theorem qos2_exactly_once_witness:
  "let e = \<lparr>qi_topic = Topic ''a'', qi_retain = False, qi_payload = [1]\<rparr>;
       s1 = snd (store_qos2_inbound 5 e (created 0 1 ''x'' True 2 2));
       s2 = snd (store_qos2_inbound 5 (e\<lparr>qi_payload := [2]\<rparr>) s1);
       (taken, s3) = take_qos2_inbound 5 s2 in
   taken = Some e \<and> fst (take_qos2_inbound 5 (snd (take_qos2_inbound 6 s3))) = None
   \<and> fst (take_qos2_inbound 5 (snd (store_qos2_inbound 5 e s3))) = Some e"
proof -
  define e where "e = \<lparr>qi_topic = Topic ''a'', qi_retain = False, qi_payload = [1 :: u8]\<rparr>"
  define s1 where "s1 = snd (store_qos2_inbound 5 e (created 0 1 ''x'' True 2 2))"
  define s2 where "s2 = snd (store_qos2_inbound 5 (e\<lparr>qi_payload := [2]\<rparr>) s1)"
  obtain taken s3 where t: "take_qos2_inbound 5 s2 = (taken, s3)" by fastforce
  have a: "store_qos2_inbound 5 e (created 0 1 ''x'' True 2 2) = (True, s1)"
    by (simp add: s1_def store_qos2_inbound_def MAX_QOS2_INBOUND_def)
  have b: "session_steps s1 [Publish_qos2 5 (e\<lparr>qi_payload := [2]\<rparr>)] s2"
    unfolding s2_def by (rule session_steps.step [OF session_step.publish_qos2 session_steps.none])
  have c: "session_steps s3 [Pubrel 6] (snd (take_qos2_inbound 6 s3))"
    by (rule session_steps.step [OF session_step.pubrel session_steps.none])
  from qos2_exactly_once [OF a b _ _ t c, of e]
  show ?thesis unfolding Let_def e_def [symmetric] s1_def [symmetric] s2_def [symmetric] t prod.case by auto
qed

theorem session_well_formed_witness:
  "\<exists>s. session_steps (created 0 1 ''x'' True 2 2) [Deliver_qos1 demo_inflight, Puback 7] s
     \<and> length (s_inflight s) \<le> 2 \<and> distinct (downlink_ids s) \<and> 0 \<notin> set (downlink_ids s)"
proof -
  obtain s where st: "session_steps (created 0 1 ''x'' True 2 2) [Deliver_qos1 demo_inflight, Puback 7] s"
    using session_steps.step [OF session_step.deliver_qos1 [OF created_next_id]
        session_steps.step [OF session_step.puback session_steps.none]] by blast
  from session_well_formed [OF st] st show ?thesis by (intro exI [of _ s]) simp
qed

theorem aliases_consistent_witness:
  "\<exists>s'. register_inbound_alias 3 (Topic ''t'') (created 0 1 ''x'' True 2 2) = (Ok (), s')
     \<and> resolve_inbound_alias 3 s' = Some (Topic ''t'')"
proof -
  let ?s = "created 0 1 ''x'' True 2 2"
  have m: "s_inbound_alias_max ?s = 10"
    by (simp add: created_def set_max_spill_def set_max_inflight_def session_new_def DEFAULT_TOPIC_ALIAS_MAXIMUM_def)
  obtain s' where r: "register_inbound_alias 3 (Topic ''t'') ?s = (Ok (), s')"
    by (simp add: register_inbound_alias_def m NO_TOPIC_ALIAS_def alias_in_range_def Let_def)
  with aliases_consistent [OF session_steps.none [of ?s], of 3 "Topic ''t''" s'] show ?thesis by blast
qed

end
