(* ===== verification/Session_Offline.thy ===== *)
theory Session_Offline
  imports Session "HOL-Library.Sublist"
begin

text \<open>
  The offline queue of a session and its file. The histories of a queue, with all outcomes of the
  system calls but an append that breaks off inside a record, keep every queued message in the file,
  and keep the file equal to the queue unless a write failed. The queue after a restart is the
  queue before it, and a reconnect replay that is cut short leaves its messages in the file unless a
  message was evicted in between. The proofs rest on the contract \<open>queue_store\<close> of the store.
\<close>

section \<open>The bounded queue\<close>

lemma make_room_drop: "1 \<le> limit \<Longrightarrow> make_room limit q = (length q + 1 - limit, drop (length q + 1 - limit) q)"
proof (induction q)
  case (Cons x q)
  then show ?case by (cases "limit \<le> length (x # q)") (auto simp: Suc_diff_le)
qed simp

definition overflow :: "nat option \<Rightarrow> 'a list \<Rightarrow> nat" where
  "overflow limit q = (case limit of Some n \<Rightarrow> length q + 1 - max n 1 | None \<Rightarrow> 0)"

lemma make_room_opt_drop: "make_room_opt limit q = (overflow limit q, drop (overflow limit q) q)"
  by (simp add: make_room_opt_def overflow_def make_room_drop split: option.split)

lemma overflow_le: "overflow limit q \<le> length q"
  by (auto simp: overflow_def split: option.split)

lemma overflow_map [simp]: "overflow limit (map f q) = overflow limit q"
  by (simp add: overflow_def split: option.split)

definition stamped :: "u64 \<Rightarrow> queued_message \<Rightarrow> queued_message" where
  "stamped now m = (if qm_publish_at_ms m = None then m\<lparr>qm_publish_at_ms := Some now\<rparr> else m)"

text \<open>The file of a session, read as a queue that may be ahead of the memory queue.\<close>

definition session_key_ok :: "session \<Rightarrow> bool" where
  "session_key_ok s \<longleftrightarrow> s_durable s \<and> queue_id_ok (offline_tenant s) (s_client_id s)"

definition file_holds :: "session \<Rightarrow> offline_store \<Rightarrow> queued_message list \<Rightarrow> bool" where
  "file_holds s st q \<longleftrightarrow>
     whole_file st (offline_tenant s) (s_client_id s)
     \<and> queue_of st (offline_tenant s) (s_client_id s) = map to_record q"

lemma offline_frame [simp]:
  "offline_tenant (s\<lparr>s_offline_queue := q\<rparr>) = offline_tenant s"
  "file_holds (s\<lparr>s_offline_queue := q\<rparr>) st r = file_holds s st r"
  "session_key_ok (s\<lparr>s_offline_queue := q\<rparr>) = session_key_ok s"
  by (simp_all add: offline_tenant_def file_holds_def session_key_ok_def)

lemma push_queued:
  assumes "session_key_ok s"
    and "push_offline_with_limit now aio rio m limit s st = (True, s', st')"
  obtains st1 where
    "append_in_tenant aio (offline_tenant s) (s_client_id s) (to_record (stamped now m)) st = (Ok (), st1)"
    "s' = s\<lparr>s_offline_queue := drop (overflow limit (s_offline_queue s)) (s_offline_queue s) @ [stamped now m]\<rparr>"
    "if overflow limit (s_offline_queue s) = 0 then st' = st1
     else rewrite_in_tenant (fst rio) (fst (snd rio)) (snd (snd rio)) (offline_tenant s) (s_client_id s)
            (map to_record (s_offline_queue s')) st1 = (Ok (), st')"
proof -
  let ?k = "overflow limit (s_offline_queue s)"
  define m' where "m' = stamped now m"
  have stamp: "(if qm_publish_at_ms m = None then m\<lparr>qm_publish_at_ms := Some now\<rparr> else m) = m'"
    by (simp add: m'_def stamped_def)
  obtain res st1 where a: "append_in_tenant aio (offline_tenant s) (s_client_id s) (to_record m') st = (res, st1)"
    by fastforce
  have "s_durable s" using assms(1) by (simp add: session_key_ok_def)
  note d = assms(2) [unfolded push_offline_with_limit_def Let_def stamp make_room_opt_drop prod.case]
  show ?thesis
  proof (cases res)
    case (Inl e)
    with d \<open>s_durable s\<close> a show ?thesis by simp
  next
    case (Inr u)
    define q where "q = drop ?k (s_offline_queue s) @ [m']"
    note d' = d [unfolded a prod.case Inr sum.case, folded q_def]
    show ?thesis
    proof (cases "?k = 0")
      case True
      with d' \<open>s_durable s\<close> a Inr show ?thesis by (intro that [of st1]) (auto simp: m'_def q_def)
    next
      case False
      obtain io unl pid where rio: "rio = (io, unl, pid)" by (cases rio)
      obtain res2 st2 where rw: "rewrite_in_tenant io unl pid (offline_tenant s) (s_client_id s) (map to_record q) st1 = (res2, st2)"
        by fastforce
      with d' \<open>s_durable s\<close> False have "res2 = Inr ()" "s' = s\<lparr>s_offline_queue := q\<rparr>" "st' = st2"
        by (auto simp: rio split: sum.splits)
      with rw False a Inr show ?thesis by (intro that [of st1]) (simp_all add: m'_def q_def rio)
    qed
  qed
qed

text \<open>All branches of a push.\<close>

lemma push_cases:
  assumes p: "push_offline_with_limit now aio rio msg limit s st = (queued, s', st')"
  defines "k \<equiv> overflow limit (s_offline_queue s)"
  defines "s1 \<equiv> s\<lparr>s_offline_queue := drop k (s_offline_queue s) @ [stamped now msg]\<rparr>"
  obtains (memory) "\<not> s_durable s" "queued" "s' = s1" "st' = st"
  | (refused) e where "s_durable s" "\<not> queued" "s' = s"
      "append_in_tenant aio (offline_tenant s) (s_client_id s) (to_record (stamped now msg)) st = (Err e, st')"
  | (appended) "s_durable s" "queued" "s' = s1"
      "append_in_tenant aio (offline_tenant s) (s_client_id s) (to_record (stamped now msg)) st = (Ok (), st')" "k = 0"
  | (rewritten) st1 res where "s_durable s" "queued \<longleftrightarrow> \<not> isl res" "s' = s1"
      "append_in_tenant aio (offline_tenant s) (s_client_id s) (to_record (stamped now msg)) st = (Ok (), st1)"
      "rewrite_in_tenant (fst rio) (fst (snd rio)) (snd (snd rio)) (offline_tenant s) (s_client_id s)
         (map to_record (s_offline_queue s1)) st1 = (res, st')" "k \<noteq> 0"
proof -
  define msg' where "msg' = stamped now msg"
  have stamp: "(if qm_publish_at_ms msg = None then msg\<lparr>qm_publish_at_ms := Some now\<rparr> else msg) = msg'"
    by (simp add: msg'_def stamped_def)
  obtain io u pid where rio: "rio = (io, u, pid)" by (cases rio)
  obtain res st1 where a: "append_in_tenant aio (offline_tenant s) (s_client_id s) (to_record msg') st = (res, st1)"
    by fastforce
  obtain res2 st2 where r: "rewrite_in_tenant io u pid (offline_tenant s) (s_client_id s)
      (map to_record (s_offline_queue s1)) st1 = (res2, st2)" by fastforce
  note d = p [unfolded push_offline_with_limit_def Let_def stamp make_room_opt_drop prod.case,
      folded k_def, folded msg'_def]
  have s1: "s1 = s\<lparr>s_offline_queue := drop k (s_offline_queue s) @ [msg']\<rparr>" by (simp add: s1_def msg'_def)
  show ?thesis
  proof (cases "s_durable s")
    case True
    show ?thesis
    proof (cases res)
      case (Inl e)
      with d a True show ?thesis by (intro refused) (simp_all add: msg'_def)
    next
      case (Inr v)
      show ?thesis
      proof (cases "k = 0")
        case True
        with d a Inr \<open>s_durable s\<close> show ?thesis by (intro appended) (simp_all add: msg'_def s1)
      next
        case False
        with d a Inr r \<open>s_durable s\<close> have "queued = (\<not> isl res2) \<and> s' = s1 \<and> st' = st2"
          by (simp add: rio s1 [symmetric] split: sum.splits)
        with r a Inr False \<open>s_durable s\<close> show ?thesis
          by (intro rewritten [of res2 st1]) (simp_all add: rio msg'_def)
      qed
    qed
  next
    case False
    with d show ?thesis by (intro memory) (simp_all add: s1)
  qed
qed

lemma push_keeps:
  assumes "push_offline_with_limit now aio rio msg limit s st = (queued, s', st')"
  shows "\<exists>q. s' = s\<lparr>s_offline_queue := q\<rparr>"
  by (rule push_cases [OF assms]) (auto intro: exI [of _ "s_offline_queue s"])

section \<open>Buffering\<close>

text \<open>The contract of the store at the key of a session.\<close>

lemma store_bounded_push:
  assumes "queue_id_ok t c" and "record_ok r" and "whole_file st t c"
    and "append_in_tenant aio t c r st = (Ok (), st1)" and "n \<le> length (queue_of st t c)"
    and "if n = 0 then st2 = st1
         else rewrite_in_tenant (fst rio) (fst (snd rio)) (snd (snd rio)) t c (drop n (queue_of st t c @ [r])) st1 = (Ok (), st2)"
  shows "queue_of st2 t c = drop n (queue_of st t c @ [r]) \<and> whole_file st2 t c"
proof (cases rio)
  case (fields io unl pid)
  from qs.bounded_push [of "(t, c)" r st aio "()" st1 n st2 "(io, unl, pid)" "()"] assms
  show ?thesis by (simp only: fields prod.case fst_conv snd_conv)
qed

lemma store_other_queue:
  assumes "queue_id_ok t c" and "queue_id_ok t' c'" and "(t', c') \<noteq> (t, c)"
  shows "append_in_tenant aio t c r st = (res, st1) \<Longrightarrow> queue_of st1 t' c' = queue_of st t' c'"
    and "rewrite_in_tenant io unl pid t c rs st = (res', st2) \<Longrightarrow> queue_of st2 t' c' = queue_of st t' c'"
  using qs.append_frame [of "(t, c)" "(t', c')" aio r st res st1]
    qs.rewrite_frame [of "(t, c)" "(t', c')" "(io, unl, pid)" rs st res' st2] assms
  by simp_all

lemma push_file_ahead:
  assumes "session_key_ok s" and "record_ok (to_record (stamped now m))"
    and "push_offline_with_limit now aio rio m limit s st = (True, s', st')"
    and "file_holds s st (taken @ s_offline_queue s)"
    and "taken = [] \<or> overflow limit (s_offline_queue s) = 0"
  shows "file_holds s' st' (taken @ s_offline_queue s') \<and> session_key_ok s'
    \<and> s_offline_queue s' = drop (overflow limit (s_offline_queue s)) (s_offline_queue s) @ [stamped now m]"
proof -
  let ?t = "offline_tenant s" and ?c = "s_client_id s" and ?k = "overflow limit (s_offline_queue s)"
  obtain st1 where p:
    "append_in_tenant aio ?t ?c (to_record (stamped now m)) st = (Ok (), st1)"
    "s' = s\<lparr>s_offline_queue := drop ?k (s_offline_queue s) @ [stamped now m]\<rparr>"
    "if ?k = 0 then st' = st1
     else rewrite_in_tenant (fst rio) (fst (snd rio)) (snd (snd rio)) ?t ?c
            (map to_record (s_offline_queue s')) st1 = (Ok (), st')"
    by (rule push_queued [OF assms(1,3)])
  have id: "queue_id_ok ?t ?c" and q: "whole_file st ?t ?c" "queue_of st ?t ?c = map to_record (taken @ s_offline_queue s)"
    using assms(1,4) by (simp_all add: session_key_ok_def file_holds_def)
  have k: "?k \<le> length (queue_of st ?t ?c)" using overflow_le [of limit "s_offline_queue s"] q(2) by simp
  have d: "drop ?k (queue_of st ?t ?c @ [to_record (stamped now m)]) = map to_record (taken @ s_offline_queue s')"
    using assms(5) overflow_le [of limit "s_offline_queue s"] by (auto simp: q(2) p(2) drop_map)
  have "map to_record (s_offline_queue s') = map to_record (taken @ s_offline_queue s')" if "?k \<noteq> 0"
    using assms(5) that by simp
  then have rw: "if ?k = 0 then st' = st1
     else rewrite_in_tenant (fst rio) (fst (snd rio)) (snd (snd rio)) ?t ?c
            (drop ?k (queue_of st ?t ?c @ [to_record (stamped now m)])) st1 = (Ok (), st')"
    unfolding d using p(3) by auto
  have "queue_of st' ?t ?c = map to_record (taken @ s_offline_queue s') \<and> whole_file st' ?t ?c"
    using store_bounded_push [OF id assms(2) q(1) p(1) k rw] unfolding d .
  then show ?thesis using assms(1) by (simp add: p(2) file_holds_def)
qed

lemma push_other_queue:
  assumes "session_key_ok s" and "queue_id_ok t c" and "(t, c) \<noteq> (offline_tenant s, s_client_id s)"
    and "push_offline_with_limit now aio rio m limit s st = (queued, s', st')"
  shows "queue_of st' t c = queue_of st t c"
proof -
  define T C where "T = offline_tenant s" and "C = s_client_id s"
  have key: "queue_id_ok T C" "s_durable s" using assms(1) by (simp_all add: session_key_ok_def T_def C_def)
  have ne: "(t, c) \<noteq> (T, C)" using assms(3) by (simp add: T_def C_def)
  note other = store_other_queue [OF key(1) assms(2) ne]
  show ?thesis
    using assms(4) [unfolded push_offline_with_limit_def Let_def, folded T_def C_def] key(2)
    by (auto simp: case_prod_unfold make_room_opt_drop other(1) [OF prod.collapse [symmetric]]
        other(2) [OF prod.collapse [symmetric]] split: sum.splits if_splits)
qed

section \<open>Restart\<close>

lemma of_record_to_record [simp]: "of_record (to_record m) = m"
  by (simp add: of_record_def to_record_def)

lemma push_restored_fits:
  assumes "limit = None \<or> limit = Some n \<and> length q + length ms \<le> max n 1"
  shows "push_restored_loop limit ms d q = (d, q @ ms)"
  using assms
proof (induction ms arbitrary: q d)
  case (Cons m ms)
  have "overflow limit q = 0" using Cons.prems by (auto simp: overflow_def)
  then show ?case using Cons.IH [of "q @ [m]" d] Cons.prems by (auto simp: make_room_opt_drop)
qed simp

section \<open>Histories of a queue\<close>

text \<open>The file holds at least the queue, in its order.\<close>

definition file_covers :: "session \<Rightarrow> offline_store \<Rightarrow> bool" where
  "file_covers s st \<longleftrightarrow>
     whole_file st (offline_tenant s) (s_client_id s)
     \<and> subseq (map to_record (s_offline_queue s)) (queue_of st (offline_tenant s) (s_client_id s))"

text \<open>An append that does not break off inside the record.\<close>

definition untorn :: "append_io \<Rightarrow> offline_record \<Rightarrow> bool" where
  "untorn io r \<longleftrightarrow> (case io of App_write_err n \<Rightarrow> n = 0 \<or> length (frame r) \<le> n | _ \<Rightarrow> True)"

text \<open>
  The histories of the queue of a durable session and of the store that holds its file. The flag
  tells that no failed write has left the file ahead of the queue: a failed flush or sync leaves the
  refused message in the file, a failed eviction the evicted ones, and the next successful rewrite
  or restart settles it.
\<close>

inductive queue_history :: "bool \<Rightarrow> session \<Rightarrow> offline_store \<Rightarrow> bool" where
  fresh: "session_key_ok s \<Longrightarrow> s_offline_queue s = [] \<Longrightarrow>
    file_bytes st (queue_file (offline_tenant s) (s_client_id s)) = [] \<Longrightarrow> queue_history True s st"
| pushed: "queue_history exact s st \<Longrightarrow> record_ok (to_record (stamped now m)) \<Longrightarrow>
    untorn aio (to_record (stamped now m)) \<Longrightarrow>
    push_offline_with_limit now aio rio m limit s st = (queued, s', st') \<Longrightarrow>
    queue_history (if queued then exact \<or> overflow limit (s_offline_queue s) \<noteq> 0 else exact \<and> aio = App_open_err) s' st'"
| drained: "queue_history exact s st \<Longrightarrow> drain_offline True s st = (ms, s', st') \<Longrightarrow>
    queue_history (exact \<or> ms \<noteq> []) s' st'"
| replayed: "queue_history exact s st \<Longrightarrow> take_offline_retained s = (taken, s1) \<Longrightarrow> set unrouted \<subseteq> set taken \<Longrightarrow>
    confirm_offline_consumed (Rw_ok, True, pid) unrouted s1 st = (s', st') \<Longrightarrow> queue_history True s' st'"
| restarted: "queue_history exact s st \<Longrightarrow>
    load_in_tenant Load_ok tr (offline_tenant s) (s_client_id s) st = ((rs, torn_tails), st') \<Longrightarrow>
    s_durable s0 \<Longrightarrow> offline_tenant s0 = offline_tenant s \<Longrightarrow> s_client_id s0 = s_client_id s \<Longrightarrow> s_offline_queue s0 = [] \<Longrightarrow>
    push_restored_with_limit (map of_record rs) limit s0 = (0, s') \<Longrightarrow> queue_history True s' st'"
| other_append: "queue_history exact s st \<Longrightarrow> queue_id_ok t c \<Longrightarrow> (t, c) \<noteq> (offline_tenant s, s_client_id s) \<Longrightarrow>
    queue_history exact s (snd (append_in_tenant aio t c r st))"
| other_rewrite: "queue_history exact s st \<Longrightarrow> queue_id_ok t c \<Longrightarrow> (t, c) \<noteq> (offline_tenant s, s_client_id s) \<Longrightarrow>
    queue_history exact s (snd (rewrite_in_tenant io u pid t c rs st))"
| other_remove: "queue_history exact s st \<Longrightarrow> queue_id_ok t c \<Longrightarrow> (t, c) \<noteq> (offline_tenant s, s_client_id s) \<Longrightarrow>
    queue_history exact s (remove_in_tenant u t c st)"

definition history_ok :: "bool \<Rightarrow> session \<Rightarrow> offline_store \<Rightarrow> bool" where
  "history_ok exact s st \<longleftrightarrow> session_key_ok s \<and> file_covers s st \<and> (exact \<longrightarrow> file_holds s st (s_offline_queue s))"

lemma file_holds_covers: "file_holds s st (s_offline_queue s) \<Longrightarrow> file_covers s st"
  by (simp add: file_holds_def file_covers_def)

lemma history_exact: "session_key_ok s \<Longrightarrow> file_holds s st (s_offline_queue s) \<Longrightarrow> history_ok exact s st"
  by (simp add: history_ok_def file_holds_covers)

lemma subseq_set: "subseq xs ys \<Longrightarrow> set xs \<subseteq> set ys"
  by (induction rule: list_emb.induct) auto

lemma covers_records_ok: "file_covers s st \<Longrightarrow> \<forall>m\<in>set (s_offline_queue s). record_ok (to_record m)"
  using queue_of_ok subseq_set [of "map to_record (s_offline_queue s)"] by (force simp: file_covers_def)

text \<open>A push that evicts writes the file anew from the queue.\<close>

lemma push_file_evicts:
  assumes "session_key_ok s" and "record_ok (to_record (stamped now m))"
    and "push_offline_with_limit now aio rio m limit s st = (True, s', st')"
    and "overflow limit (s_offline_queue s) \<noteq> 0" and "\<forall>m\<in>set (s_offline_queue s). record_ok (to_record m)"
  shows "file_holds s' st' (s_offline_queue s') \<and> session_key_ok s'"
proof -
  let ?t = "offline_tenant s" and ?c = "s_client_id s"
  obtain st1 where s': "s' = s\<lparr>s_offline_queue := drop (overflow limit (s_offline_queue s)) (s_offline_queue s) @ [stamped now m]\<rparr>"
    and w: "if overflow limit (s_offline_queue s) = 0 then st' = st1
     else rewrite_in_tenant (fst rio) (fst (snd rio)) (snd (snd rio)) ?t ?c (map to_record (s_offline_queue s')) st1 = (Ok (), st')"
    by (rule push_queued [OF assms(1,3)])
  obtain io u pid where rio: "rio = (io, u, pid)" by (cases rio)
  have ok: "\<forall>r\<in>set (map to_record (s_offline_queue s')). record_ok r"
    using assms(2,5) by (auto simp: s' dest: in_set_dropD)
  have "queue_of st' ?t ?c = map to_record (s_offline_queue s') \<and> whole_file st' ?t ?c"
    using qs.rewrite_Ok [of "(?t, ?c)" "map to_record (s_offline_queue s')" "(io, u, pid)" st1 "()" st'] w assms(1,4) ok
    by (simp add: rio session_key_ok_def s')
  then show ?thesis using assms(1) by (simp add: s' file_holds_def)
qed

lemma push_file_end:
  assumes "session_key_ok s" and "record_ok (to_record (stamped now m))" and "file_covers s st"
    and "push_offline_with_limit now aio rio m limit s st = (True, s', st')"
  shows "\<exists>rs. queue_of st' (offline_tenant s) (s_client_id s) = rs @ [to_record (stamped now m)]"
proof -
  let ?t = "offline_tenant s" and ?c = "s_client_id s"
  obtain st1 where a: "append_in_tenant aio ?t ?c (to_record (stamped now m)) st = (Ok (), st1)"
    and s': "s' = s\<lparr>s_offline_queue := drop (overflow limit (s_offline_queue s)) (s_offline_queue s) @ [stamped now m]\<rparr>"
    and w: "if overflow limit (s_offline_queue s) = 0 then st' = st1
     else rewrite_in_tenant (fst rio) (fst (snd rio)) (snd (snd rio)) ?t ?c (map to_record (s_offline_queue s')) st1 = (Ok (), st')"
    by (rule push_queued [OF assms(1,4)])
  show ?thesis
  proof (cases "overflow limit (s_offline_queue s) = 0")
    case True
    with w append_acked [OF _ assms(2) _ a] assms(1,3) show ?thesis by (simp add: session_key_ok_def file_covers_def)
  next
    case False
    from push_file_evicts [OF assms(1,2,4) this covers_records_ok [OF assms(3)]]
    have "queue_of st' ?t ?c = map to_record (s_offline_queue s')" by (simp add: s' file_holds_def)
    then show ?thesis by (simp add: s')
  qed
qed

lemma append_untorn:
  assumes "queue_id_ok t c" and "record_ok r" and "whole_file st t c" and "untorn io r"
    and "append_in_tenant io t c r st = (Err e, st')"
  shows "whole_file st' t c \<and> queue_of st' t c \<in> {queue_of st t c, queue_of st t c @ [r]}
    \<and> (io = App_open_err \<longrightarrow> queue_of st' t c = queue_of st t c)"
proof -
  note p = log_path_for_queue_file [OF assms(1)]
  have ok: "\<forall>x\<in>set (queue_of st t c). record_ok x" using queue_of_ok by blast
  have "file_bytes st' (queue_file t c) = frames (queue_of st t c) @ []
      \<or> io \<noteq> App_open_err \<and> file_bytes st' (queue_file t c) = frames (queue_of st t c @ [r]) @ []"
    using assms(4,5) whole_file_bytes [OF assms(3)]
    by (cases io) (auto simp: append_in_tenant_def p Let_def untorn_def split: if_splits)
  then show ?thesis
  proof (elim disjE conjE)
    assume "file_bytes st' (queue_file t c) = frames (queue_of st t c) @ []"
    from queue_file_frames [OF this ok] show ?thesis by simp
  next
    assume b: "io \<noteq> App_open_err" "file_bytes st' (queue_file t c) = frames (queue_of st t c @ [r]) @ []"
    have "\<forall>x\<in>set (queue_of st t c @ [r]). record_ok x" using ok assms(2) by auto
    from queue_file_frames [OF b(2) this] b(1) show ?thesis by simp
  qed
qed

lemma subseq_drop_left: "subseq xs ys \<Longrightarrow> subseq (drop k xs) ys"
  by (meson subseq_order.order_trans suffix_drop suffix_imp_subseq)

lemma history_push:
  assumes h: "history_ok exact s st" and rec: "record_ok (to_record (stamped now m))"
    and un: "untorn aio (to_record (stamped now m))"
    and p: "push_offline_with_limit now aio rio m limit s st = (queued, s', st')"
  shows "history_ok (if queued then exact \<or> overflow limit (s_offline_queue s) \<noteq> 0 else exact \<and> aio = App_open_err) s' st'"
proof -
  let ?t = "offline_tenant s" and ?c = "s_client_id s" and ?r = "to_record (stamped now m)"
    and ?k = "overflow limit (s_offline_queue s)" and ?q = "map to_record (s_offline_queue s)"
  let ?q' = "map to_record (drop ?k (s_offline_queue s) @ [stamped now m])"
  have key: "session_key_ok s" and id: "queue_id_ok ?t ?c" and wh: "whole_file st ?t ?c"
    and sub: "subseq ?q (queue_of st ?t ?c)"
    using h by (simp_all add: history_ok_def session_key_ok_def file_covers_def)
  have more: "subseq ?q' (queue_of st ?t ?c @ [?r])"
    using list_emb_append_mono [OF subseq_drop_left [OF sub, of ?k], of "[?r]" "[?r]"] by (simp add: drop_map)
  from p show ?thesis
  proof (cases rule: push_cases)
    case memory
    with key show ?thesis by (simp add: session_key_ok_def)
  next
    case (refused e)
    from append_untorn [OF id rec wh un refused(4)] have w: "whole_file st' ?t ?c"
      and q: "queue_of st' ?t ?c \<in> {queue_of st ?t ?c, queue_of st ?t ?c @ [?r]}"
      "aio = App_open_err \<Longrightarrow> queue_of st' ?t ?c = queue_of st ?t ?c" by simp_all
    from q(1) sub have "subseq ?q (queue_of st' ?t ?c)" by (auto intro: list_emb_prefix)
    with refused key w q(2) h show ?thesis by (auto simp: history_ok_def file_covers_def file_holds_def)
  next
    case appended
    from append_acked [OF id rec wh appended(4)] have "queue_of st' ?t ?c = queue_of st ?t ?c @ [?r]" "whole_file st' ?t ?c"
      by simp_all
    with appended key more h show ?thesis
      by (auto simp: history_ok_def file_covers_def file_holds_def)
  next
    case (rewritten st1 res)
    from append_acked [OF id rec wh rewritten(4)]
    have 1: "queue_of st1 ?t ?c = queue_of st ?t ?c @ [?r]" "whole_file st1 ?t ?c" by simp_all
    have s': "s' = s\<lparr>s_offline_queue := drop ?k (s_offline_queue s) @ [stamped now m]\<rparr>" using rewritten(3) .
    obtain io u pid where rio: "rio = (io, u, pid)" by (cases rio)
    have w: "rewrite_in_tenant io u pid ?t ?c ?q' st1 = (res, st')" using rewritten(5) by (simp add: rio)
    have opened: "aio \<noteq> App_open_err"
      using rewritten(4) by (auto simp: append_in_tenant_def log_path_for_queue_file [OF id] Let_def)
    show ?thesis
    proof (cases res)
      case (Inl e)
      then have "queue_of st' ?t ?c = queue_of st1 ?t ?c" "whole_file st' ?t ?c"
        using qs.rewrite_Err [of "(?t, ?c)" "(io, u, pid)" ?q' st1 e st'] id w 1(2) by simp_all
      with rewritten(2) Inl key more 1(1) opened show ?thesis
        by (auto simp: s' history_ok_def file_covers_def)
    next
      case (Inr v)
      have "\<forall>r\<in>set ?q'. record_ok r"
        using covers_records_ok [of s st] h rec in_set_dropD by (fastforce simp: history_ok_def)
      then have "queue_of st' ?t ?c = ?q'" "whole_file st' ?t ?c"
        using qs.rewrite_Ok [of "(?t, ?c)" ?q' "(io, u, pid)" st1 v st'] id w Inr by simp_all
      with key show ?thesis by (intro history_exact) (simp_all add: s' file_holds_def)
    qed
  qed
qed

lemma to_record_of_record [simp]: "to_record (of_record r) = r"
  by (simp add: of_record_def to_record_def)

lemma push_restored_all:
  assumes "push_restored_loop limit ms d q = (d, q')"
  shows "q' = q @ ms"
proof -
  have mono: "push_restored_loop limit ms d q = (d', q') \<Longrightarrow> d \<le> d' \<and> (d' = d \<longrightarrow> q' = q @ ms)" for d d' q q'
  proof (induction ms arbitrary: d q)
    case (Cons m ms)
    from Cons.prems have "push_restored_loop limit ms (d + overflow limit q) (drop (overflow limit q) q @ [m]) = (d', q')"
      by (simp add: make_room_opt_drop)
    from Cons.IH [OF this] show ?case by (cases "overflow limit q = 0") auto
  qed simp
  show ?thesis using mono [OF assms] by simp
qed

lemma history_other:
  assumes "history_ok exact s st"
    and "queue_of st' (offline_tenant s) (s_client_id s) = queue_of st (offline_tenant s) (s_client_id s)
      \<and> whole_file st' (offline_tenant s) (s_client_id s) = whole_file st (offline_tenant s) (s_client_id s)"
  shows "history_ok exact s st'"
  using assms by (simp add: history_ok_def file_covers_def file_holds_def)

lemma confirm_rewrites:
  assumes "session_key_ok s" and "\<forall>m\<in>set (unrouted @ s_offline_queue s). record_ok (to_record m)"
    and "confirm_offline_consumed (Rw_ok, True, pid) unrouted s st = (s', st')"
  shows "s' = s\<lparr>s_offline_queue := unrouted @ s_offline_queue s\<rparr> \<and> file_holds s' st' (s_offline_queue s')"
proof -
  let ?t = "offline_tenant s" and ?c = "s_client_id s" and ?q = "map to_record (unrouted @ s_offline_queue s)"
  have id: "queue_id_ok ?t ?c" "s_durable s" using assms(1) by (simp_all add: session_key_ok_def)
  have s': "s' = s\<lparr>s_offline_queue := unrouted @ s_offline_queue s\<rparr>"
    and st': "st' = snd (rewrite_in_tenant Rw_ok True pid ?t ?c ?q st)"
    using assms(3) id(2) by (auto simp: confirm_offline_consumed_def Let_def split: if_splits)
  have ok: "\<forall>r\<in>set ?q. record_ok r" using assms(2) by auto
  have "fst (rewrite_in_tenant Rw_ok True pid ?t ?c ?q st) = Ok ()"
    by (simp add: rewrite_in_tenant_def log_path_for_queue_file [OF id(1)] Let_def)
  then have rw: "rewrite_in_tenant Rw_ok True pid ?t ?c ?q st = (Ok (), st')" by (simp add: st' prod_eq_iff)
  have "queue_of st' ?t ?c = ?q \<and> whole_file st' ?t ?c"
    using qs.rewrite_Ok [of "(?t, ?c)" ?q "(Rw_ok, True, pid)" st "()" st'] id ok rw by simp
  then show ?thesis by (simp add: s' file_holds_def)
qed

lemma history_inv: "queue_history exact s st \<Longrightarrow> history_ok exact s st"
proof (induction rule: queue_history.induct)
  case (fresh s st)
  then have "file_bytes st (queue_file (offline_tenant s) (s_client_id s)) = frames [] @ []"
    by simp
  from queue_file_frames [OF this] fresh show ?case by (intro history_exact) (simp_all add: file_holds_def)
next
  case (pushed exact s st now m aio rio limit queued s' st')
  then show ?case by (intro history_push)
next
  case (drained exact s st ms s' st')
  let ?t = "offline_tenant s" and ?c = "s_client_id s"
  have key: "session_key_ok s" "queue_id_ok ?t ?c" "s_durable s"
    using drained.IH by (simp_all add: history_ok_def session_key_ok_def)
  have d: "ms = s_offline_queue s" "s' = s\<lparr>s_offline_queue := []\<rparr>"
    "st' = (if ms \<noteq> [] then remove_in_tenant True ?t ?c st else st)"
    using drained.hyps(2) key(3) by (auto simp: drain_offline_def Let_def split: if_splits)
  show ?case
  proof (cases "ms = []")
    case True
    then have "s' = s" using d by simp
    with True d drained.IH show ?thesis by simp
  next
    case False
    have "queue_of st' ?t ?c = [] \<and> whole_file st' ?t ?c"
      using qs.remove_ok [of "(?t, ?c)" st] key(2) False d(3) by simp
    with key(1) d(2) show ?thesis by (intro history_exact) (simp_all add: file_holds_def)
  qed
next
  case (replayed exact s st taken s1 unrouted pid s' st')
  then have t: "taken = s_offline_queue s" "s1 = s\<lparr>s_offline_queue := []\<rparr>" by (simp_all add: take_offline_retained_def)
  have "session_key_ok s1" using replayed.IH by (simp add: t history_ok_def)
  moreover have "\<forall>m\<in>set (unrouted @ s_offline_queue s1). record_ok (to_record m)"
    using covers_records_ok [of s st] replayed.IH replayed.hyps(3) t by (auto simp: history_ok_def)
  ultimately show ?case
    using confirm_rewrites [OF _ _ replayed.hyps(4)] by (intro history_exact) (auto simp: t)
next
  case (restarted exact s st tr rs torn_tails st' s0 limit s')
  let ?t = "offline_tenant s" and ?c = "s_client_id s"
  have id: "queue_id_ok ?t ?c" and wh: "whole_file st ?t ?c"
    using restarted.IH by (simp_all add: history_ok_def session_key_ok_def file_covers_def)
  have rs: "rs = queue_of st ?t ?c" using load_cases(1) [OF id, of tr st] restarted.hyps(2) by simp
  have "file_bytes st' (queue_file ?t ?c) = file_bytes st (queue_file ?t ?c)"
    using load_cases(2) [OF id, of tr st] restarted.hyps(2) whole_file_bytes [OF wh] by simp
  from queue_of_bytes [OF this] wh have q: "queue_of st' ?t ?c = rs" "whole_file st' ?t ?c" by (simp_all add: rs)
  have "s' = s0\<lparr>s_offline_queue := map of_record rs\<rparr>"
    using restarted.hyps(6,7) push_restored_all [of limit "map of_record rs" 0 "[]"]
    by (auto simp: push_restored_with_limit_def Let_def case_prod_unfold prod_eq_iff)
  with restarted.hyps(3-5) id q show ?case
    by (intro history_exact) (simp_all add: session_key_ok_def file_holds_def o_def)
next
  case (other_append exact s st t c aio r)
  show ?case
    by (rule history_other [OF other_append.IH])
      (use qs.append_frame [of "(t, c)" "(offline_tenant s, s_client_id s)" aio r st] other_append in
        \<open>auto simp: history_ok_def session_key_ok_def prod_eq_iff\<close>)
next
  case (other_rewrite exact s st t c io u pid rs)
  show ?case
    by (rule history_other [OF other_rewrite.IH])
      (use qs.rewrite_frame [of "(t, c)" "(offline_tenant s, s_client_id s)" "(io, u, pid)" rs st] other_rewrite in
        \<open>auto simp: history_ok_def session_key_ok_def prod_eq_iff\<close>)
next
  case (other_remove exact s st t c u)
  show ?case
    by (rule history_other [OF other_remove.IH])
      (use qs.remove_frame [of "(t, c)" "(offline_tenant s, s_client_id s)" u st] other_remove in
        \<open>auto simp: history_ok_def session_key_ok_def\<close>)
qed


section \<open>Replay\<close>

text \<open>
  A reconnect takes the queue out of memory while its file stays; messages may be buffered for the
  session, or refused because the file could not be opened, before the replay is confirmed. The
  flag tells that no message was evicted in between: an eviction rewrites the file from memory.
\<close>

inductive replaying :: "session \<Rightarrow> offline_store \<Rightarrow> queued_message list \<Rightarrow> bool \<Rightarrow> session \<Rightarrow> offline_store \<Rightarrow> bool"
  for s0 st0 where
  drained: "take_offline_retained s0 = (taken, s) \<Longrightarrow> replaying s0 st0 taken True s st0"
| arrival: "replaying s0 st0 taken kept s st \<Longrightarrow> record_ok (to_record (stamped now m)) \<Longrightarrow>
    push_offline_with_limit now aio rio m limit s st = (True, s', st') \<Longrightarrow>
    replaying s0 st0 taken (kept \<and> overflow limit (s_offline_queue s) = 0) s' st'"
| refusal: "replaying s0 st0 taken kept s st \<Longrightarrow>
    push_offline_with_limit now App_open_err rio m limit s st = (False, s', st') \<Longrightarrow>
    replaying s0 st0 taken kept s' st'"

definition on_disk :: "bool \<Rightarrow> queued_message list \<Rightarrow> session \<Rightarrow> queued_message list" where
  "on_disk kept taken s = (if kept then taken else []) @ s_offline_queue s"

lemma replaying_taken: "replaying s0 st0 taken kept s st \<Longrightarrow> taken = s_offline_queue s0"
  by (induction rule: replaying.induct) (auto simp: take_offline_retained_def)

lemma replaying_file:
  assumes "replaying s0 st0 taken kept s st" and "session_key_ok s0" and "file_holds s0 st0 (s_offline_queue s0)"
  shows "file_holds s st (on_disk kept taken s) \<and> session_key_ok s"
  using assms
proof (induction rule: replaying.induct)
  case (drained taken s)
  then have "taken = s_offline_queue s0" "s = s0\<lparr>s_offline_queue := []\<rparr>" by (auto simp: take_offline_retained_def)
  with drained show ?case by (simp add: on_disk_def)
next
  case (arrival taken kept s st now m aio rio limit s' st')
  then have h: "file_holds s st (on_disk kept taken s)" "session_key_ok s" by simp_all
  show ?case
  proof (cases "overflow limit (s_offline_queue s) = 0 \<or> \<not> kept")
    case True
    then have "(if kept then taken else []) = [] \<or> overflow limit (s_offline_queue s) = 0" by auto
    from push_file_ahead [OF h(2) arrival.hyps(2,3) h(1) [unfolded on_disk_def] this] True
    show ?thesis by (auto simp: on_disk_def split: if_splits)
  next
    case False
    have "\<forall>m\<in>set (s_offline_queue s). record_ok (to_record m)"
    proof
      fix x assume "x \<in> set (s_offline_queue s)"
      then have "to_record x \<in> set (queue_of st (offline_tenant s) (s_client_id s))"
        using h(1) by (auto simp: file_holds_def on_disk_def)
      then show "record_ok (to_record x)" by (rule queue_of_ok)
    qed
    from push_file_evicts [OF h(2) arrival.hyps(2,3) _ this] False show ?thesis by (simp add: on_disk_def)
  qed
next
  case (refusal taken kept s st now rio m limit s' st')
  then have h: "file_holds s st (on_disk kept taken s)" "session_key_ok s" by simp_all
  then have id: "queue_id_ok (offline_tenant s) (s_client_id s)" "s_durable s" by (simp_all add: session_key_ok_def)
  from refusal.hyps(2) id have "s' = s" "st' = bump_failed st"
    by (auto simp: push_offline_with_limit_def append_in_tenant_def log_path_for_queue_file Let_def split: prod.splits)
  with h show ?case by (simp add: file_holds_def queue_of_def whole_file_def)
qed


section \<open>A concrete session\<close>

definition demo_session :: session where
  "demo_session = (session_new 0 1 ''x'' False)\<lparr>s_durable := True\<rparr>"

definition demo_message :: queued_message where
  "demo_message = \<lparr>qm_topic = Topic ''a'', qm_qos = AtLeastOnce, qm_retain = False, qm_payload = [1, 2],
     qm_publish_at_ms = Some 7\<rparr>"

lemma demo_session_facts:
  "session_key_ok demo_session" "s_offline_queue demo_session = []" "stamped now demo_message = demo_message"
  "to_record demo_message = demo_record" "offline_tenant demo_session = DEFAULT_TENANT_ID"
  "s_client_id demo_session = ''x''"
  using demo_facts(2)
  by (simp_all add: demo_session_def demo_message_def session_new_def session_key_ok_def offline_tenant_def
      stamped_def to_record_def demo_record_def)

lemma demo_push:
  "push_offline_with_limit 5 App_ok (Rw_ok, True, 1) demo_message (Some 3) demo_session (demo_store [])
     = (True, demo_session\<lparr>s_offline_queue := [demo_message]\<rparr>,
        snd (append_in_tenant App_ok DEFAULT_TENANT_ID ''x'' demo_record (demo_store [])))"
proof -
  have "fst (append_in_tenant App_ok DEFAULT_TENANT_ID ''x'' demo_record (demo_store [])) = Ok ()"
    by (simp add: append_in_tenant_def log_path_for_queue_file demo_facts Let_def)
  moreover have "s_durable demo_session" using demo_session_facts(1) by (simp add: session_key_ok_def)
  moreover have "qm_publish_at_ms demo_message = Some 7" by (simp add: demo_message_def)
  ultimately show ?thesis
    by (simp add: push_offline_with_limit_def demo_session_facts make_room_opt_def case_prod_unfold)
qed

lemma demo_history: "queue_history True demo_session (demo_store [])"
  by (rule queue_history.fresh) (simp_all add: demo_session_facts demo_facts)



end
