(* ===== verification/Delivery.thy ===== *)
theory Delivery
  imports Manager_Laws Conn_Table Router_Runs Session_Laws Session_Offline
begin

text \<open>
  Delivery in the kernel (\<^verbatim>\<open>crates/broker-node/src/main.rs\<close>): the frame of one delivery, the limits
  of a version 5 client, the fan-out of one publish over the matched subscriptions with its effect on
  sessions, queues and counters, and the decision on the acknowledgement of a QoS 1 publish. Router,
  session manager, offline store and counters are passed along; the clock and the outcome of system
  calls are arguments. A search for a packet identifier that does not end makes the whole fan-out \<open>None\<close>.
\<close>

section \<open>Publish frames\<close>

definition MAX_PUBLISH_V5_USERS :: nat where
  "MAX_PUBLISH_V5_USERS = 16"

definition MAX_PUBLISH_V5_STRING :: nat where
  "MAX_PUBLISH_V5_STRING = 1024"

record publish_v5_props =
  pv_format :: u8
  pv_expiry :: u32
  pv_users :: "(bytes \<times> bytes) list"

definition props_default :: publish_v5_props where
  "props_default = \<lparr>pv_format = 0, pv_expiry = 0, pv_users = []\<rparr>"

definition props_is_empty :: "publish_v5_props \<Rightarrow> bool" where
  "props_is_empty v \<longleftrightarrow> pv_format v = 0 \<and> pv_expiry v = 0 \<and> pv_users v = []"

text \<open>\<open>Result::ok\<close>.\<close>

definition ok_frame :: "brokerlink_error + broker_frame \<Rightarrow> broker_frame option" where
  "ok_frame r = (case r of Ok f \<Rightarrow> Some f | Err _ \<Rightarrow> None)"

definition bool_u8 :: "bool \<Rightarrow> u8" where
  "bool_u8 b = (if b then 1 else 0)"

text \<open>The part of the metadata that every publish has, up to the duplicate flag.\<close>

definition publish_head :: "string \<Rightarrow> u16 \<Rightarrow> u8 \<Rightarrow> bool \<Rightarrow> bool \<Rightarrow> bytes" where
  "publish_head topic packet_id qos retain dup =
     u16_to_be (of_nat (length topic)) @ as_bytes topic @ u16_to_be packet_id @ [qos, bool_u8 retain, bool_u8 dup]"

definition encode_publish_out :: "u64 \<Rightarrow> string \<Rightarrow> u16 \<Rightarrow> u8 \<Rightarrow> bool \<Rightarrow> bytes \<Rightarrow> broker_frame option" where
  "encode_publish_out conn_id topic packet_id qos retain payload =
     ok_frame (frame_new PublishOut conn_id 0
       (publish_head topic packet_id qos retain False @ encode_topic_alias 0) payload)"

definition encode_publish_out_with_dup ::
  "u64 \<Rightarrow> string \<Rightarrow> u16 \<Rightarrow> u8 \<Rightarrow> bool \<Rightarrow> bool \<Rightarrow> u16 \<Rightarrow> bytes \<Rightarrow> broker_frame option" where
  "encode_publish_out_with_dup conn_id topic packet_id qos retain dup alias payload =
     (if \<not> dup \<and> alias = 0 then encode_publish_out conn_id topic packet_id qos retain payload
      else ok_frame (frame_new PublishOut conn_id 0
        (publish_head topic packet_id qos retain dup @ encode_topic_alias alias) payload))"

text \<open>The branch without properties, to which the branches with unusable properties return.\<close>

definition encode_publish_out_full ::
  "u64 \<Rightarrow> string \<Rightarrow> u16 \<Rightarrow> u8 \<Rightarrow> bool \<Rightarrow> bool \<Rightarrow> u16 \<Rightarrow> u32 \<Rightarrow> bytes \<Rightarrow> broker_frame option" where
  "encode_publish_out_full conn_id topic packet_id qos retain dup alias sub_id payload =
     (if sub_id = 0 \<or> sub_id > MAX_SUBSCRIPTION_ID
      then encode_publish_out_with_dup conn_id topic packet_id qos retain dup alias payload
      else ok_frame (frame_new PublishOut conn_id 0
        (publish_head topic packet_id qos retain dup @ encode_topic_alias alias @ u32_to_be sub_id) payload))"

definition user_pair_ok :: "bytes \<times> bytes \<Rightarrow> bool" where
  "user_pair_ok kv \<longleftrightarrow>
     \<not> (fst kv = [] \<or> length (fst kv) > MAX_PUBLISH_V5_STRING \<or> length (snd kv) > MAX_PUBLISH_V5_STRING)
     \<and> utf8_valid (fst kv) \<and> utf8_valid (snd kv)"

definition user_pair_bytes :: "bytes \<times> bytes \<Rightarrow> bytes" where
  "user_pair_bytes kv =
     u16_to_be (of_nat (length (fst kv))) @ fst kv @ u16_to_be (of_nat (length (snd kv))) @ snd kv"

definition encode_publish_out_full_with_props ::
  "u64 \<Rightarrow> string \<Rightarrow> u16 \<Rightarrow> u8 \<Rightarrow> bool \<Rightarrow> bool \<Rightarrow> u16 \<Rightarrow> u32 \<Rightarrow> bytes \<Rightarrow> publish_v5_props \<Rightarrow> broker_frame option" where
  "encode_publish_out_full_with_props conn_id topic packet_id qos retain dup alias sub_id payload v5 =
     (if props_is_empty v5
         \<or> (pv_format v5 \<noteq> 0 \<and> pv_format v5 \<noteq> 1)
         \<or> length (pv_users v5) > MAX_PUBLISH_V5_USERS
         \<or> \<not> list_all user_pair_ok (pv_users v5)
      then encode_publish_out_full conn_id topic packet_id qos retain dup alias sub_id payload
      else
        let stored_sub = (if sub_id = 0 \<or> sub_id > MAX_SUBSCRIPTION_ID then 0 else sub_id) in
        ok_frame (frame_new PublishOut conn_id 0
          (publish_head topic packet_id qos retain dup @ encode_topic_alias alias @ u32_to_be stored_sub
           @ [pv_format v5] @ u32_to_be (pv_expiry v5) @ u16_to_be (of_nat (length (pv_users v5)))
           @ concat (map user_pair_bytes (pv_users v5))) payload))"

definition encode_pubrel_out :: "u64 \<Rightarrow> u16 \<Rightarrow> broker_frame option" where
  "encode_pubrel_out conn_id packet_id = ok_frame (frame_new PubRelOut conn_id 0 (u16_to_be packet_id) [])"

definition pub_ack_reply :: "broker_frame \<Rightarrow> u16 \<Rightarrow> u8 \<Rightarrow> broker_frame option" where
  "pub_ack_reply f packet_id return_code =
     ok_frame (frame_new PubAckOut (h_conn_id (f_header f)) (h_sequence_no (f_header f))
       (u16_to_be packet_id @ [return_code]) [])"

section \<open>Counters\<close>

record metrics =
  mx_messages_dropped :: u64
  mx_tenant_mismatch_dropped :: u64
  mx_inflight_dropped :: u64
  mx_inflight_spilled :: u64
  mx_inflight_spill_evicted :: u64
  mx_inflight_spill_replayed :: u64
  mx_offline_queue_evicted :: u64
  mx_detached_clean_dropped :: u64
  mx_publish_sent :: u64
  mx_delivered :: u64
  mx_bytes_sent :: u64

definition inc_messages_dropped :: "metrics \<Rightarrow> metrics" where
  "inc_messages_dropped x = x\<lparr>mx_messages_dropped := mx_messages_dropped x + 1\<rparr>"

definition inc_tenant_mismatch_dropped_by :: "u64 \<Rightarrow> metrics \<Rightarrow> metrics" where
  "inc_tenant_mismatch_dropped_by n x = x\<lparr>mx_tenant_mismatch_dropped := mx_tenant_mismatch_dropped x + n\<rparr>"

definition inc_inflight_dropped :: "metrics \<Rightarrow> metrics" where
  "inc_inflight_dropped x = x\<lparr>mx_inflight_dropped := mx_inflight_dropped x + 1\<rparr>"

definition inc_inflight_spilled :: "metrics \<Rightarrow> metrics" where
  "inc_inflight_spilled x = x\<lparr>mx_inflight_spilled := mx_inflight_spilled x + 1\<rparr>"

definition inc_inflight_spill_evicted :: "metrics \<Rightarrow> metrics" where
  "inc_inflight_spill_evicted x = x\<lparr>mx_inflight_spill_evicted := mx_inflight_spill_evicted x + 1\<rparr>"

definition inc_inflight_spill_replayed :: "metrics \<Rightarrow> metrics" where
  "inc_inflight_spill_replayed x = x\<lparr>mx_inflight_spill_replayed := mx_inflight_spill_replayed x + 1\<rparr>"

definition inc_offline_queue_evicted_by :: "u64 \<Rightarrow> metrics \<Rightarrow> metrics" where
  "inc_offline_queue_evicted_by n x = x\<lparr>mx_offline_queue_evicted := mx_offline_queue_evicted x + n\<rparr>"

definition inc_detached_clean_dropped :: "metrics \<Rightarrow> metrics" where
  "inc_detached_clean_dropped x = x\<lparr>mx_detached_clean_dropped := mx_detached_clean_dropped x + 1\<rparr>"

definition inc_publish_sent_by :: "u64 \<Rightarrow> metrics \<Rightarrow> metrics" where
  "inc_publish_sent_by n x = x\<lparr>mx_publish_sent := mx_publish_sent x + n\<rparr>"

definition inc_delivered_by :: "u64 \<Rightarrow> metrics \<Rightarrow> metrics" where
  "inc_delivered_by n x = x\<lparr>mx_delivered := mx_delivered x + n\<rparr>"

definition inc_bytes_sent_by :: "u64 \<Rightarrow> metrics \<Rightarrow> metrics" where
  "inc_bytes_sent_by n x = x\<lparr>mx_bytes_sent := mx_bytes_sent x + n\<rparr>"

section \<open>Limits of a client\<close>

definition V5_RC_QUOTA_EXCEEDED :: u8 where
  "V5_RC_QUOTA_EXCEEDED = 0x97"

definition V5_RC_PACKET_TOO_LARGE :: u8 where
  "V5_RC_PACKET_TOO_LARGE = 0x95"

definition V5_EGRESS_OVERHEAD_BYTES :: nat where
  "V5_EGRESS_OVERHEAD_BYTES = 10"

definition v5_egress_refused :: "session \<Rightarrow> u8 \<Rightarrow> nat \<Rightarrow> nat \<Rightarrow> u8 option" where
  "v5_egress_refused s effective_qos topic_len payload_len =
     (if s_protocol_version s \<noteq> 5 then None
      else if (effective_qos = 1 \<or> effective_qos = 2) \<and>
              unat (max (client_receive_maximum s) 1) \<le> inflight_total_len s
      then Some V5_RC_QUOTA_EXCEEDED
      else
        let cap = s_client_max_packet_size s in
        if cap \<noteq> 0 \<and> topic_len + payload_len + V5_EGRESS_OVERHEAD_BYTES > unat cap
        then Some V5_RC_PACKET_TOO_LARGE
        else None)"

section \<open>Fan-out\<close>

text \<open>What the environment decides while one subscription is served.\<close>

record delivery_env =
  de_now :: u64
  de_instant :: nat
  de_append :: append_io
  de_rewrite :: rewrite_env

record publication =
  pb_topic :: topic
  pb_qos :: qos
  pb_retain :: bool
  pb_payload :: bytes
  pb_publisher :: "string option"
  pb_props :: publish_v5_props

type_synonym 'f fan_state = "(u64 \<times> broker_frame) list \<times> metrics \<times> 'f manager \<times> offline_store"

definition push_delivery :: "u64 \<Rightarrow> broker_frame option \<Rightarrow> (u64 \<times> broker_frame) list \<Rightarrow> (u64 \<times> broker_frame) list" where
  "push_delivery conn_id f deliveries = (case f of Some f \<Rightarrow> deliveries @ [(conn_id, f)] | None \<Rightarrow> deliveries)"

definition effective_qos :: "publication \<Rightarrow> subscription \<Rightarrow> u8" where
  "effective_qos p sub = min (qos_to_u8 (pb_qos p)) (qos_to_u8 (sub_qos sub))"

definition delivered_retain :: "publication \<Rightarrow> subscription \<Rightarrow> bool" where
  "delivered_retain p sub = (if sub_retain_as_published sub then pb_retain p else False)"

text \<open>\<open>QoS::try_from(n).unwrap_or(q)\<close>.\<close>

definition qos_or :: "u8 \<Rightarrow> qos \<Rightarrow> qos" where
  "qos_or n q = (case qos_try_from n of Ok q' \<Rightarrow> q' | Err _ \<Rightarrow> q)"

text \<open>The tracking of a QoS 1 and of a QoS 2 delivery.\<close>

definition track_qos1 :: "nat \<Rightarrow> publication \<Rightarrow> subscription \<Rightarrow> u16 \<Rightarrow> metrics \<Rightarrow> session \<Rightarrow> metrics \<times> session" where
  "track_qos1 instant p sub pid mx s =
     (case track_inflight_or_spill
             \<lparr>im_packet_id = pid, im_topic = pb_topic p, im_qos = qos_or (effective_qos p sub) AtLeastOnce,
              im_retain = delivered_retain p sub, im_payload = pb_payload p, im_enqueued_at = instant\<rparr> s of
        (Tracked, s) \<Rightarrow> (mx, s)
      | (Spilled, s) \<Rightarrow> (inc_inflight_spilled mx, s)
      | (Dropped, s) \<Rightarrow> (inc_inflight_spill_evicted (inc_inflight_dropped mx), s))"

definition track_qos2 :: "publication \<Rightarrow> subscription \<Rightarrow> u16 \<Rightarrow> metrics \<Rightarrow> session \<Rightarrow> metrics \<times> session" where
  "track_qos2 p sub pid mx s =
     (case track_qos2_outbound
             \<lparr>qo_packet_id = pid, qo_topic = pb_topic p, qo_retain = delivered_retain p sub,
              qo_payload = pb_payload p, qo_rec_received = False\<rparr> s of
        (True, s) \<Rightarrow> (mx, s)
      | (False, s) \<Rightarrow> (inc_inflight_dropped mx, s))"

definition delivery_alias :: "topic \<Rightarrow> session \<Rightarrow> u16 \<times> session" where
  "delivery_alias topic s =
     (if s_outbound_alias_max s = 0 then (0, s)
      else case outbound_alias_for (topic_as_str topic) s of
        Some alias \<Rightarrow> (alias, s)
      | None \<Rightarrow> (let (alias, s) = assign_outbound_alias topic s in (case alias of Some a \<Rightarrow> a | None \<Rightarrow> 0, s)))"

text \<open>A delivery to the live connection of a session.\<close>

definition deliver_live ::
  "delivery_env \<Rightarrow> publication \<Rightarrow> subscription \<Rightarrow> u64 \<Rightarrow> (u64 \<times> broker_frame) list \<Rightarrow> metrics \<Rightarrow> session
   \<Rightarrow> ((u64 \<times> broker_frame) list \<times> metrics \<times> session) option" where
  "deliver_live env p sub conn_id deliveries mx s =
     (let effective = effective_qos p sub in
      case v5_egress_refused s effective (length (topic_as_str (pb_topic p))) (length (pb_payload p)) of
        Some rc \<Rightarrow>
          Some (deliveries, if rc = V5_RC_QUOTA_EXCEEDED then inc_inflight_dropped mx else inc_messages_dropped mx, s)
      | None \<Rightarrow>
          (case (if effective = 0 then Some (0, s) else next_packet_id s) of
             None \<Rightarrow> None
           | Some (pid, s) \<Rightarrow>
               let (mx, s) = (if effective = 1 then track_qos1 (de_instant env) p sub pid mx s else (mx, s));
                   (mx, s) = (if effective = 2 then track_qos2 p sub pid mx s else (mx, s));
                   (alias, s) = delivery_alias (pb_topic p) s in
               Some (push_delivery conn_id
                 (encode_publish_out_full_with_props conn_id (topic_as_str (pb_topic p)) pid effective
                   (delivered_retain p sub) False alias (sub_subscription_id sub) (pb_payload p) (pb_props p))
                 deliveries, mx, s)))"

text \<open>A delivery to a session without a live connection.\<close>

definition deliver_detached ::
  "delivery_env \<Rightarrow> publication \<Rightarrow> subscription \<Rightarrow> nat option \<Rightarrow> metrics \<Rightarrow> session \<Rightarrow> offline_store
   \<Rightarrow> metrics \<times> session \<times> offline_store" where
  "deliver_detached env p sub limit mx s st =
     (if drops_state_at_disconnect s then (inc_detached_clean_dropped mx, s, st)
      else
        let before = length (s_offline_queue s);
            (queued, s, st) = push_offline_with_limit (de_now env) (de_append env) (de_rewrite env)
              \<lparr>qm_topic = pb_topic p, qm_qos = qos_or (effective_qos p sub) AtMostOnce,
               qm_retain = delivered_retain p sub, qm_payload = pb_payload p, qm_publish_at_ms = None\<rparr> limit s st;
            evicted = (before + 1) - length (s_offline_queue s) in
        (if queued \<and> evicted > 0 then inc_offline_queue_evicted_by (of_nat evicted) mx else mx, s, st))"

definition deliver_one ::
  "(subscription \<Rightarrow> delivery_env) \<Rightarrow> publication \<Rightarrow> subscription \<Rightarrow> 'f fan_state \<Rightarrow> 'f fan_state option" where
  "deliver_one env p sub acc =
     (let (deliveries, mx, m, st) = acc in
      if sub_no_local sub \<and> pb_publisher p = Some (sub_client_id sub) then Some acc
      else case get_in_tenant m (sub_tenant sub) (sub_client_id sub) of
        Some a \<Rightarrow>
          (let s = deref m a in
           case (s_connected s, s_conn_id s) of
             (True, Some conn_id) \<Rightarrow>
               map_option (\<lambda>(deliveries, mx, s). (deliveries, mx, with_session a (\<lambda>_. s) m, st))
                 (deliver_live (env sub) p sub conn_id deliveries mx s)
           | _ \<Rightarrow>
               let (mx, s, st) = deliver_detached (env sub) p sub (m_max_offline_queue m) mx s st in
               Some (deliveries, mx, with_session a (\<lambda>_. s) m, st))
      | None \<Rightarrow>
          let effective = effective_qos p sub in
          Some (push_delivery (sub_conn_id sub)
            (encode_publish_out_full_with_props (sub_conn_id sub) (topic_as_str (pb_topic p))
              (if effective = 0 then 0 else 1) effective (delivered_retain p sub) False 0
              (sub_subscription_id sub) (pb_payload p) (pb_props p)) deliveries, mx, m, st))"

fun deliver_all ::
  "(subscription \<Rightarrow> delivery_env) \<Rightarrow> publication \<Rightarrow> subscription list \<Rightarrow> 'f fan_state \<Rightarrow> 'f fan_state option" where
  "deliver_all env p [] acc = Some acc"
| "deliver_all env p (sub # subs) acc =
    (case deliver_one env p sub acc of None \<Rightarrow> None | Some acc \<Rightarrow> deliver_all env p subs acc)"

definition build_downlink_frames_with_publisher_and_props ::
  "(subscription \<Rightarrow> delivery_env) \<Rightarrow> publication \<Rightarrow> string \<Rightarrow> 'rx router \<Rightarrow> metrics \<Rightarrow> 'f manager \<Rightarrow> offline_store
   \<Rightarrow> ((u64 \<times> broker_frame) list \<times> 'rx router \<times> metrics \<times> 'f manager \<times> offline_store) option" where
  "build_downlink_frames_with_publisher_and_props env p publisher_tenant r mx m st =
     (let ((matched, tenant_skipped), r) = matches_in_tenant_counted (pb_topic p) (pb_publisher p) publisher_tenant r;
          mx = (if tenant_skipped > 0 then inc_tenant_mismatch_dropped_by tenant_skipped mx else mx) in
      map_option (\<lambda>(deliveries, mx, m, st). (deliveries, r, mx, m, st))
        (deliver_all env p matched ([], mx, m, st)))"

definition build_downlink_frames_with_publisher where
  "build_downlink_frames_with_publisher env p publisher_tenant =
     build_downlink_frames_with_publisher_and_props env (p\<lparr>pb_props := props_default\<rparr>) publisher_tenant"

definition build_downlink_frames where
  "build_downlink_frames env p tenant =
     build_downlink_frames_with_publisher env (p\<lparr>pb_publisher := None\<rparr>) tenant"

text \<open>
  The acknowledgement of a QoS 1 publish after its fan-out: \<open>before\<close> is the failure counter of the
  store before, if there is a store.
\<close>

definition publish_ack :: "broker_frame \<Rightarrow> u16 \<Rightarrow> qos \<Rightarrow> u64 option \<Rightarrow> offline_store option \<Rightarrow> broker_frame option" where
  "publish_ack f packet_id q before st =
     (if q = AtLeastOnce then
        if (case before of
              Some before \<Rightarrow> (case st of Some st \<Rightarrow> os_persist_failed st > before | None \<Rightarrow> False)
            | None \<Rightarrow> False)
        then None
        else pub_ack_reply f packet_id 0
      else None)"

end
