(* ===== verification/Delivery_Laws.thy ===== *)
theory Delivery_Laws
  imports Delivery
begin

text \<open>
  Laws of the fan-out of one publish: what serving one subscription changes (its session, the queue
  file of its session, the failure counter of the store, the frames sent), the same for the whole
  list of matched subscriptions, that the fan-out completes and serves every one of them, and what
  the acknowledgement of a QoS 1 publish guarantees.
\<close>

section \<open>What a delivery leaves alone\<close>

text \<open>The part of a session that a live delivery does not touch.\<close>

definition keeps_queue :: "session \<Rightarrow> session \<Rightarrow> bool" where
  "keeps_queue s s' \<longleftrightarrow> same_binding s s' \<and> s_offline_queue s' = s_offline_queue s \<and> s_durable s' = s_durable s \<and>
     s_subscriptions s' = s_subscriptions s \<and> s_protocol_version s' = s_protocol_version s \<and> drops_state_at_disconnect s' = drops_state_at_disconnect s \<and>
     offline_tenant s' = offline_tenant s \<and> s_client_receive_max s' = s_client_receive_max s \<and>
     s_client_max_packet_size s' = s_client_max_packet_size s"

lemma keeps_queue_refl [simp]: "keeps_queue s s"
  by (simp add: keeps_queue_def)

lemma keeps_queue_trans: "keeps_queue s s1 \<Longrightarrow> keeps_queue s1 s2 \<Longrightarrow> keeps_queue s s2"
  by (simp add: keeps_queue_def same_binding_def)

lemmas keeps_defs = keeps_queue_def same_binding_def drops_state_at_disconnect_def offline_tenant_def

lemma keeps_next_packet_id: "next_packet_id s = Some (pid, s') \<Longrightarrow> keeps_queue s s'"
  using next_packet_id_result [of s pid s'] by (simp add: keeps_defs)

lemma keeps_track_qos1: "track_qos1 i p sub pid mx s = (mx', s') \<Longrightarrow> keeps_queue s s'"
  by (auto simp: track_qos1_def track_inflight_or_spill_def keeps_defs split: if_splits)

lemma keeps_track_qos2: "track_qos2 p sub pid mx s = (mx', s') \<Longrightarrow> keeps_queue s s'"
  by (auto simp: track_qos2_def track_qos2_outbound_def keeps_defs split: if_splits)

lemma keeps_assign_alias: "assign_outbound_alias topic s = (alias, s') \<Longrightarrow> keeps_queue s s'"
  by (auto simp: assign_outbound_alias_def Let_def keeps_defs split: if_splits option.splits)

lemma keeps_delivery_alias: "delivery_alias topic s = (alias, s') \<Longrightarrow> keeps_queue s s'"
  by (auto simp: delivery_alias_def intro: keeps_assign_alias split: if_splits option.splits prod.splits)

lemma deliver_live_keeps:
  assumes "deliver_live env p sub k ds mx s = Some (ds', mx', s')"
  shows "keeps_queue s s'"
proof (cases "v5_egress_refused s (effective_qos p sub) (length (topic_as_str (pb_topic p))) (length (pb_payload p))")
  case (Some rc)
  then show ?thesis using assms by (simp add: deliver_live_def Let_def)
next
  case None
  then obtain pid s1 where 1: "(if effective_qos p sub = 0 then Some (0, s) else next_packet_id s) = Some (pid, s1)"
    using assms by (auto simp: deliver_live_def Let_def split: option.splits)
  obtain mx2 s2 where 2: "(if effective_qos p sub = 1 then track_qos1 (de_instant env) p sub pid mx s1 else (mx, s1)) = (mx2, s2)"
    by fastforce
  obtain mx3 s3 where 3: "(if effective_qos p sub = 2 then track_qos2 p sub pid mx2 s2 else (mx2, s2)) = (mx3, s3)"
    by fastforce
  obtain al s4 where 4: "delivery_alias (pb_topic p) s3 = (al, s4)" by fastforce
  have "s' = s4" using assms None 1 2 3 4 by (simp add: deliver_live_def Let_def)
  moreover have "keeps_queue s s1" using 1 keeps_next_packet_id by (auto split: if_splits)
  moreover have "keeps_queue s1 s2" using 2 keeps_track_qos1 by (auto split: if_splits)
  moreover have "keeps_queue s2 s3" using 3 keeps_track_qos2 by (auto split: if_splits)
  moreover have "keeps_queue s3 s4" using 4 by (rule keeps_delivery_alias)
  ultimately show ?thesis using keeps_queue_trans by blast
qed

text \<open>A push to the offline queue: the session otherwise, the failure counter, and success.\<close>

lemma bump_failed_simps [simp]:
  "os_persist_failed (bump_failed st) = os_persist_failed st + 1"
  "os_persist_failed (write_file f b st) = os_persist_failed st"
  "os_persist_failed (unlink_file f st) = os_persist_failed st"
  by (simp_all add: bump_failed_def write_file_def unlink_file_def)

lemma append_failures:
  assumes "append_in_tenant aio t c r st = (res, st')" and "queue_id_ok t c"
  shows "os_persist_failed st' = os_persist_failed st + (if isl res then 1 else 0)"
  using assms log_path_for_queue_file [OF assms(2)]
  by (auto simp: append_in_tenant_def Let_def split: append_io.splits if_splits)

lemma rewrite_failures:
  assumes "rewrite_in_tenant io u pid t c rs st = (res, st')" and "queue_id_ok t c" and "rs \<noteq> []"
  shows "os_persist_failed st' = os_persist_failed st + (if isl res then 1 else 0)"
  using assms log_path_for_queue_file [OF assms(2)]
  by (auto simp: rewrite_in_tenant_def Let_def split: rewrite_io.splits if_splits)

lemma push_failures:
  assumes p: "push_offline_with_limit now aio rio msg limit s st = (queued, s', st')"
    and key: "s_durable s \<Longrightarrow> queue_id_ok (offline_tenant s) (s_client_id s)"
  shows "os_persist_failed st' = os_persist_failed st + (if queued then 0 else 1)"
  by (rule push_cases [OF p]) (use key append_failures rewrite_failures in fastforce)+

lemma push_last:
  assumes p: "push_offline_with_limit now aio rio msg limit s st = (True, s', st')"
  shows "s_offline_queue s' \<noteq> [] \<and> last (s_offline_queue s') = stamped now msg"
  by (rule push_cases [OF p]) simp_all

lemma push_other_file:
  assumes p: "push_offline_with_limit now aio rio msg limit s st = (queued, s', st')"
    and key: "s_durable s \<Longrightarrow> queue_id_ok (offline_tenant s) (s_client_id s)"
    and other: "queue_id_ok t c" "(t, c) \<noteq> (offline_tenant s, s_client_id s)"
  shows "queue_of st' t c = queue_of st t c \<and> whole_file st' t c = whole_file st t c"
proof -
  let ?k = "(offline_tenant s, s_client_id s)"
  have a: "queue_of st1 t c = queue_of st t c \<and> whole_file st1 t c = whole_file st t c"
    if "s_durable s" "append_in_tenant aio (offline_tenant s) (s_client_id s) r st = (res, st1)" for r res st1 st
    using qs.append_frame [of ?k "(t, c)" aio r st res st1] that key other by auto
  have w: "queue_of st2 t c = queue_of st1 t c \<and> whole_file st2 t c = whole_file st1 t c"
    if "s_durable s" "rewrite_in_tenant (fst rio) (fst (snd rio)) (snd (snd rio)) (offline_tenant s) (s_client_id s) rs st1 = (res, st2)"
    for rs res st1 st2
    using qs.rewrite_frame [of ?k "(t, c)" rio rs st1 res st2] that key other by (cases rio) auto
  from p show ?thesis
  proof (cases rule: push_cases)
    case (rewritten st1 res)
    from a [OF rewritten(1,4)] w [OF rewritten(1,5)] show ?thesis by simp
  qed (use a in blast)+
qed

section \<open>Sent frames\<close>

lemma user_pairs_length:
  "list_all user_pair_ok us \<Longrightarrow> length (concat (map user_pair_bytes us)) \<le> 2052 * length us"
  by (induction us) (auto simp: user_pair_ok_def user_pair_bytes_def MAX_PUBLISH_V5_STRING_def)

text \<open>
  The frame of a publish to one subscription, up to its packet identifier and topic alias. It can be
  built when its metadata (topic, properties, subscription identifier) has at most 65535 bytes and the
  payload less than \<open>2 ^ 32\<close>; otherwise nothing is sent.
\<close>

definition frame_for :: "publication \<Rightarrow> subscription \<Rightarrow> u64 \<Rightarrow> broker_frame \<Rightarrow> bool" where
  "frame_for p sub k f \<longleftrightarrow> (\<exists>pid al.
     encode_publish_out_full_with_props k (topic_as_str (pb_topic p)) pid (effective_qos p sub) (delivered_retain p sub)
       False al (sub_subscription_id sub) (pb_payload p) (pb_props p) = Some f)"

definition encodable :: "publication \<Rightarrow> subscription \<Rightarrow> bool" where
  "encodable p sub \<longleftrightarrow>
     encode_publish_out_full_with_props 0 (topic_as_str (pb_topic p)) 0 (effective_qos p sub) (delivered_retain p sub)
       False 0 (sub_subscription_id sub) (pb_payload p) (pb_props p) \<noteq> None"

lemma ok_frame_None: "ok_frame (frame_new PublishOut k 0 md pl) = None \<longleftrightarrow> \<not> (length md \<le> 65535 \<and> length pl < 2 ^ 32)"
  by (auto simp: ok_frame_def frame_new_def not_le not_less)

lemma alias_length [simp]: "length (encode_topic_alias a) = 2"
  by (simp add: encode_topic_alias_def)

lemma head_length: "length (publish_head topic pid q r d) = length topic + 7"
  by (simp add: publish_head_def as_bytes_def)

text \<open>Whether the frame can be built does not depend on connection, packet identifier and alias.\<close>

lemma encode_full_None:
  "encode_publish_out_full k topic pid q r d al sid pl = None \<longleftrightarrow>
     \<not> (length topic + 9 + (if sid = 0 \<or> sid > MAX_SUBSCRIPTION_ID then 0 else 4) \<le> 65535 \<and> length pl < 2 ^ 32)"
  unfolding encode_publish_out_full_def encode_publish_out_with_dup_def encode_publish_out_def
  by (simp add: ok_frame_None head_length)

lemma encode_props_None:
  "encode_publish_out_full_with_props k topic pid q r d al sid pl v5 = None \<longleftrightarrow>
     encode_publish_out_full_with_props k' topic pid' q r d al' sid pl v5 = None"
  unfolding encode_publish_out_full_with_props_def Let_def
  by (simp add: encode_full_None ok_frame_None head_length)

lemma encodable_frame:
  assumes "encodable p sub"
  obtains f where "encode_publish_out_full_with_props k (topic_as_str (pb_topic p)) pid (effective_qos p sub)
    (delivered_retain p sub) False al (sub_subscription_id sub) (pb_payload p) (pb_props p) = Some f" "frame_for p sub k f"
proof -
  have "encode_publish_out_full_with_props k (topic_as_str (pb_topic p)) pid (effective_qos p sub)
    (delivered_retain p sub) False al (sub_subscription_id sub) (pb_payload p) (pb_props p) \<noteq> None"
    using assms unfolding encodable_def encode_props_None [of 0 _ 0 _ _ _ 0 _ _ _ k pid al] .
  then obtain f where "encode_publish_out_full_with_props k (topic_as_str (pb_topic p)) pid (effective_qos p sub)
    (delivered_retain p sub) False al (sub_subscription_id sub) (pb_payload p) (pb_props p) = Some f" by blast
  with that show ?thesis unfolding frame_for_def by blast
qed

text \<open>A topic of up to 32000 bytes leaves room for the largest properties.\<close>

lemma encodable_short_topic:
  assumes "length (topic_as_str (pb_topic p)) \<le> 32000" and "length (pb_payload p) < 2 ^ 32"
  shows "encodable p sub"
proof -
  have users: "length (concat (map user_pair_bytes us)) \<le> 32832" if "list_all user_pair_ok us" "length us \<le> 16" for us
    using user_pairs_length [OF that(1)] that(2) by linarith
  show ?thesis
    using assms users [of "pv_users (pb_props p)"]
    unfolding encodable_def encode_publish_out_full_with_props_def Let_def
    by (auto simp: encode_full_None ok_frame_None head_length MAX_PUBLISH_V5_USERS_def simp del: not_None_eq)
qed

lemma deliver_live_sends:
  assumes "deliver_live env p sub k ds mx s = Some (ds', mx', s')"
  shows "\<exists>new. ds' = ds @ new"
    and "encodable p sub \<Longrightarrow> v5_egress_refused s (effective_qos p sub) (length (topic_as_str (pb_topic p))) (length (pb_payload p)) = None
      \<Longrightarrow> \<exists>f. ds' = ds @ [(k, f)] \<and> frame_for p sub k f"
proof -
  show "\<exists>new. ds' = ds @ new"
    using assms by (auto simp: deliver_live_def Let_def push_delivery_def split: option.splits prod.splits)
  assume enc: "encodable p sub"
    and None: "v5_egress_refused s (effective_qos p sub) (length (topic_as_str (pb_topic p))) (length (pb_payload p)) = None"
  obtain pid s1 where 1: "(if effective_qos p sub = 0 then Some (0, s) else next_packet_id s) = Some (pid, s1)"
    using None assms by (auto simp: deliver_live_def Let_def split: option.splits)
  obtain mx2 s2 where 2: "(if effective_qos p sub = 1 then track_qos1 (de_instant env) p sub pid mx s1 else (mx, s1)) = (mx2, s2)"
    by fastforce
  obtain mx3 s3 where 3: "(if effective_qos p sub = 2 then track_qos2 p sub pid mx2 s2 else (mx2, s2)) = (mx3, s3)"
    by fastforce
  obtain al s4 where 4: "delivery_alias (pb_topic p) s3 = (al, s4)" by fastforce
  have d: "ds' = push_delivery k (encode_publish_out_full_with_props k (topic_as_str (pb_topic p)) pid
      (effective_qos p sub) (delivered_retain p sub) False al (sub_subscription_id sub) (pb_payload p) (pb_props p)) ds"
    using assms None 1 2 3 4 by (simp add: deliver_live_def Let_def)
  from enc obtain f where "encode_publish_out_full_with_props k (topic_as_str (pb_topic p)) pid (effective_qos p sub)
    (delivered_retain p sub) False al (sub_subscription_id sub) (pb_payload p) (pb_props p) = Some f" "frame_for p sub k f"
    by (rule encodable_frame)
  with d show "\<exists>f. ds' = ds @ [(k, f)] \<and> frame_for p sub k f" by (simp add: push_delivery_def)
qed

section \<open>One subscription\<close>

abbreviation of_sub :: "'f manager \<Rightarrow> subscription \<Rightarrow> session option" where
  "of_sub m sub \<equiv> sess m (sub_tenant sub) (sub_client_id sub)"

definition suppressed :: "publication \<Rightarrow> subscription \<Rightarrow> bool" where
  "suppressed p sub \<longleftrightarrow> sub_no_local sub \<and> pb_publisher p = Some (sub_client_id sub)"

definition queued_form :: "publication \<Rightarrow> subscription \<Rightarrow> queued_message" where
  "queued_form p sub = \<lparr>qm_topic = pb_topic p, qm_qos = qos_or (effective_qos p sub) AtMostOnce,
     qm_retain = delivered_retain p sub, qm_payload = pb_payload p, qm_publish_at_ms = None\<rparr>"

definition live_conn :: "session \<Rightarrow> u64 option" where
  "live_conn s = (if s_connected s then s_conn_id s else None)"

lemma deliver_one_cases:
  assumes d: "deliver_one env p sub (ds, mx, m, st) = Some (ds', mx', m', st')"
  obtains
    (own) "suppressed p sub" "m' = m" "st' = st" "ds' = ds"
  | (unknown) "\<not> suppressed p sub" "of_sub m sub = None" "m' = m" "st' = st"
      "ds' = push_delivery (sub_conn_id sub)
        (encode_publish_out_full_with_props (sub_conn_id sub) (topic_as_str (pb_topic p))
          (if effective_qos p sub = 0 then 0 else 1) (effective_qos p sub) (delivered_retain p sub) False 0
          (sub_subscription_id sub) (pb_payload p) (pb_props p)) ds"
  | (live) a s s' k where "\<not> suppressed p sub" "get_in_tenant m (sub_tenant sub) (sub_client_id sub) = Some a"
      "s = deref m a" "live_conn s = Some k" "deliver_live (env sub) p sub k ds mx s = Some (ds', mx', s')"
      "m' = with_session a (\<lambda>_. s') m" "st' = st"
  | (dropped) a where "\<not> suppressed p sub" "get_in_tenant m (sub_tenant sub) (sub_client_id sub) = Some a"
      "live_conn (deref m a) = None" "drops_state_at_disconnect (deref m a)"
      "m' = with_session a (\<lambda>_. deref m a) m" "st' = st" "ds' = ds"
  | (queued) a s s' b where "\<not> suppressed p sub" "get_in_tenant m (sub_tenant sub) (sub_client_id sub) = Some a"
      "s = deref m a" "live_conn s = None" "\<not> drops_state_at_disconnect s"
      "push_offline_with_limit (de_now (env sub)) (de_append (env sub)) (de_rewrite (env sub)) (queued_form p sub)
         (m_max_offline_queue m) s st = (b, s', st')" "m' = with_session a (\<lambda>_. s') m" "ds' = ds"
proof (cases "suppressed p sub")
  case True
  then have "m' = m" "st' = st" "ds' = ds" using d by (simp_all add: deliver_one_def suppressed_def)
  with True show ?thesis by (rule own)
next
  case False
  note ns = this
  show ?thesis
  proof (cases "get_in_tenant m (sub_tenant sub) (sub_client_id sub)")
    case None
    with d ns show ?thesis by (intro unknown) (auto simp: deliver_one_def suppressed_def Let_def sess_def)
  next
    case (Some a)
    note g = this
    show ?thesis
    proof (cases "live_conn (deref m a)")
      case None
      then have lc: "\<not> (s_connected (deref m a) \<and> s_conn_id (deref m a) \<noteq> None)"
        by (auto simp: live_conn_def split: if_splits)
      obtain mx1 s1 st1 where dd: "deliver_detached (env sub) p sub (m_max_offline_queue m) mx (deref m a) st = (mx1, s1, st1)"
        using prod_cases3 by blast
      have e: "m' = with_session a (\<lambda>_. s1) m" "st' = st1" "ds' = ds"
        using d ns Some lc dd by (auto simp: deliver_one_def suppressed_def Let_def split: bool.splits option.splits)
      show ?thesis
      proof (cases "drops_state_at_disconnect (deref m a)")
        case True
        with dd e ns Some None show ?thesis by (intro dropped [of a]) (simp_all add: deliver_detached_def)
      next
        case False
        with dd obtain b where "push_offline_with_limit (de_now (env sub)) (de_append (env sub)) (de_rewrite (env sub))
            (queued_form p sub) (m_max_offline_queue m) (deref m a) st = (b, s1, st1)"
          by (auto simp: deliver_detached_def Let_def queued_form_def split: prod.splits)
        with e ns g None False show ?thesis by (intro queued [of a "deref m a"]) simp_all
      qed
    next
      case (Some k)
      then have "s_connected (deref m a)" "s_conn_id (deref m a) = Some k"
        by (auto simp: live_conn_def split: if_splits)
      with d ns g obtain s' where "deliver_live (env sub) p sub k ds mx (deref m a) = Some (ds', mx', s')"
          "m' = with_session a (\<lambda>_. s') m" "st' = st"
        by (auto simp: deliver_one_def suppressed_def Let_def)
      then show ?thesis using live [OF ns g refl Some] by blast
    qed
  qed
qed

text \<open>What a delivery leaves alone, and the number of failed writes.\<close>

definition keeps_state :: "session \<Rightarrow> session \<Rightarrow> bool" where
  "keeps_state s s' \<longleftrightarrow> same_binding s s' \<and> s_durable s' = s_durable s \<and>
     s_protocol_version s' = s_protocol_version s \<and> drops_state_at_disconnect s' = drops_state_at_disconnect s \<and>
     s_client_receive_max s' = s_client_receive_max s \<and> s_client_max_packet_size s' = s_client_max_packet_size s"

lemma keeps_state_simps [simp]:
  "keeps_state s s" "keeps_queue s s' \<Longrightarrow> keeps_state s s'" "keeps_state s (s\<lparr>s_offline_queue := q\<rparr>)"
  by (auto simp: keeps_state_def keeps_queue_def same_binding_def drops_state_at_disconnect_def Let_def)

lemma keeps_state_trans: "keeps_state s s' \<Longrightarrow> keeps_state s' s'' \<Longrightarrow> keeps_state s s''"
  by (simp add: keeps_state_def same_binding_def)

lemma keeps_state_live [simp]: "keeps_state s s' \<Longrightarrow> live_conn s' = live_conn s"
  by (simp add: keeps_state_def same_binding_def live_conn_def)

lemma keeps_state_key: "keeps_state s s' \<Longrightarrow> offline_tenant s' = offline_tenant s \<and> s_client_id s' = s_client_id s"
  by (simp add: keeps_state_def same_binding_def offline_tenant_def)

lemma rel_keeps_trans:
  assumes "rel_option keeps_state a b" and "rel_option keeps_state b c"
  shows "rel_option keeps_state a c"
  using assms by (auto simp: option_rel_Some1 option_rel_Some2 rel_option_iff split: option.splits intro: keeps_state_trans)

definition keys_ok :: "'f manager \<Rightarrow> bool" where
  "keys_ok m \<longleftrightarrow> (\<forall>t c s. sess m t c = Some s \<and> s_durable s \<longrightarrow> queue_id_ok (offline_tenant s) (s_client_id s))"

definition files_ok :: "'f manager \<Rightarrow> offline_store \<Rightarrow> bool" where
  "files_ok m st \<longleftrightarrow> (\<forall>t c s. sess m t c = Some s \<and> s_durable s \<longrightarrow> file_holds s st (s_offline_queue s))"

definition has_copy :: "publication \<Rightarrow> session \<Rightarrow> bool" where
  "has_copy p s \<longleftrightarrow> s_offline_queue s \<noteq> [] \<and> qm_topic (last (s_offline_queue s)) = pb_topic p
     \<and> qm_payload (last (s_offline_queue s)) = pb_payload p"

lemma deliver_one_frame:
  assumes d: "deliver_one env p sub (ds, mx, m, st) = Some (ds', mx', m', st')" and ok: "manager_ok m"
  shows "manager_ok m' \<and> rel_option keeps_state (sess m t c) (sess m' t c)
    \<and> ((t, c) \<noteq> (sub_tenant sub, sub_client_id sub) \<longrightarrow> sess m' t c = sess m t c)"
proof -
  note h = manager_okD(1) [OF ok]
  have r: "rel_option keeps_state x x" for x by (rule option.rel_refl) simp
  have w: "manager_ok (with_session a (\<lambda>_. s') m) \<and> rel_option keeps_state (sess m t c) (sess (with_session a (\<lambda>_. s') m) t c)
      \<and> ((t, c) \<noteq> (sub_tenant sub, sub_client_id sub) \<longrightarrow> sess (with_session a (\<lambda>_. s') m) t c = sess m t c)"
    if "get_in_tenant m (sub_tenant sub) (sub_client_id sub) = Some a" "keeps_state (deref m a) s'" for a s'
  proof -
    have "of_sub m sub = Some (deref m a)" using that(1) by (simp add: sess_def)
    moreover have "same_binding (deref m a) s'" using that(2) by (simp add: keeps_state_def)
    ultimately show ?thesis using manager_ok_with_session [OF ok that(1), of "\<lambda>_. s'"] that(2) r
      by (auto simp: sess_with_session [OF h that(1)])
  qed
  from d show ?thesis
  proof (cases rule: deliver_one_cases)
    case (live a s s' k)
    with w [of a s'] deliver_live_keeps show ?thesis by auto
  next
    case (queued a s s' b)
    with w [of a s'] push_keeps show ?thesis by fastforce
  qed (use ok r w in auto)
qed

lemma sess_tenant:
  assumes "manager_ok m" and "sess m t c = Some s"
  shows "offline_tenant s = t" "s_client_id s = c"
  using manager_okD(2) [OF assms] by (auto simp: session_ok_def offline_tenant_def)

lemma queued_files:
  assumes ok: "manager_ok m" and keys: "keys_ok m" and fl: "files_ok m st" and s: "sess m t c = Some s"
    and push: "push_offline_with_limit now aio rio msg limit s st = (True, s', st')"
    and rec: "record_ok (to_record (stamped now msg))"
  shows "s_durable s' \<Longrightarrow> file_holds s' st' (s_offline_queue s')"
    and "sess m t' c' = Some s2 \<Longrightarrow> (t', c') \<noteq> (t, c) \<Longrightarrow> s_durable s2 \<Longrightarrow> file_holds s2 st' (s_offline_queue s2)"
proof -
  have key: "s_durable s \<Longrightarrow> queue_id_ok (offline_tenant s) (s_client_id s)" using keys s by (auto simp: keys_ok_def)
  show "file_holds s' st' (s_offline_queue s')" if "s_durable s'"
  proof -
    have "s_durable s" using push_keeps [OF push] that by auto
    then show ?thesis
      using push_file_ahead [OF _ rec push, of "[]"] key fl s by (auto simp: session_key_ok_def files_ok_def)
  qed
  assume s2: "sess m t' c' = Some s2" "(t', c') \<noteq> (t, c)" "s_durable s2"
  have "queue_id_ok (offline_tenant s2) (s_client_id s2)" using keys s2 by (auto simp: keys_ok_def)
  moreover have "(offline_tenant s2, s_client_id s2) \<noteq> (offline_tenant s, s_client_id s)"
    using sess_tenant [OF ok s] sess_tenant [OF ok s2(1)] s2(2) by simp
  ultimately show "file_holds s2 st' (s_offline_queue s2)"
    using push_other_file [OF push key] fl s2 by (auto simp: files_ok_def file_holds_def)
qed

lemma deliver_one_store:
  assumes d: "deliver_one env p sub (ds, mx, m, st) = Some (ds', mx', m', st')"
    and ok: "manager_ok m" and keys: "keys_ok m"
  obtains (kept) "os_persist_failed st' = os_persist_failed st"
      "record_ok (to_record (stamped (de_now (env sub)) (queued_form p sub))) \<Longrightarrow> files_ok m st \<Longrightarrow> files_ok m' st'"
      "\<And>t c s. sess m t c = Some s \<Longrightarrow> has_copy p s \<Longrightarrow> \<exists>s'. sess m' t c = Some s' \<and> has_copy p s'"
      "\<And>s. of_sub m sub = Some s \<Longrightarrow> \<not> suppressed p sub \<Longrightarrow> live_conn s = None \<Longrightarrow> \<not> drops_state_at_disconnect s \<Longrightarrow>
        \<exists>s'. of_sub m' sub = Some s' \<and> has_copy p s'"
  | (failed) "os_persist_failed st' = os_persist_failed st + 1"
proof -
  note h = manager_okD(1) [OF ok]
  have same: ?thesis if "st' = st" "\<And>t c. rel_option keeps_queue (sess m t c) (sess m' t c)"
    "\<And>s. of_sub m sub = Some s \<Longrightarrow> suppressed p sub \<or> live_conn s \<noteq> None \<or> drops_state_at_disconnect s"
  proof (rule kept)
    show "\<exists>s'. sess m' t c = Some s' \<and> has_copy p s'" if "sess m t c = Some s" "has_copy p s" for t c s
      using \<open>\<And>t c. rel_option keeps_queue (sess m t c) (sess m' t c)\<close> [of t c] that
      by (auto simp: option_rel_Some1 has_copy_def keeps_queue_def)
    show "files_ok m' st'" if "files_ok m st"
      unfolding files_ok_def
    proof (intro allI impI, elim conjE)
      fix t c s' assume s': "sess m' t c = Some s'" "s_durable s'"
      then obtain s where "sess m t c = Some s" "keeps_queue s s'"
        using \<open>\<And>t c. rel_option keeps_queue (sess m t c) (sess m' t c)\<close> [of t c] by (auto simp: option_rel_Some2)
      with s' \<open>files_ok m st\<close> \<open>st' = st\<close> show "file_holds s' st' (s_offline_queue s')"
        by (auto simp: files_ok_def file_holds_def keeps_queue_def same_binding_def)
    qed
  qed (use that in auto)
  have r: "rel_option keeps_queue x x" for x by (rule option.rel_refl) simp
  have w: "rel_option keeps_queue (sess m t c) (sess (with_session a (\<lambda>_. s') m) t c)"
    if "get_in_tenant m (sub_tenant sub) (sub_client_id sub) = Some a" "keeps_queue (deref m a) s'" for a s' t c
  proof -
    have "of_sub m sub = Some (deref m a)" using that(1) by (simp add: sess_def)
    then show ?thesis using that(2) r by (auto simp: sess_with_session [OF h that(1)])
  qed
  from d show ?thesis
  proof (cases rule: deliver_one_cases)
    case (live a s s' k)
    then show ?thesis using same w [OF live(2)] deliver_live_keeps [OF live(5)] by (auto simp: sess_def)
  next
    case (dropped a)
    then show ?thesis using same w [OF dropped(2)] by (auto simp: sess_def)
  next
    case (queued a s s' b)
    have s: "of_sub m sub = Some s" using queued(2,3) by (simp add: sess_def)
    have key: "s_durable s \<Longrightarrow> queue_id_ok (offline_tenant s) (s_client_id s)" using keys s by (auto simp: keys_ok_def)
    note pf = push_failures [OF queued(6) key]
    have view: "sess m' t c = (if t = sub_tenant sub \<and> c = sub_client_id sub then Some s' else sess m t c)" for t c
      using queued(7) by (simp add: sess_with_session [OF h queued(2)])
    show ?thesis
    proof (cases b)
      case False
      with pf show ?thesis by (intro failed) simp
    next
      case True
      with queued(6) have push: "push_offline_with_limit (de_now (env sub)) (de_append (env sub)) (de_rewrite (env sub))
          (queued_form p sub) (m_max_offline_queue m) s st = (True, s', st')" by simp
      have copy: "has_copy p s'"
        using push_last [OF push] by (simp add: has_copy_def stamped_def queued_form_def)
      show ?thesis
      proof (rule kept)
        show "os_persist_failed st' = os_persist_failed st" using pf True by simp
        show "\<exists>s'. sess m' t c = Some s' \<and> has_copy p s'" if "sess m t c = Some s" "has_copy p s" for t c s
          using that copy by (simp add: view)
        show "\<exists>s'. of_sub m' sub = Some s' \<and> has_copy p s'" by (simp add: view copy)
        assume rec: "record_ok (to_record (stamped (de_now (env sub)) (queued_form p sub)))" and fl: "files_ok m st"
        show "files_ok m' st'"
          using queued_files [OF ok keys fl s push rec] view by (auto simp: files_ok_def)
      qed
    qed
  qed (use same r in auto)
qed

text \<open>The connection to which a publish goes at once.\<close>

definition addressed :: "publication \<Rightarrow> 'f manager \<Rightarrow> subscription \<Rightarrow> u64 \<Rightarrow> bool" where
  "addressed p m sub k \<longleftrightarrow> \<not> suppressed p sub \<and>
     (case of_sub m sub of None \<Rightarrow> k = sub_conn_id sub | Some s \<Rightarrow> live_conn s = Some k)"

text \<open>
  A version 5 client takes the publish within its limits: a packet not above its maximum size, and
  for QoS 1 and 2 room in its receive window for \<open>n\<close> more packets. Older clients have no limits.
\<close>

definition client_accepts :: "nat \<Rightarrow> publication \<Rightarrow> subscription \<Rightarrow> session \<Rightarrow> bool" where
  "client_accepts n p sub s \<longleftrightarrow> s_protocol_version s \<noteq> 5 \<or>
     (effective_qos p sub = 0 \<or> inflight_total_len s + n \<le> unat (client_receive_maximum s)) \<and>
     (s_client_max_packet_size s = 0 \<or>
      length (topic_as_str (pb_topic p)) + length (pb_payload p) + V5_EGRESS_OVERHEAD_BYTES \<le> unat (s_client_max_packet_size s))"

definition accepting :: "nat \<Rightarrow> publication \<Rightarrow> 'f manager \<Rightarrow> subscription \<Rightarrow> bool" where
  "accepting n p m sub \<longleftrightarrow> encodable p sub \<and> (case of_sub m sub of None \<Rightarrow> True | Some s \<Rightarrow> client_accepts n p sub s)"

text \<open>The subscriptions of one client in a list.\<close>

definition own_count :: "subscription \<Rightarrow> subscription list \<Rightarrow> nat" where
  "own_count sub subs =
     length (filter (\<lambda>x. sub_tenant x = sub_tenant sub \<and> sub_client_id x = sub_client_id sub) subs)"

lemma accepts_not_refused:
  assumes "client_accepts (Suc n) p sub s"
  shows "v5_egress_refused s (effective_qos p sub) (length (topic_as_str (pb_topic p))) (length (pb_payload p)) = None"
proof -
  have "unat (max (client_receive_maximum s) 1) = unat (client_receive_maximum s)"
    by (simp add: client_receive_maximum_def)
  moreover have "effective_qos p sub = 0 \<Longrightarrow> \<not> (effective_qos p sub = 1 \<or> effective_qos p sub = 2)" by simp
  ultimately show ?thesis using assms by (auto simp: client_accepts_def v5_egress_refused_def Let_def)
qed

lemma deliver_one_extends:
  assumes d: "deliver_one env p sub (ds, mx, m, st) = Some (ds', mx', m', st')"
  shows "\<exists>new. ds' = ds @ new"
  using d
proof (cases rule: deliver_one_cases)
  case unknown
  then show ?thesis by (auto simp: push_delivery_def split: option.splits)
next
  case (live a s s' j)
  then show ?thesis using deliver_live_sends(1) by blast
qed simp_all

lemma deliver_one_sends:
  assumes d: "deliver_one env p sub (ds, mx, m, st) = Some (ds', mx', m', st')"
    and f: "accepting (Suc n) p m sub" and k: "addressed p m sub k"
  shows "\<exists>f. (k, f) \<in> set ds' \<and> frame_for p sub k f"
proof -
  have enc: "encodable p sub" using f by (simp add: accepting_def)
  from d show ?thesis
  proof (cases rule: deliver_one_cases)
    case unknown
    from enc obtain fr where "encode_publish_out_full_with_props (sub_conn_id sub) (topic_as_str (pb_topic p))
        (if effective_qos p sub = 0 then 0 else 1) (effective_qos p sub) (delivered_retain p sub) False 0
          (sub_subscription_id sub) (pb_payload p) (pb_props p) = Some fr" "frame_for p sub (sub_conn_id sub) fr"
      by (rule encodable_frame)
    with unknown k show ?thesis by (intro exI [of _ fr]) (simp add: push_delivery_def addressed_def)
  next
    case (live a s s' j)
    have s: "of_sub m sub = Some s" using live(2,3) by (simp add: sess_def)
    with k live(4) have "j = k" by (simp add: addressed_def)
    moreover from f s accepts_not_refused [of n p sub s] have
      "v5_egress_refused s (effective_qos p sub) (length (topic_as_str (pb_topic p))) (length (pb_payload p)) = None"
      by (simp add: accepting_def)
    ultimately show ?thesis using deliver_live_sends(2) [OF live(5) enc] by auto
  qed (use k in \<open>auto simp: addressed_def sess_def\<close>)
qed

text \<open>A delivery takes at most one identifier and one place in the receive window of its session.\<close>

definition held_ids :: "session \<Rightarrow> nat" where
  "held_ids s = inflight_total_len s + length (s_qos2_outbound s)"

lemma held_next_packet_id:
  "next_packet_id s = Some (pid, s') \<Longrightarrow> held_ids s' = held_ids s \<and> inflight_total_len s' = inflight_total_len s"
  by (auto dest: next_packet_id_result simp: held_ids_def inflight_total_len_def)

lemma held_track_qos1:
  "track_qos1 i p sub pid mx s = (mx', s') \<Longrightarrow>
     held_ids s' \<le> held_ids s + 1 \<and> inflight_total_len s' \<le> inflight_total_len s + 1"
  by (auto simp: track_qos1_def track_inflight_or_spill_def held_ids_def inflight_total_len_def split: if_splits)

lemma held_track_qos2:
  "track_qos2 p sub pid mx s = (mx', s') \<Longrightarrow>
     held_ids s' \<le> held_ids s + 1 \<and> inflight_total_len s' \<le> inflight_total_len s + 1"
  by (auto simp: track_qos2_def track_qos2_outbound_def held_ids_def inflight_total_len_def split: if_splits)

lemma held_delivery_alias:
  "delivery_alias topic s = (alias, s') \<Longrightarrow> held_ids s' = held_ids s \<and> inflight_total_len s' = inflight_total_len s"
  by (auto simp: delivery_alias_def assign_outbound_alias_def Let_def held_ids_def inflight_total_len_def
      split: if_splits option.splits prod.splits)

lemma deliver_live_held:
  assumes "deliver_live env p sub k ds mx s = Some (ds', mx', s')"
  shows "held_ids s' \<le> held_ids s + 1 \<and> inflight_total_len s' \<le> inflight_total_len s + 1"
proof (cases "v5_egress_refused s (effective_qos p sub) (length (topic_as_str (pb_topic p))) (length (pb_payload p))")
  case (Some rc)
  then show ?thesis using assms by (simp add: deliver_live_def Let_def)
next
  case None
  let ?q = "effective_qos p sub"
  obtain pid s1 where 1: "(if ?q = 0 then Some (0, s) else next_packet_id s) = Some (pid, s1)"
    using None assms by (auto simp: deliver_live_def Let_def split: option.splits)
  obtain mx2 s2 where 2: "(if ?q = 1 then track_qos1 (de_instant env) p sub pid mx s1 else (mx, s1)) = (mx2, s2)" by fastforce
  obtain mx3 s3 where 3: "(if ?q = 2 then track_qos2 p sub pid mx2 s2 else (mx2, s2)) = (mx3, s3)" by fastforce
  obtain al s4 where 4: "delivery_alias (pb_topic p) s3 = (al, s4)" by fastforce
  have "s' = s4" using assms None 1 2 3 4 by (simp add: deliver_live_def Let_def)
  moreover have "held_ids s1 = held_ids s \<and> inflight_total_len s1 = inflight_total_len s"
    using 1 held_next_packet_id by (auto split: if_splits)
  moreover have "held_ids s3 \<le> held_ids s1 + 1 \<and> inflight_total_len s3 \<le> inflight_total_len s1 + 1"
    using 2 3 held_track_qos1 held_track_qos2 by (cases "?q = 1") (auto split: if_splits)
  ultimately show ?thesis using held_delivery_alias [OF 4] by simp
qed

lemma deliver_one_held:
  assumes d: "deliver_one env p sub (ds, mx, m, st) = Some (ds', mx', m', st')" and ok: "manager_ok m"
    and s': "sess m' t c = Some s'"
  obtains s where "sess m t c = Some s" "held_ids s' \<le> held_ids s + 1"
    "inflight_total_len s' \<le> inflight_total_len s + (if (t, c) = (sub_tenant sub, sub_client_id sub) then 1 else 0)"
proof -
  note h = manager_okD(1) [OF ok] and found = that
  have w: thesis if g: "get_in_tenant m (sub_tenant sub) (sub_client_id sub) = Some a"
      "held_ids s1 \<le> held_ids (deref m a) + 1" "inflight_total_len s1 \<le> inflight_total_len (deref m a) + 1"
      "m' = with_session a (\<lambda>_. s1) m" for a s1
  proof (cases "(t, c) = (sub_tenant sub, sub_client_id sub)")
    case True
    then have "s' = s1" using s' by (simp add: g(4) sess_with_session [OF h g(1)])
    with True g show ?thesis by (intro found [of "deref m a"]) (simp_all add: sess_def)
  next
    case False
    then have "sess m t c = Some s'" using s' by (auto simp: g(4) sess_with_session [OF h g(1)] split: if_splits)
    with False show ?thesis by (intro found [of s']) simp_all
  qed
  from d show ?thesis
  proof (cases rule: deliver_one_cases)
    case (live a s s1 k)
    with w [of a s1] deliver_live_held [OF live(5)] show ?thesis by simp
  next
    case (queued a s s1 b)
    then have "held_ids s1 = held_ids s \<and> inflight_total_len s1 = inflight_total_len s"
      using push_keeps [OF queued(6)] by (auto simp: held_ids_def inflight_total_len_def)
    with w [of a s1] queued show ?thesis by simp
  next
    case (dropped a)
    with w [of a "deref m a"] show ?thesis by simp
  qed (use that s' in simp_all)
qed

section \<open>The whole fan-out\<close>

definition waits :: "publication \<Rightarrow> subscription \<Rightarrow> session \<Rightarrow> bool" where
  "waits p sub s \<longleftrightarrow> \<not> suppressed p sub \<and> live_conn s = None \<and> \<not> drops_state_at_disconnect s"

lemma keeps_state_waits: "keeps_state s s' \<Longrightarrow> waits p sub s' = waits p sub s"
  by (simp add: waits_def) (simp add: keeps_state_def)

lemma addressed_kept:
  assumes "rel_option keeps_state (of_sub m sub) (of_sub m' sub)"
  shows "addressed p m' sub k = addressed p m sub k"
  using assms
  by (cases "of_sub m sub"; cases "of_sub m' sub")
    (simp_all add: addressed_def keeps_state_def same_binding_def live_conn_def)

text \<open>Serving another subscription uses up at most one place of the receive window.\<close>

lemma accepting_kept:
  assumes d: "deliver_one env p sub1 (ds, mx, m, st) = Some (ds', mx', m', st')" and ok: "manager_ok m"
    and a: "accepting (own_count sub (sub1 # subs)) p m sub"
  shows "accepting (own_count sub subs) p m' sub"
proof (cases "of_sub m' sub")
  case None
  with a show ?thesis by (simp add: accepting_def)
next
  case (Some s')
  obtain s where s: "of_sub m sub = Some s" "inflight_total_len s' \<le> inflight_total_len s
      + (if (sub_tenant sub, sub_client_id sub) = (sub_tenant sub1, sub_client_id sub1) then 1 else 0)"
    by (rule deliver_one_held [OF d ok Some])
  have k: "keeps_state s s'"
    using deliver_one_frame [OF d ok, of "sub_tenant sub" "sub_client_id sub"] s(1) Some by simp
  have n: "own_count sub (sub1 # subs) = own_count sub subs
      + (if (sub_tenant sub, sub_client_id sub) = (sub_tenant sub1, sub_client_id sub1) then 1 else 0)"
    by (auto simp: own_count_def)
  have "client_accepts (own_count sub (sub1 # subs)) p sub s" using a s(1) by (simp add: accepting_def)
  then have "client_accepts (own_count sub subs) p sub s'"
    using s(2) n k by (auto simp: client_accepts_def keeps_state_def client_receive_maximum_def)
  then show ?thesis using a Some by (simp add: accepting_def)
qed

lemma keys_ok_kept:
  assumes "\<And>t c. rel_option keeps_state (sess m t c) (sess m' t c)" and "keys_ok m"
  shows "keys_ok m'"
  unfolding keys_ok_def
proof (intro allI impI, elim conjE)
  fix t c s' assume s': "sess m' t c = Some s'" "s_durable s'"
  with assms(1) [of t c] obtain s where s: "sess m t c = Some s" "keeps_state s s'" by (auto simp: option_rel_Some2)
  then show "queue_id_ok (offline_tenant s') (s_client_id s')"
    using assms(2) s' keeps_state_key [OF s(2)] by (auto simp: keys_ok_def keeps_state_def)
qed

lemma deliver_all_Cons:
  assumes "deliver_all env p (sub # subs) (ds, mx, m, st) = Some (ds', mx', m', st')"
  obtains ds1 mx1 m1 st1 where "deliver_one env p sub (ds, mx, m, st) = Some (ds1, mx1, m1, st1)"
    "deliver_all env p subs (ds1, mx1, m1, st1) = Some (ds', mx', m', st')"
  using assms by (auto split: option.splits)

lemma deliver_all_extends: "deliver_all env p subs (ds, mx, m, st) = Some (ds', mx', m', st') \<Longrightarrow> set ds \<subseteq> set ds'"
proof (induction subs arbitrary: ds mx m st)
  case (Cons sub1 subs)
  obtain ds1 mx1 m1 st1 where d: "deliver_one env p sub1 (ds, mx, m, st) = Some (ds1, mx1, m1, st1)"
    and r: "deliver_all env p subs (ds1, mx1, m1, st1) = Some (ds', mx', m', st')"
    by (rule deliver_all_Cons [OF Cons.prems(1)])
  from deliver_one_extends [OF d] Cons.IH [OF r] show ?case by auto
qed simp

lemma deliver_all_sends:
  assumes "deliver_all env p subs (ds, mx, m, st) = Some (ds', mx', m', st')" and "manager_ok m"
    and "sub \<in> set subs" and "addressed p m sub k" and "accepting (own_count sub subs) p m sub"
  shows "\<exists>f. (k, f) \<in> set ds' \<and> frame_for p sub k f"
  using assms
proof (induction subs arbitrary: ds mx m st)
  case (Cons sub1 subs)
  obtain ds1 mx1 m1 st1 where d: "deliver_one env p sub1 (ds, mx, m, st) = Some (ds1, mx1, m1, st1)"
    and r: "deliver_all env p subs (ds1, mx1, m1, st1) = Some (ds', mx', m', st')"
    by (rule deliver_all_Cons [OF Cons.prems(1)])
  note fr = deliver_one_frame [OF d Cons.prems(2)]
  show ?case
  proof (cases "sub = sub1")
    case True
    then have "accepting (Suc (own_count sub subs)) p m sub1" using Cons.prems(5) by (simp add: own_count_def)
    from deliver_one_sends [OF d this] Cons.prems(4) True deliver_all_extends [OF r] show ?thesis by blast
  next
    case False
    have "addressed p m1 sub k" using fr Cons.prems(4) addressed_kept by blast
    with False Cons.prems(3) Cons.IH [OF r] fr accepting_kept [OF d Cons.prems(2,5)] show ?thesis by auto
  qed
qed simp

lemma deliver_all_store:
  assumes "deliver_all env p subs (ds, mx, m, st) = Some (ds', mx', m', st')"
    and "manager_ok m" and "keys_ok m"
  shows "\<exists>n\<le>length subs. os_persist_failed st' = os_persist_failed st + of_nat n \<and>
    (n = 0 \<longrightarrow>
      (\<forall>t c s. sess m t c = Some s \<and> has_copy p s \<longrightarrow> (\<exists>s'. sess m' t c = Some s' \<and> has_copy p s')) \<and>
      (\<forall>sub s. sub \<in> set subs \<and> of_sub m sub = Some s \<and> waits p sub s \<longrightarrow> (\<exists>s'. of_sub m' sub = Some s' \<and> has_copy p s'))) \<and>
    (n = 0 \<and> files_ok m st \<and> (\<forall>sub\<in>set subs. record_ok (to_record (stamped (de_now (env sub)) (queued_form p sub)))) \<longrightarrow>
      files_ok m' st')"
  using assms
proof (induction subs arbitrary: ds mx m st)
  case Nil
  then show ?case by simp
next
  case (Cons sub1 subs)
  obtain ds1 mx1 m1 st1 where d: "deliver_one env p sub1 (ds, mx, m, st) = Some (ds1, mx1, m1, st1)"
    and r: "deliver_all env p subs (ds1, mx1, m1, st1) = Some (ds', mx', m', st')"
    by (rule deliver_all_Cons [OF Cons.prems(1)])
  note fr = deliver_one_frame [OF d Cons.prems(2)]
  have keys: "keys_ok m1" using fr Cons.prems(3) keys_ok_kept by blast
  obtain n where n: "n \<le> length subs" "os_persist_failed st' = os_persist_failed st1 + of_nat n"
    and IH: "n = 0 \<Longrightarrow> files_ok m1 st1 \<Longrightarrow>
        \<forall>sub\<in>set subs. record_ok (to_record (stamped (de_now (env sub)) (queued_form p sub))) \<Longrightarrow> files_ok m' st'"
      "\<And>t c s. n = 0 \<Longrightarrow> sess m1 t c = Some s \<Longrightarrow> has_copy p s \<Longrightarrow> \<exists>s'. sess m' t c = Some s' \<and> has_copy p s'"
      "\<And>sub s. n = 0 \<Longrightarrow> sub \<in> set subs \<Longrightarrow> of_sub m1 sub = Some s \<Longrightarrow> waits p sub s \<Longrightarrow>
        \<exists>s'. of_sub m' sub = Some s' \<and> has_copy p s'"
    using Cons.IH [OF r _ keys] fr by metis
  from d Cons.prems(2,3) show ?case
  proof (cases rule: deliver_one_store)
    case kept
    show ?thesis
    proof (intro exI [of _ n] conjI impI allI; (elim conjE)?)
      show "n \<le> length (sub1 # subs)" "os_persist_failed st' = os_persist_failed st + of_nat n" using n kept(1) by simp_all
      show "files_ok m' st'" if "n = 0" "files_ok m st"
        "\<forall>sub\<in>set (sub1 # subs). record_ok (to_record (stamped (de_now (env sub)) (queued_form p sub)))"
        using kept(2) that IH(1) by simp
      assume z: "n = 0"
      show "\<exists>s'. sess m' t c = Some s' \<and> has_copy p s'" if "sess m t c = Some s" "has_copy p s" for t c s
        using kept(3) [OF that] IH(2) [OF z] by blast
      fix sub s assume sub: "sub \<in> set (sub1 # subs)" "of_sub m sub = Some s" "waits p sub s"
      show "\<exists>s'. of_sub m' sub = Some s' \<and> has_copy p s'"
      proof (cases "sub = sub1")
        case True
        with sub kept(4) [of s] IH(2) [OF z] show ?thesis by (auto simp: waits_def)
      next
        case False
        have "rel_option keeps_state (of_sub m sub) (of_sub m1 sub)" using fr by blast
        with sub obtain s1 where "of_sub m1 sub = Some s1" "keeps_state s s1" by (auto simp: option_rel_Some1)
        with sub False IH(3) [OF z] keeps_state_waits show ?thesis by auto
      qed
    qed
  next
    case failed
    then show ?thesis using n by (intro exI [of _ "Suc n"]) (simp add: algebra_simps)
  qed
qed

text \<open>
  What a fan-out owes a matched subscription: a frame to its connection, when it has one, the frame
  can be built and the client takes it; a copy at the end of its queue, when its session is away and
  keeps its state, unless a write to the store failed and was counted.
\<close>

definition served ::
  "nat \<Rightarrow> publication \<Rightarrow> 'f manager \<Rightarrow> offline_store \<Rightarrow> (u64 \<times> broker_frame) list \<Rightarrow> 'f manager \<Rightarrow> offline_store
   \<Rightarrow> subscription \<Rightarrow> bool" where
  "served n p m st ds m' st' sub \<longleftrightarrow>
     (\<forall>k. addressed p m sub k \<and> accepting n p m sub \<longrightarrow> (\<exists>f. (k, f) \<in> set ds \<and> frame_for p sub k f)) \<and>
     (\<forall>s. of_sub m sub = Some s \<and> waits p sub s \<longrightarrow>
        os_persist_failed st' \<noteq> os_persist_failed st \<or> (\<exists>s'. of_sub m' sub = Some s' \<and> has_copy p s'))"

section \<open>Completion\<close>

text \<open>A delivery takes at most one more identifier, and a free one is found.\<close>

lemma deliver_live_total:
  assumes "held_ids s < 65535"
  shows "deliver_live env p sub k ds mx s \<noteq> None"
proof -
  have "next_packet_id s \<noteq> None" using packet_id_free [of s] next_packet_id_total assms by (auto simp: held_ids_def)
  then show ?thesis by (auto simp: deliver_live_def Let_def case_prod_unfold split: option.split)
qed

lemma deliver_one_total:
  assumes "\<And>s. of_sub m sub = Some s \<Longrightarrow> held_ids s < 65535"
  shows "deliver_one env p sub (ds, mx, m, st) \<noteq> None"
proof (cases "get_in_tenant m (sub_tenant sub) (sub_client_id sub)")
  case (Some a)
  with assms have "held_ids (deref m a) < 65535" by (simp add: sess_def)
  from deliver_live_total [OF this] Some show ?thesis
    by (fastforce simp: deliver_one_def Let_def split: bool.splits option.splits prod.splits)
qed (simp add: deliver_one_def Let_def)

lemma deliver_all_total:
  assumes "manager_ok m" and "\<And>t c s. sess m t c = Some s \<Longrightarrow> held_ids s + length subs \<le> 65535"
  shows "deliver_all env p subs (ds, mx, m, st) \<noteq> None"
  using assms
proof (induction subs arbitrary: ds mx m st)
  case (Cons sub subs)
  have "held_ids s < 65535" if "of_sub m sub = Some s" for s using Cons.prems(2) [OF that] by simp
  from deliver_one_total [OF this, where env = env and p = p and ds = ds and mx = mx and st = st] obtain ds' mx' m' st'
    where d: "deliver_one env p sub (ds, mx, m, st) = Some (ds', mx', m', st')" by fastforce
  have "manager_ok m'" using deliver_one_frame [OF d Cons.prems(1)] by blast
  moreover have "held_ids s' + length subs \<le> 65535" if s': "sess m' t c = Some s'" for t c s'
  proof -
    obtain s where "sess m t c = Some s" "held_ids s' \<le> held_ids s + 1" by (rule deliver_one_held [OF d Cons.prems(1) s'])
    with Cons.prems(2) show ?thesis by fastforce
  qed
  ultimately have "deliver_all env p subs (ds', mx', m', st') \<noteq> None" by (rule Cons.IH)
  then show ?case using d by simp
qed simp

lemma deliver_all_served:
  assumes all: "deliver_all env p subs ([], mx, m, st) = Some (ds, mx', m', st')"
    and ok: "manager_ok m" "keys_ok m" and small: "\<And>t c s. sess m t c = Some s \<Longrightarrow> length subs \<le> 65535"
    and sub: "sub \<in> set subs"
  shows "served (own_count sub subs) p m st ds m' st' sub"
proof -
  obtain n where n: "n \<le> length subs" "os_persist_failed st' = os_persist_failed st + of_nat n"
    and copies: "n = 0 \<Longrightarrow> \<forall>sub s. sub \<in> set subs \<and> of_sub m sub = Some s \<and> waits p sub s \<longrightarrow>
      (\<exists>s'. of_sub m' sub = Some s' \<and> has_copy p s')"
    using deliver_all_store [OF all ok] by blast
  have "os_persist_failed st' \<noteq> os_persist_failed st" if "n \<noteq> 0" "of_sub m sub = Some s" for s
  proof -
    have "unat (of_nat n :: u64) = n" using n(1) small [OF that(2)] by (simp add: unat_of_nat)
    with that(1) show ?thesis by (auto simp: n(2))
  qed
  with copies sub deliver_all_sends [OF all ok(1) sub] show ?thesis unfolding served_def by blast
qed

section \<open>An example\<close>

definition demo_router :: "string router" where
  "demo_router = snd (run_events do_event [Subscribe (TopicFilter ''a'') sub_p] (router_new None 0))"

lemma demo_root: "r_root demo_router = TrieNode [(''a'', TrieNode [] None [] [sub_p])] None [] []"
  by (simp add: demo_router_def router_subscribe_def router_new_def sub_new_def Let_def case_prod_unfold
      MAX_SUBSCRIPTIONS_def empty_node_def insert_exact_def put_child_def replace_sub_def)

lemma demo_matched:
  "matches_in_tenant_counted (Topic ''a'') publisher DEFAULT_TENANT_ID demo_router = (([sub_p], 0), demo_router)"
  unfolding matches_in_tenant_counted_def demo_root
  by (subst match_recursive_in_tenant.simps)
    (simp add: Let_def extend_opt_def collect_terminal_def collect_in_tenant_def balance_shared_groups_def sub_new_def)

lemma demo_router_trace:
  "router_trace literal_engine [Subscribe (TopicFilter ''a'') sub_p] demo_router"
proof -
  have "accepted (TopicFilter ''a'')" by (simp add: accepted_def filter_new_def filter_validate_def)
  then show ?thesis
    using trace_events [OF trace_new, of "[Subscribe (TopicFilter ''a'') sub_p]" literal_engine None 0]
    by (simp add: demo_router_def)
qed

lemma demo_router_matches:
  "sub_p \<in> table_matches (spec_table [Subscribe (TopicFilter ''a'') sub_p]) (Topic ''a'')"
  by (auto simp: spec_table_def table_matches_def MAX_SUBSCRIPTIONS_def sub_new_def filter_matches_levels level_ok_def
      intro!: exI [of _ "''a''"])

text \<open>A durable session whose client is away, alone in its manager; the store is empty.\<close>

definition away_session :: session where
  "away_session = (session_new 0 1 ''p'' False)\<lparr>s_connected := False, s_durable := True\<rparr>"

definition away_manager :: "nat manager" where
  "away_manager = manager_new\<lparr>m_heap := [away_session], m_sessions := [(DEFAULT_TENANT_ID, [(''p'', 0)])],
     m_durable := True\<rparr>"

definition empty_store :: offline_store where
  "empty_store = \<lparr>os_files = [], os_fsync = EveryWrite, os_recovery_torn = 0, os_persist_failed = 0, os_tmp_seq = 0\<rparr>"

definition demo_env :: delivery_env where
  "demo_env = \<lparr>de_now = 5, de_instant = 0, de_append = App_ok, de_rewrite = (Rw_ok, True, 1)\<rparr>"

definition demo_pub :: publication where
  "demo_pub = \<lparr>pb_topic = Topic ''a'', pb_qos = AtLeastOnce, pb_retain = False, pb_payload = [7],
     pb_publisher = Some ''q'', pb_props = props_default\<rparr>"

definition demo_frame :: broker_frame where
  "demo_frame = \<lparr>f_header = header_new PublishIn 1 1 0 1, f_metadata = [], f_payload = [7]\<rparr>"

definition zero_metrics :: metrics where
  "zero_metrics = \<lparr>mx_messages_dropped = 0, mx_tenant_mismatch_dropped = 0, mx_inflight_dropped = 0,
     mx_inflight_spilled = 0, mx_inflight_spill_evicted = 0, mx_inflight_spill_replayed = 0,
     mx_offline_queue_evicted = 0, mx_detached_clean_dropped = 0, mx_publish_sent = 0, mx_delivered = 0,
     mx_bytes_sent = 0\<rparr>"

lemma away_sess:
  "sess away_manager t c = (if t = DEFAULT_TENANT_ID \<and> c = ''p'' then Some away_session else None)"
  by (simp add: sess_def get_in_tenant_def away_manager_def lookup2_def deref_def)

lemma away_live: "live (sess away_manager) = {}"
  by (auto simp: live_def away_sess away_session_def)

lemma away_manager_ok: "manager_ok away_manager"
  unfolding manager_ok_def away_live
  by (auto simp: away_sess index_ok_def session_ok_def away_session_def session_new_def handles_ok_def keys2_ok_def)
    (auto simp: away_manager_def manager_new_def new_with_all_limits_def get_in_tenant_def lookup2_def split: if_splits)

lemma away_files: "keys_ok away_manager" "files_ok away_manager empty_store"
  by (auto simp: keys_ok_def files_ok_def away_sess away_session_def session_new_def offline_tenant_def
      queue_id_ok_def valid_str_def DEFAULT_TENANT_ID_def file_holds_def whole_file_def queue_of_def empty_store_def
      file_bytes_def scan_file_def Let_def scan_loop.simps)

lemma demo_record_ok: "record_ok (to_record (stamped (de_now demo_env) (queued_form demo_pub sub)))"
  by (simp add: record_ok_def to_record_def stamped_def queued_form_def demo_env_def demo_pub_def Let_def valid_str_def
      MAX_TOPIC_BYTES_def MAX_PAYLOAD_BYTES_def NO_TIMESTAMP_def)

section \<open>Claims\<close>

text \<open>
  C19. The fan-out of a publish completes and serves every matched subscription: when no session
  holds so many unacknowledged packet identifiers that the publish could use up the remaining ones of
  the 65535, the search for a free identifier ends for every matched subscription. Each one that
  does not suppress the publisher's own messages is served: with a live connection, or without a
  session, it is sent the frame of the publish, unless the frame cannot be built (metadata beyond
  65535 bytes) or is beyond the limits of a version 5 client; when its session is away and keeps its
  state, the message is the last one of the queue, unless a write to the store failed and was counted.
\<close>

theorem fan_out_completes:
  assumes "manager_ok m" and "keys_ok m"
    and "\<forall>t c s. sess m t c = Some s \<longrightarrow>
      held_ids s + length (fst (fst (matches_in_tenant_counted (pb_topic p) (pb_publisher p) tenant r))) \<le> 65535"
  shows "\<exists>ds r' mx' m' st'.
    build_downlink_frames_with_publisher_and_props env p tenant r mx m st = Some (ds, r', mx', m', st') \<and>
    (\<forall>sub\<in>set (fst (fst (matches_in_tenant_counted (pb_topic p) (pb_publisher p) tenant r))).
       served (own_count sub (fst (fst (matches_in_tenant_counted (pb_topic p) (pb_publisher p) tenant r)))) p m st ds m' st' sub)"
proof -
  define matched where "matched = fst (fst (matches_in_tenant_counted (pb_topic p) (pb_publisher p) tenant r))"
  note fold = matched_def [symmetric]
  have small: "length matched \<le> 65535" if "sess m t c = Some s" for t c s using assms(3) that by (fastforce simp: fold)
  have "deliver_all env p matched ([], mx1, m, st) \<noteq> None" for mx1
    using assms by (intro deliver_all_total) (auto simp: fold)
  then obtain ds r' mx1 mx' m' st' where
      "build_downlink_frames_with_publisher_and_props env p tenant r mx m st = Some (ds, r', mx', m', st')"
      and all: "deliver_all env p matched ([], mx1, m, st) = Some (ds, mx', m', st')"
    by (fastforce simp: build_downlink_frames_with_publisher_and_props_def Let_def case_prod_unfold matched_def)
  moreover have "served (own_count sub matched) p m st ds m' st' sub" if "sub \<in> set matched" for sub
    using all assms(1,2) small that by (rule deliver_all_served)
  ultimately show ?thesis unfolding fold by blast
qed

theorem fan_out_completes_witness:
  "\<exists>ds r' mx' m' st'. build_downlink_frames_with_publisher_and_props (\<lambda>_. demo_env) demo_pub DEFAULT_TENANT_ID
     demo_router zero_metrics away_manager empty_store = Some (ds, r', mx', m', st')
   \<and> served 1 demo_pub away_manager empty_store ds m' st' sub_p"
proof -
  have "\<forall>t c s. sess away_manager t c = Some s \<longrightarrow> held_ids s + length (fst (fst (matches_in_tenant_counted
      (pb_topic demo_pub) (pb_publisher demo_pub) DEFAULT_TENANT_ID demo_router))) \<le> 65535"
    by (simp add: away_sess demo_matched demo_pub_def held_ids_def inflight_total_len_def away_session_def session_new_def)
  from fan_out_completes [OF away_manager_ok away_files(1) this, of "\<lambda>_. demo_env" zero_metrics empty_store]
  show ?thesis by (simp add: demo_matched demo_pub_def own_count_def)
qed

text \<open>
  C18. An acknowledged publish is safe. The router holds the table of a run, the file of every durable
  session holds exactly its queue, the message can be stored as a record, the failure counter does not
  wrap, and the publisher of a QoS 1 message is sent the acknowledgement after the fan-out. Then take
  any plain subscription of the publisher's tenant whose filter matches and that does not suppress
  the publisher's own messages. If its session is away and keeps state, the message is the last one
  of the session's queue and, when the session is durable, the queue file holds the whole queue. If it
  has a live connection, or no session, the frame of the publish goes to its connection, unless the
  frame cannot be built (metadata beyond 65535 bytes) or, with a version 5 client, the packet is above
  the client's maximum size or its receive window has no room for the publish.
\<close>

theorem acked_publish_safe:
  assumes tr: "router_trace rx es r"
    and run: "build_downlink_frames_with_publisher_and_props env p tenant r mx m st = Some (ds, r', mx', m', st')"
    and ack: "publish_ack f pid AtLeastOnce (Some (os_persist_failed st)) (Some st') = Some reply"
    and ok: "manager_ok m" "keys_ok m" "files_ok m st"
    and msg: "\<forall>sub. record_ok (to_record (stamped (de_now (env sub)) (queued_form p sub)))"
    and small: "unat (os_persist_failed st)
      + length (fst (fst (matches_in_tenant_counted (pb_topic p) (pb_publisher p) tenant r))) < 2 ^ 64"
    and sub: "sub \<in> table_matches (spec_table es) (pb_topic p)" "sub_tenant sub = tenant" "sub_group sub = None"
  shows "(case sess m tenant (sub_client_id sub) of
      Some s \<Rightarrow> waits p sub s \<longrightarrow> (\<exists>s'. sess m' tenant (sub_client_id sub) = Some s' \<and> has_copy p s' \<and>
        (s_durable s' \<longrightarrow> file_holds s' st' (s_offline_queue s')))
    | None \<Rightarrow> True) \<and>
    (addressed p m sub k \<and>
     accepting (own_count sub (fst (fst (matches_in_tenant_counted (pb_topic p) (pb_publisher p) tenant r)))) p m sub \<longrightarrow>
     (\<exists>f. (k, f) \<in> set ds \<and> frame_for p sub k f))"
proof -
  define matched where "matched = fst (fst (matches_in_tenant_counted (pb_topic p) (pb_publisher p) tenant r))"
  obtain mx1 where all: "deliver_all env p matched ([], mx1, m, st) = Some (ds, mx', m', st')"
    using run by (auto simp: build_downlink_frames_with_publisher_and_props_def Let_def case_prod_unfold matched_def)
  have inv: "router_inv r" and t: "router_table r = spec_table es" using trace_simulates [OF tr] by simp_all
  have "one_per_group {s \<in> table_matches (spec_table es) (pb_topic p). sub_tenant s = tenant} (set matched)"
    using matches_before_in_tenant [OF inv] by (simp add: t matched_def)
  then have mem: "sub \<in> set matched" using sub by (auto simp: one_per_group_def)
  obtain n where n: "n \<le> length matched" "os_persist_failed st' = os_persist_failed st + of_nat n"
    and fin: "n = 0 \<Longrightarrow> \<forall>sub s. sub \<in> set matched \<and> of_sub m sub = Some s \<and> waits p sub s \<longrightarrow>
      (\<exists>s'. of_sub m' sub = Some s' \<and> has_copy p s')" "n = 0 \<Longrightarrow> files_ok m' st'"
    using deliver_all_store [OF all ok(1,2)] msg ok(3) by blast
  have "unat (os_persist_failed st') = unat (os_persist_failed st) + n"
    unfolding n(2) using small n(1) by (simp add: unat_word_ariths unat_of_nat matched_def)
  moreover have "\<not> os_persist_failed st < os_persist_failed st'" using ack by (auto simp: publish_ack_def split: if_splits)
  ultimately have "n = 0" by (simp add: word_less_nat_alt)
  from fin(1) [OF this] fin(2) [OF this] mem sub(2) have q: "\<forall>s. sess m tenant (sub_client_id sub) = Some s \<and> waits p sub s \<longrightarrow>
      (\<exists>s'. sess m' tenant (sub_client_id sub) = Some s' \<and> has_copy p s' \<and>
        (s_durable s' \<longrightarrow> file_holds s' st' (s_offline_queue s')))"
    by (fastforce simp: files_ok_def)
  show ?thesis
    using q deliver_all_sends [OF all ok(1) mem, of k] by (auto simp: matched_def split: option.split)
qed

theorem acked_publish_safe_witness:
  "let (ds, r', mx', m', st') = the (build_downlink_frames_with_publisher_and_props (\<lambda>_. demo_env) demo_pub
     DEFAULT_TENANT_ID demo_router zero_metrics away_manager empty_store) in
   \<exists>s'. sess m' DEFAULT_TENANT_ID ''p'' = Some s' \<and> has_copy demo_pub s' \<and>
     (s_durable s' \<longrightarrow> file_holds s' st' (s_offline_queue s'))"
proof -
  have id: "queue_id_ok DEFAULT_TENANT_ID ''p''" by (simp add: queue_id_ok_def DEFAULT_TENANT_ID_def valid_str_def)
  have key: "offline_tenant away_session = DEFAULT_TENANT_ID" "s_client_id away_session = ''p''" "s_durable away_session"
      "\<not> s_connected away_session" "s_offline_queue away_session = []" "\<not> drops_state_at_disconnect away_session"
    by (simp_all add: away_session_def session_new_def offline_tenant_def drops_state_at_disconnect_def)
  have q: "get_in_tenant away_manager DEFAULT_TENANT_ID ''p'' = Some 0" "deref away_manager 0 = away_session"
      "m_max_offline_queue away_manager = Some DEFAULT_MAX_OFFLINE_QUEUE"
    by (simp_all add: get_in_tenant_def away_manager_def lookup2_def deref_def manager_new_def new_with_all_limits_def DEFAULT_MAX_OFFLINE_QUEUE_def)
  obtain ds r' mx' m' st' where run: "build_downlink_frames_with_publisher_and_props (\<lambda>_. demo_env) demo_pub
     DEFAULT_TENANT_ID demo_router zero_metrics away_manager empty_store = Some (ds, r', mx', m', st')"
    and st': "os_persist_failed st' = 0"
    by (simp add: build_downlink_frames_with_publisher_and_props_def demo_matched deliver_one_def q deliver_detached_def key
      demo_pub_def demo_env_def push_offline_with_limit_def append_in_tenant_def log_path_for_queue_file [OF id] Let_def
      make_room_opt_drop overflow_def sub_new_def empty_store_def write_file_def DEFAULT_MAX_OFFLINE_QUEUE_def)
  have ack: "\<exists>reply. publish_ack demo_frame 1 AtLeastOnce (Some (os_persist_failed empty_store)) (Some st') = Some reply"
    by (simp add: publish_ack_def st' empty_store_def pub_ack_reply_def ok_frame_def frame_new_def)
  then obtain reply where "publish_ack demo_frame 1 AtLeastOnce (Some (os_persist_failed empty_store)) (Some st') = Some reply" ..
  note safe = acked_publish_safe [OF demo_router_trace run this away_manager_ok away_files, of sub_p 0]
  have p: "pb_topic demo_pub = Topic ''a''" "sub_tenant sub_p = DEFAULT_TENANT_ID" "sub_group sub_p = None"
      "sub_client_id sub_p = ''p''" "waits demo_pub sub_p away_session" "os_persist_failed empty_store = 0"
    using key by (simp_all add: demo_pub_def sub_new_def waits_def suppressed_def live_conn_def empty_store_def)
  show ?thesis
    using safe demo_record_ok demo_router_matches by (simp add: run p away_sess demo_matched)
qed

end
