(* ===== verification/Link_Meta.thy ===== *)
theory Link_Meta
  imports Delivery
begin

text \<open>
  Metadata of the link between edge and kernel, kernel side
  (\<^verbatim>\<open>crates/broker-node/src/main.rs\<close>): the decoders of the bind, subscribe, publish,
  unbind and acknowledgement metadata and both directions of the session binding reply. Byte offsets
  of the code are offsets here; a text is its UTF-8 byte string.
\<close>

section \<open>Bytes and addresses\<close>

text \<open>\<open>u16::from_be_bytes([m[i], m[i + 1]]) as usize\<close>, and the slice \<open>m[i..j]\<close>.\<close>

definition be16 :: "bytes \<Rightarrow> nat \<Rightarrow> nat" where
  "be16 m i = unat (u16_from_be (take 2 (drop i m)))"

definition slice :: "bytes \<Rightarrow> nat \<Rightarrow> nat \<Rightarrow> bytes" where
  "slice m i j = take (j - i) (drop i m)"

text \<open>
  \<open>str::parse::<IpAddr>\<close> of the standard library: a dotted quad without leading zeros, or up to eight
  groups of up to four hexadecimal digits with at most one gap, the last two groups possibly a
  dotted quad. The readers return the rest of the text.
\<close>

definition hex_digit :: "char \<Rightarrow> bool" where
  "hex_digit c \<longleftrightarrow> c \<in> set ''0123456789abcdefABCDEF''"

definition dec_digit :: "char \<Rightarrow> bool" where
  "dec_digit c \<longleftrightarrow> c \<in> set ''0123456789''"

definition dec_value :: "string \<Rightarrow> nat" where
  "dec_value s = foldl (\<lambda>n c. n * 10 + (of_char c - 48)) 0 s"

definition read_octet :: "string \<Rightarrow> string option" where
  "read_octet s =
     (let d = takeWhile dec_digit s in
      if d = [] \<or> length d > 3 \<or> (hd d = CHR ''0'' \<and> length d > 1) \<or> dec_value d > 255 then None
      else Some (dropWhile dec_digit s))"

fun read_octets :: "nat \<Rightarrow> string \<Rightarrow> string option" where
  "read_octets 0 s = Some s"
| "read_octets (Suc n) s =
    (case s of c # rest \<Rightarrow> if c = CHR ''.'' then Option.bind (read_octet rest) (read_octets n) else None | [] \<Rightarrow> None)"

definition read_ipv4 :: "string \<Rightarrow> string option" where
  "read_ipv4 s = Option.bind (read_octet s) (read_octets 3)"

definition read_hextet :: "string \<Rightarrow> string option" where
  "read_hextet s =
     (let d = takeWhile hex_digit s in if d = [] \<or> length d > 4 then None else Some (dropWhile hex_digit s))"

text \<open>Up to \<open>limit\<close> groups; the number read, whether a dotted quad ended them, and the rest.\<close>

fun read_groups :: "nat \<Rightarrow> nat \<Rightarrow> string \<Rightarrow> nat \<times> bool \<times> string" where
  "read_groups 0 i s = (i, False, s)"
| "read_groups (Suc limit) i s =
    (let sep = (if i = 0 then Some s else case s of c # rest \<Rightarrow> if c = CHR '':'' then Some rest else None | [] \<Rightarrow> None) in
     case (if limit > 0 then Option.bind sep read_ipv4 else None) of
       Some rest \<Rightarrow> (i + 2, True, rest)
     | None \<Rightarrow>
         (case Option.bind sep read_hextet of
            Some rest \<Rightarrow> read_groups limit (i + 1) rest
          | None \<Rightarrow> (i, False, s)))"

definition read_ipv6 :: "string \<Rightarrow> string option" where
  "read_ipv6 s =
     (let (head_size, head_ipv4, rest) = read_groups 8 0 s in
      if head_size = 8 then Some rest
      else if head_ipv4 then None
      else case rest of
        c # d # rest \<Rightarrow>
          if c = CHR '':'' \<and> d = CHR '':''
          then (let (_, _, rest) = read_groups (8 - (head_size + 1)) 0 rest in Some rest) else None
      | _ \<Rightarrow> None)"

definition parses_as_ip :: "string \<Rightarrow> bool" where
  "parses_as_ip s \<longleftrightarrow>
     (case read_ipv4 s of Some rest \<Rightarrow> rest = [] | None \<Rightarrow> (case read_ipv6 s of Some rest \<Rightarrow> rest = [] | None \<Rightarrow> False))"

section \<open>Bind metadata\<close>

definition MAX_CERT_FIELD_LEN :: nat where
  "MAX_CERT_FIELD_LEN = 1024"

definition MAX_CERT_SANS :: nat where
  "MAX_CERT_SANS = 16"

definition MAX_V5_SECTION_LEN :: nat where
  "MAX_V5_SECTION_LEN = 4096"

definition MAX_V5_BIND_USERS :: nat where
  "MAX_V5_BIND_USERS = 16"

definition MAX_V5_BIND_STRING :: nat where
  "MAX_V5_BIND_STRING = 1024"

record bind_will =
  bw_topic :: string
  bw_payload :: bytes
  bw_qos :: u8
  bw_retain :: bool

record bind_identity =
  bi_username :: "string option"
  bi_password :: "bytes option"
  bi_peerhost :: "string option"
  bi_cert_cn :: "string option"
  bi_cert_subject :: "string option"
  bi_cert_sans :: "string list"

record bind_v5 =
  b5_version :: u8
  b5_session_expiry :: u32
  b5_receive_maximum :: u16
  b5_max_packet_size :: u32
  b5_user_properties :: "(string \<times> string) list"

record bind_request =
  br_client_id :: string
  br_clean_start :: bool
  br_keepalive_secs :: u16
  br_username :: "string option"
  br_password :: "bytes option"
  br_peerhost :: "string option"
  br_client_alias_max :: u16
  br_will :: "bind_will option"
  br_cert_cn :: "string option"
  br_cert_subject :: "string option"
  br_cert_sans :: "string list"
  br_protocol_version :: u8
  br_session_expiry :: u32
  br_receive_maximum :: u16
  br_max_packet_size :: u32
  br_user_properties :: "(string \<times> string) list option"

text \<open>An error is the text that the code gives it.\<close>

definition utf8_or :: "'e \<Rightarrow> bytes \<Rightarrow> 'e + string" where
  "utf8_or e bs = (case from_utf8 bs of Some s \<Rightarrow> Ok s | None \<Rightarrow> Err e)"

definition take_v5_string :: "bytes \<Rightarrow> string + string \<times> bytes" where
  "take_v5_string cursor =
     (if length cursor < 2 then Err ''bind v5 string truncated''
      else
        let len = be16 cursor 0 in
        if len > MAX_V5_BIND_STRING \<or> length cursor < 2 + len then Err ''bind v5 string over bound''
        else and_then (utf8_or ''bind v5 string not UTF-8'' (slice cursor 2 (2 + len)))
          (\<lambda>text. Ok (text, drop (2 + len) cursor)))"

text \<open>The loop over the user properties: a later pair replaces an earlier one with its key.\<close>

fun take_v5_pairs ::
  "nat \<Rightarrow> (string \<times> string) list \<Rightarrow> bytes \<Rightarrow> string + (string \<times> string) list \<times> bytes" where
  "take_v5_pairs 0 users cursor = Ok (users, cursor)"
| "take_v5_pairs (Suc n) users cursor =
    and_then (take_v5_string cursor) (\<lambda>(key, tail).
    and_then (take_v5_string tail) (\<lambda>(val, tail).
      take_v5_pairs n (AList.update key val users) tail))"

definition decode_bind_v5_section :: "bytes \<Rightarrow> string + bytes \<times> bind_v5" where
  "decode_bind_v5_section rest =
     (if length rest < 2 + 13 + 2 then Err ''bind v5 section truncated''
      else
        let v5_len = be16 rest (length rest - 2) in
        if \<not> (13 \<le> v5_len \<and> v5_len \<le> MAX_V5_SECTION_LEN) \<or> length rest < 2 + v5_len + 2
        then Err ''bind v5 section length mismatch''
        else
          let payload_start = length rest - 2 - v5_len;
              payload = slice rest payload_start (payload_start + v5_len);
              version = payload ! 0 in
          if version \<noteq> 4 \<and> version \<noteq> 5 then Err ''bind v5 version out of range''
          else
            let pair_count = be16 payload 11 in
            if pair_count > MAX_V5_BIND_USERS then Err ''bind v5 user properties over bound''
            else and_then (take_v5_pairs pair_count [] (drop 13 payload)) (\<lambda>(users, cursor).
              if cursor \<noteq> [] then Err ''bind v5 section trailing bytes''
              else Ok (take payload_start rest,
                \<lparr>b5_version = version, b5_session_expiry = u32_from_be (slice payload 1 5),
                 b5_receive_maximum = u16_from_be (slice payload 5 7),
                 b5_max_packet_size = u32_from_be (slice payload 7 11), b5_user_properties = users\<rparr>)))"

definition decode_bind_will :: "bytes \<Rightarrow> string + bind_will \<times> bytes" where
  "decode_bind_will rest =
     (if length rest < 8 then Err ''bind will truncated''
      else if rest ! 0 > 2 \<or> rest ! 1 > 1 then Err ''bind will flags out of range''
      else
        let topic_len = be16 rest 2 in
        if topic_len = 0 \<or> length rest < 4 + topic_len + 4 then Err ''bind will topic truncated''
        else and_then (utf8_or ''will topic not UTF-8'' (slice rest 4 (4 + topic_len))) (\<lambda>topic.
          let base = 4 + topic_len;
              payload_len = unat (u32_from_be (slice rest base (base + 4))) in
          if length rest < base + 4 + payload_len then Err ''bind will payload truncated''
          else Ok (\<lparr>bw_topic = topic, bw_payload = slice rest (base + 4) (base + 4 + payload_len),
                    bw_qos = rest ! 0, bw_retain = (rest ! 1 \<noteq> 0)\<rparr>,
                   drop (base + 4 + payload_len) rest)))"

definition split_peer_prefix :: "bytes \<Rightarrow> (string \<times> bytes) option" where
  "split_peer_prefix sect =
     (if length sect < 2 then None
      else
        let peer_len = be16 sect 0 in
        if peer_len = 0 \<or> length sect < 2 + peer_len then None
        else Option.bind (from_utf8 (slice sect 2 (2 + peer_len))) (\<lambda>literal.
          if parses_as_ip literal then Some (literal, drop (2 + peer_len) sect) else None))"

definition take_cert_string :: "bytes \<Rightarrow> (string option \<times> bytes) option" where
  "take_cert_string cursor =
     (if length cursor < 2 then None
      else
        let len = be16 cursor 0 in
        if len > MAX_CERT_FIELD_LEN \<or> length cursor < 2 + len then None
        else if len = 0 then Some (None, drop (2 + len) cursor)
        else Option.bind (from_utf8 (slice cursor 2 (2 + len))) (\<lambda>text. Some (Some text, drop (2 + len) cursor)))"

fun take_cert_sans :: "nat \<Rightarrow> string list \<Rightarrow> bytes \<Rightarrow> (string list \<times> bytes) option" where
  "take_cert_sans 0 sans cursor = Some (sans, cursor)"
| "take_cert_sans (Suc n) sans cursor =
    Option.bind (take_cert_string cursor) (\<lambda>(san, cursor).
      take_cert_sans n (case san of Some san \<Rightarrow> sans @ [san] | None \<Rightarrow> sans) cursor)"

type_synonym cert_fields = "string option \<times> string option \<times> string list"

definition decode_cert_section :: "bytes \<Rightarrow> cert_fields option" where
  "decode_cert_section sect =
     (if length sect < 2 then None
      else if length sect \<noteq> 2 + be16 sect 0 then None
      else
        Option.bind (take_cert_string (drop 2 sect)) (\<lambda>(cn, cursor).
        Option.bind (take_cert_string cursor) (\<lambda>(subject, cursor).
        if length cursor < 2 then None
        else
          let san_count = be16 cursor 0 in
          if san_count > MAX_CERT_SANS then None
          else Option.bind (take_cert_sans san_count [] (drop 2 cursor)) (\<lambda>(sans, cursor).
            if cursor \<noteq> [] then None else Some (cn, subject, sans)))))"

definition decode_cert_tail :: "bytes \<Rightarrow> cert_fields option" where
  "decode_cert_tail tail = (if tail = [] then Some (None, None, []) else decode_cert_section tail)"

definition identity_of ::
  "string option \<Rightarrow> bytes option \<Rightarrow> string option \<Rightarrow> cert_fields \<Rightarrow> bind_identity" where
  "identity_of username password peerhost cert =
     (let (cn, subject, sans) = cert in
      \<lparr>bi_username = username, bi_password = password, bi_peerhost = peerhost, bi_cert_cn = cn,
       bi_cert_subject = subject, bi_cert_sans = sans\<rparr>)"

text \<open>The part of the decoder after the username: the password, then the peer and the certificate.\<close>

definition decode_bind_credentials :: "string \<Rightarrow> bytes \<Rightarrow> string + bind_identity" where
  "decode_bind_credentials username rest =
     (let pass_len = be16 rest 0 in
      if length rest < 2 + pass_len then Err ''bind credentials truncated''
      else if pass_len = 0 then Err ''bind credentials truncated''
      else
        let password = slice rest 2 (2 + pass_len);
            tail = drop (2 + pass_len) rest in
        if tail = [] then Ok (identity_of (Some username) (Some password) None (None, None, []))
        else case split_peer_prefix tail of
          Some (peerhost, after_peer) \<Rightarrow>
            (case decode_cert_tail after_peer of
               Some cert \<Rightarrow> Ok (identity_of (Some username) (Some password) (Some peerhost) cert)
             | None \<Rightarrow> Err ''bind meta length mismatch'')
        | None \<Rightarrow>
            (case decode_cert_tail tail of
               Some cert \<Rightarrow> Ok (identity_of (Some username) (Some password) None cert)
             | None \<Rightarrow> Err ''bind meta length mismatch''))"

definition decode_bind_identity :: "bytes \<Rightarrow> string + bind_identity" where
  "decode_bind_identity rest =
     (if rest = [] then Ok (identity_of None None None (None, None, []))
      else if length rest < 2 then Err ''bind credentials truncated''
      else
        let user_len = be16 rest 0 in
        if length rest < 2 + user_len + 2 then
          (case split_peer_prefix rest of
             Some (peerhost, after_peer) \<Rightarrow>
               (case decode_cert_tail after_peer of
                  Some cert \<Rightarrow> Ok (identity_of None None (Some peerhost) cert)
                | None \<Rightarrow> Err ''bind meta length mismatch'')
           | None \<Rightarrow>
               (case decode_cert_tail rest of
                  Some cert \<Rightarrow> Ok (identity_of None None None cert)
                | None \<Rightarrow> Err ''bind credentials truncated''))
        else and_then (utf8_or ''username not UTF-8'' (slice rest 2 (2 + user_len)))
          (\<lambda>username. decode_bind_credentials username (drop (2 + user_len) rest)))"

definition alias_or_none :: "bytes \<Rightarrow> u16" where
  "alias_or_none bs = (case decode_alias_maximum bs of Some a \<Rightarrow> a | None \<Rightarrow> NO_TOPIC_ALIAS)"

definition decode_legacy_tail :: "bytes \<Rightarrow> string + bind_identity \<times> u16" where
  "decode_legacy_tail rest =
     (case decode_bind_identity rest of
        Ok identity \<Rightarrow> Ok (identity, 0)
      | Err _ \<Rightarrow>
          if length rest \<ge> 2 then
            (case decode_bind_identity (take (length rest - 2) rest) of
               Ok identity \<Rightarrow> Ok (identity, alias_or_none (drop (length rest - 2) rest))
             | Err _ \<Rightarrow> Err ''bind meta length mismatch'')
          else Err ''bind meta length mismatch'')"

definition request_of ::
  "string \<Rightarrow> u8 \<Rightarrow> u16 \<Rightarrow> bind_identity \<Rightarrow> u16 \<Rightarrow> bind_will option \<Rightarrow> bind_v5 option \<Rightarrow> bind_request" where
  "request_of client_id flags keepalive identity alias_max will v5 =
     \<lparr>br_client_id = client_id, br_clean_start = (flags AND 0x01 \<noteq> 0), br_keepalive_secs = keepalive,
      br_username = bi_username identity, br_password = bi_password identity,
      br_peerhost = bi_peerhost identity, br_client_alias_max = alias_max, br_will = will,
      br_cert_cn = bi_cert_cn identity, br_cert_subject = bi_cert_subject identity,
      br_cert_sans = bi_cert_sans identity,
      br_protocol_version = (case v5 of Some v5 \<Rightarrow> b5_version v5 | None \<Rightarrow> 4),
      br_session_expiry = (case v5 of Some v5 \<Rightarrow> b5_session_expiry v5 | None \<Rightarrow> 0),
      br_receive_maximum = (case v5 of Some v5 \<Rightarrow> b5_receive_maximum v5 | None \<Rightarrow> 65535),
      br_max_packet_size = (case v5 of Some v5 \<Rightarrow> b5_max_packet_size v5 | None \<Rightarrow> 0),
      br_user_properties = map_option b5_user_properties v5\<rparr>"

definition decode_bind_meta :: "bytes \<Rightarrow> string + bind_request" where
  "decode_bind_meta meta =
     (if length meta < 5 then Err ''bind meta too short''
      else
        let id_len = be16 meta 0 in
        if length meta < 2 + id_len + 1 + 2 then Err ''bind meta too short''
        else
          let flags = meta ! (2 + id_len);
              keepalive = u16_from_be (slice meta (3 + id_len) (5 + id_len)) in
          and_then (utf8_or ''client id not UTF-8'' (slice meta 2 (2 + id_len))) (\<lambda>client_id.
          let rest = drop (5 + id_len) meta in
          and_then (if flags AND 0x02 \<noteq> 0
                    then and_then (decode_bind_will rest) (\<lambda>(w, tail). Ok (Some w, tail))
                    else Ok (None, rest)) (\<lambda>(will, rest).
          if flags AND 0x04 \<noteq> 0 then
            and_then (decode_bind_v5_section rest) (\<lambda>(legacy_rest, v5).
            and_then (decode_legacy_tail legacy_rest) (\<lambda>(identity, alias_max).
              Ok (request_of client_id flags keepalive identity alias_max will (Some v5))))
          else
            and_then (decode_legacy_tail rest) (\<lambda>(identity, alias_max).
              Ok (request_of client_id flags keepalive identity alias_max will None)))))"

definition bind_looks_v5 :: "bytes \<Rightarrow> bool" where
  "bind_looks_v5 meta \<longleftrightarrow>
     5 \<le> length meta \<and> 2 + be16 meta 0 + 1 + 2 \<le> length meta \<and> (meta ! (2 + be16 meta 0)) AND 0x04 \<noteq> 0"

definition will_from_bind :: "bind_request \<Rightarrow> string + stored_will option" where
  "will_from_bind req =
     (case br_will req of
        None \<Rightarrow> Ok None
      | Some will \<Rightarrow>
          (case topic_new (bw_topic will) of
             Err _ \<Rightarrow> Err ''will topic invalid''
           | Ok topic \<Rightarrow>
               (case qos_try_from (bw_qos will) of
                  Err _ \<Rightarrow> Err ''will qos invalid''
                | Ok q \<Rightarrow> Ok (Some \<lparr>sw_tenant = DEFAULT_TENANT_ID, sw_topic = topic, sw_qos = q,
                    sw_retain = bw_retain will, sw_payload = bw_payload will\<rparr>))))"

section \<open>Session binding\<close>

definition SERVER_V5_RECEIVE_MAXIMUM :: u16 where
  "SERVER_V5_RECEIVE_MAXIMUM = 65535"

definition SERVER_V5_MAX_PACKET_SIZE :: u32 where
  "SERVER_V5_MAX_PACKET_SIZE = 268435455"

definition MAX_BINDING_V5_SECTION_LEN :: nat where
  "MAX_BINDING_V5_SECTION_LEN = 4096"

definition V5_RC_PROTOCOL_ERROR :: u8 where
  "V5_RC_PROTOCOL_ERROR = 0x82"

definition V5_RC_CONNECT_QUOTA :: u8 where
  "V5_RC_CONNECT_QUOTA = 0x97"

definition v5_reason_string :: "u8 \<Rightarrow> string option" where
  "v5_reason_string rc =
     (if rc = 0 then None
      else if rc = 2 then None
      else if rc = 0x86 then Some ''Bad username or password''
      else if rc = 0x87 then Some ''Not authorized''
      else if rc = 0x8A then Some ''Client banned''
      else if rc = V5_RC_PROTOCOL_ERROR then Some ''Protocol error: malformed request''
      else if rc = 0x85 then Some ''Client identifier not valid''
      else if rc = V5_RC_QUOTA_EXCEEDED \<or> rc = 0x8B then Some ''Quota exceeded: too many connections''
      else if rc = V5_RC_PACKET_TOO_LARGE then Some ''Packet too large for the client maximum''
      else Some ''Connection refused'')"

record session_binding_v5 =
  sb_granted_expiry :: u32
  sb_server_recv_max :: u16
  sb_server_max_pkt :: u32
  sb_reason :: string
  sb_user_properties :: "(string \<times> string) list"

definition success_binding_v5 :: "u32 \<Rightarrow> session_binding_v5" where
  "success_binding_v5 granted_expiry =
     \<lparr>sb_granted_expiry = granted_expiry, sb_server_recv_max = SERVER_V5_RECEIVE_MAXIMUM,
      sb_server_max_pkt = SERVER_V5_MAX_PACKET_SIZE, sb_reason = [], sb_user_properties = []\<rparr>"

text \<open>The refusal; \<open>users\<close> are the properties that it echoes.\<close>

definition refused_binding_v5 :: "u8 \<Rightarrow> (string \<times> string) list \<Rightarrow> session_binding_v5" where
  "refused_binding_v5 rc users =
     \<lparr>sb_granted_expiry = 0, sb_server_recv_max = SERVER_V5_RECEIVE_MAXIMUM,
      sb_server_max_pkt = SERVER_V5_MAX_PACKET_SIZE,
      sb_reason = (case v5_reason_string rc of Some r \<Rightarrow> r | None \<Rightarrow> ''Connection refused''),
      sb_user_properties = users\<rparr>"

definition pair_in_bounds :: "string \<times> string \<Rightarrow> bool" where
  "pair_in_bounds kv \<longleftrightarrow>
     \<not> (length (fst kv) > MAX_V5_BIND_STRING \<or> length (snd kv) > MAX_V5_BIND_STRING \<or> fst kv = [])"

definition failure_binding_v5 :: "bind_request \<Rightarrow> u8 \<Rightarrow> session_binding_v5" where
  "failure_binding_v5 req rc =
     refused_binding_v5 rc
       (case br_user_properties req of
          Some m \<Rightarrow> filter pair_in_bounds (take MAX_V5_BIND_USERS (sort_key (as_bytes \<circ> fst) m))
        | None \<Rightarrow> [])"

definition string_bytes :: "string \<Rightarrow> bytes" where
  "string_bytes s = u16_to_be (of_nat (length s)) @ as_bytes s"

definition encode_binding_v5_payload :: "session_binding_v5 \<Rightarrow> bytes option" where
  "encode_binding_v5_payload v5 =
     (if length (sb_reason v5) > MAX_V5_BIND_STRING \<or> length (sb_user_properties v5) > MAX_V5_BIND_USERS then None
      else if \<not> list_all pair_in_bounds (sb_user_properties v5) then None
      else
        let payload = u16_to_be (sb_server_recv_max v5) @ u32_to_be (sb_server_max_pkt v5)
              @ u32_to_be (sb_granted_expiry v5) @ string_bytes (sb_reason v5)
              @ u16_to_be (of_nat (length (sb_user_properties v5)))
              @ concat (map (\<lambda>(k, v). string_bytes k @ string_bytes v) (sb_user_properties v5)) in
        if length payload > MAX_BINDING_V5_SECTION_LEN then None else Some payload)"

definition binding_head :: "u64 \<Rightarrow> bool \<Rightarrow> u8 \<Rightarrow> u16 \<Rightarrow> bytes" where
  "binding_head session_id present return_code alias_max =
     u64_to_be session_id @ [bool_u8 present, return_code] @ encode_alias_maximum alias_max"

text \<open>The \<open>expect\<close> of the frame constructor is the value \<open>Panic\<close>.\<close>

definition binding_frame :: "broker_frame \<Rightarrow> bytes \<Rightarrow> broker_frame run" where
  "binding_frame f meta =
     expect (frame_new SessionBinding (h_conn_id (f_header f)) (h_sequence_no (f_header f)) meta [])"

definition session_binding_reply :: "broker_frame \<Rightarrow> u64 \<Rightarrow> bool \<Rightarrow> u8 \<Rightarrow> u16 \<Rightarrow> broker_frame run" where
  "session_binding_reply f session_id present return_code alias_max =
     binding_frame f (binding_head session_id present return_code alias_max)"

definition session_binding_reply_with_v5 ::
  "broker_frame \<Rightarrow> u64 \<Rightarrow> bool \<Rightarrow> u8 \<Rightarrow> u16 \<Rightarrow> session_binding_v5 \<Rightarrow> broker_frame run" where
  "session_binding_reply_with_v5 f session_id present return_code alias_max v5 =
     binding_frame f
       (binding_head session_id present return_code alias_max
        @ (case encode_binding_v5_payload v5 of
             Some payload \<Rightarrow> payload @ u16_to_be (of_nat (length payload))
           | None \<Rightarrow> []))"

definition refusal_for_req :: "broker_frame \<Rightarrow> bind_request \<Rightarrow> u8 \<Rightarrow> u16 \<Rightarrow> broker_frame run" where
  "refusal_for_req f req rc alias_max =
     (if br_protocol_version req = 5
      then session_binding_reply_with_v5 f 0 False rc alias_max (failure_binding_v5 req rc)
      else session_binding_reply f 0 False rc alias_max)"

definition take_binding_v5_string :: "bytes \<Rightarrow> (string \<times> bytes) option" where
  "take_binding_v5_string cursor =
     (if length cursor < 2 then None
      else
        let len = be16 cursor 0 in
        if len > MAX_V5_BIND_STRING \<or> length cursor < 2 + len then None
        else Option.bind (from_utf8 (slice cursor 2 (2 + len))) (\<lambda>text. Some (text, drop (2 + len) cursor)))"

fun take_binding_pairs ::
  "nat \<Rightarrow> (string \<times> string) list \<Rightarrow> bytes \<Rightarrow> ((string \<times> string) list \<times> bytes) option" where
  "take_binding_pairs 0 users cursor = Some (users, cursor)"
| "take_binding_pairs (Suc n) users cursor =
    Option.bind (take_binding_v5_string cursor) (\<lambda>(key, tail).
    Option.bind (take_binding_v5_string tail) (\<lambda>(val, tail).
      if key = [] then None else take_binding_pairs n (users @ [(key, val)]) tail))"

definition decode_binding_v5_payload :: "bytes \<Rightarrow> session_binding_v5 option" where
  "decode_binding_v5_payload payload =
     (if length payload < 2 + 4 + 4 + 2 + 2 then None
      else
        let reason_len = be16 payload 10 in
        if reason_len > MAX_V5_BIND_STRING \<or> length payload < 14 + reason_len then None
        else Option.bind (from_utf8 (slice payload 12 (12 + reason_len))) (\<lambda>reason.
          let base = 12 + reason_len;
              user_count = be16 payload base in
          if user_count > MAX_V5_BIND_USERS then None
          else Option.bind (take_binding_pairs user_count [] (drop (base + 2) payload)) (\<lambda>(users, cursor).
            if cursor \<noteq> [] then None
            else Some \<lparr>sb_granted_expiry = u32_from_be (slice payload 6 10),
              sb_server_recv_max = u16_from_be (slice payload 0 2),
              sb_server_max_pkt = u32_from_be (slice payload 2 6), sb_reason = reason,
              sb_user_properties = users\<rparr>)))"

definition present_of :: "u8 \<Rightarrow> bool option" where
  "present_of b = (if b = 0 then Some False else if b = 1 then Some True else None)"

definition decode_session_binding_full ::
  "bytes \<Rightarrow> (u64 \<times> bool \<times> u8 \<times> u16 \<times> session_binding_v5 option) option" where
  "decode_session_binding_full meta =
     (if length meta = 10 \<or> length meta = 12 then
        Option.bind (present_of (meta ! 8)) (\<lambda>present.
          Some (u64_from_be (take 8 meta), present, meta ! 9,
                if length meta = 12 then alias_or_none (slice meta 10 12) else NO_TOPIC_ALIAS, None))
      else if length meta < 12 + 2 then None
      else Option.bind (present_of (meta ! 8)) (\<lambda>present.
        let v5_len = be16 meta (length meta - 2) in
        if v5_len > MAX_BINDING_V5_SECTION_LEN \<or> length meta < 12 + v5_len + 2 then None
        else if length meta - 2 - v5_len \<noteq> 12 then None
        else Option.bind (decode_binding_v5_payload (slice meta 12 (12 + v5_len))) (\<lambda>v5.
          Some (u64_from_be (take 8 meta), present, meta ! 9, alias_or_none (slice meta 10 12), Some v5))))"

definition is_binding_accepted :: "broker_frame \<Rightarrow> bool" where
  "is_binding_accepted reply =
     (if length (f_metadata reply) = 10 \<or> length (f_metadata reply) = 12 then f_metadata reply ! 9 = 0
      else case decode_session_binding_full (f_metadata reply) of
        Some (_, _, rc, _, _) \<Rightarrow> rc = 0
      | None \<Rightarrow> False)"

section \<open>Subscribe, publish and acknowledgement metadata\<close>

record subscribe_entry =
  se_filter :: string
  se_opts_raw :: u8
  se_subscription_id :: u32
  se_has_options :: bool

text \<open>The two loops, with the rest of the metadata for the cursor.\<close>

fun decode_subscribe_entries_v5 :: "nat \<Rightarrow> bytes \<Rightarrow> subscribe_entry list option" where
  "decode_subscribe_entries_v5 0 rest = (if rest = [] then Some [] else None)"
| "decode_subscribe_entries_v5 (Suc n) rest =
    (if length rest < 2 + 1 + 4 then None
     else
       let filter_len = be16 rest 0 in
       if filter_len = 0 \<or> length rest < 2 + filter_len + 1 + 4 then None
       else Option.bind (from_utf8 (slice rest 2 (2 + filter_len))) (\<lambda>f.
         map_option (\<lambda>subs. \<lparr>se_filter = f, se_opts_raw = rest ! (2 + filter_len),
             se_subscription_id = u32_from_be (slice rest (3 + filter_len) (7 + filter_len)), se_has_options = True\<rparr> # subs)
           (decode_subscribe_entries_v5 n (drop (7 + filter_len) rest))))"

fun decode_subscribe_entries :: "nat \<Rightarrow> bytes \<Rightarrow> subscribe_entry list option" where
  "decode_subscribe_entries 0 rest = (if rest = [] then Some [] else None)"
| "decode_subscribe_entries (Suc n) rest =
    (if length rest < 3 then None
     else
       let filter_len = be16 rest 0 in
       if filter_len = 0 \<or> length rest < 2 + filter_len + 1 then None
       else Option.bind (from_utf8 (slice rest 2 (2 + filter_len))) (\<lambda>f.
         map_option (\<lambda>subs. \<lparr>se_filter = f, se_opts_raw = rest ! (2 + filter_len), se_subscription_id = 0,
             se_has_options = False\<rparr> # subs)
           (decode_subscribe_entries n (drop (3 + filter_len) rest))))"

definition decode_subscribe_meta :: "bytes \<Rightarrow> (u16 \<times> string \<times> subscribe_entry list) option" where
  "decode_subscribe_meta meta =
     (if length meta < 6 then None
      else
        let packet_id = u16_from_be (take 2 meta);
            id_len = be16 meta 2 in
        if packet_id = 0 then None
        else if length meta < 4 + id_len + 2 then None
        else Option.bind (from_utf8 (slice meta 4 (4 + id_len))) (\<lambda>client_id.
          let count = be16 meta (4 + id_len);
              rest = drop (6 + id_len) meta in
          case decode_subscribe_entries_v5 count rest of
            Some entries \<Rightarrow> Some (packet_id, client_id, entries)
          | None \<Rightarrow> map_option (\<lambda>subs. (packet_id, client_id, subs)) (decode_subscribe_entries count rest)))"

definition MAX_PUBLISH_V5_SECTION_LEN :: nat where
  "MAX_PUBLISH_V5_SECTION_LEN = 4096"

fun take_publish_users :: "nat \<Rightarrow> (bytes \<times> bytes) list \<Rightarrow> bytes \<Rightarrow> (bytes \<times> bytes) list option" where
  "take_publish_users 0 users rest = (if rest = [] then Some users else None)"
| "take_publish_users (Suc n) users rest =
    (if length rest < 2 then None
     else
       let k_len = be16 rest 0 in
       if k_len = 0 \<or> k_len > MAX_PUBLISH_V5_STRING \<or> length rest < 2 + k_len + 2 then None
       else
         let key = slice rest 2 (2 + k_len);
             v_len = be16 rest (2 + k_len) in
         if \<not> utf8_valid key then None
         else if v_len > MAX_PUBLISH_V5_STRING \<or> length rest < 2 + k_len + 2 + v_len then None
         else
           let val = slice rest (4 + k_len) (4 + k_len + v_len) in
           if \<not> utf8_valid val then None
           else take_publish_users n (users @ [(key, val)]) (drop (4 + k_len + v_len) rest))"

definition decode_publish_v5_section :: "bytes \<Rightarrow> nat \<Rightarrow> publish_v5_props option" where
  "decode_publish_v5_section meta topic_len =
     (let old_len = 2 + topic_len + 2 + 3;
          base = 2 + topic_len in
      if length meta < old_len + 2 + 1 + 4 + 2 then None
      else if length meta > old_len + 2 + MAX_PUBLISH_V5_SECTION_LEN then None
      else
        let fmt = meta ! (base + 7) in
        if fmt \<noteq> 0 \<and> fmt \<noteq> 1 then None
        else
          let user_count = be16 meta (base + 12) in
          if user_count > MAX_PUBLISH_V5_USERS then None
          else map_option (\<lambda>users. \<lparr>pv_format = fmt, pv_expiry = u32_from_be (slice meta (base + 8) (base + 12)),
              pv_users = users\<rparr>) (take_publish_users user_count [] (drop (base + 14) meta)))"

definition decode_publish_meta ::
  "bytes \<Rightarrow> (string \<times> u16 \<times> u8 \<times> bool \<times> u16 \<times> bool \<times> publish_v5_props) option" where
  "decode_publish_meta meta =
     (if length meta < 2 + 2 + 3 then None
      else
        let topic_len = be16 meta 0;
            old_len = 2 + topic_len + 2 + 3;
            new_len = old_len + 2 in
        Option.bind
          (if length meta \<noteq> old_len \<and> length meta \<noteq> new_len \<and> length meta > new_len
           then decode_publish_v5_section meta topic_len
           else if length meta \<noteq> old_len \<and> length meta \<noteq> new_len then None
           else Some props_default) (\<lambda>v5.
        Option.bind (if topic_len = 0 then Some [] else from_utf8 (slice meta 2 (2 + topic_len))) (\<lambda>topic.
          let base = 2 + topic_len;
              packet_id = u16_from_be (slice meta base (base + 2));
              (raw_alias, raw_present) =
                (if length meta \<ge> new_len
                 then (case decode_topic_alias (slice meta (base + 5) (base + 7)) of
                         Some a \<Rightarrow> a | None \<Rightarrow> NO_TOPIC_ALIAS, True)
                 else (NO_TOPIC_ALIAS, False));
              has_v5_section = length meta > new_len;
              (alias, alias_present) =
                (if raw_present \<and> raw_alias = NO_TOPIC_ALIAS \<and> has_v5_section \<and> topic_len \<noteq> 0
                 then (NO_TOPIC_ALIAS, False) else (raw_alias, raw_present)) in
          if topic_len = 0 \<and> \<not> alias_present then None
          else Some (topic, packet_id, meta ! (base + 2), meta ! (base + 3) \<noteq> 0, alias, alias_present, v5))))"

definition decode_unbind_meta_full :: "bytes \<Rightarrow> (string \<times> u8 option) option" where
  "decode_unbind_meta_full meta =
     (if length meta < 2 then None
      else
        let id_len = be16 meta 0 in
        if length meta \<noteq> 2 + id_len \<and> length meta \<noteq> 2 + id_len + 1 then None
        else Option.bind (from_utf8 (slice meta 2 (2 + id_len))) (\<lambda>client_id.
          Some (client_id, if length meta = 2 + id_len + 1 then Some (meta ! (2 + id_len)) else None)))"

definition decode_unbind_meta :: "bytes \<Rightarrow> string option" where
  "decode_unbind_meta meta = map_option fst (decode_unbind_meta_full meta)"

definition decode_unbind_reason :: "bytes \<Rightarrow> u8 option" where
  "decode_unbind_reason meta = Option.bind (decode_unbind_meta_full meta) snd"

definition decode_puback_meta :: "bytes \<Rightarrow> u16 option" where
  "decode_puback_meta meta =
     (if length meta < 2 then None
      else let packet_id = u16_from_be (take 2 meta) in if packet_id = 0 then None else Some packet_id)"

definition decode_qos2_meta_with_reason :: "bytes \<Rightarrow> (u16 \<times> u8) option" where
  "decode_qos2_meta_with_reason meta =
     (if length meta < 2 then None
      else
        let packet_id = u16_from_be (take 2 meta) in
        if packet_id = 0 then None else Some (packet_id, if length meta \<ge> 3 then meta ! 2 else 0))"

definition decode_qos2_meta :: "bytes \<Rightarrow> u16 option" where
  "decode_qos2_meta meta = map_option fst (decode_qos2_meta_with_reason meta)"

definition decode_credit_meta :: "bytes \<Rightarrow> (u32 \<times> u32) option" where
  "decode_credit_meta meta =
     (if length meta \<noteq> 8 then None else Some (u32_from_be (slice meta 0 4), u32_from_be (slice meta 4 8)))"

end
