(* ===== verification/Edge_Link.thy ===== *)
theory Edge_Link
  imports Link_Meta
begin

text \<open>
  The edge side of the link (\<^verbatim>\<open>beam/src/indra_brokerlink.erl\<close>): the frame codec, the encoders of the
  metadata that the edge sends and the decoders of the metadata that it receives. A binary is a byte
  list, \<open>undefined\<close> is \<open>None\<close>, an integer whose guard bounds it to a width is a word of that width, and
  \<open>error(badarg)\<close>, a call without a matching clause and every \<open>{error, _}\<close> answer of a metadata decoder are \<open>None\<close>. The address
  parser of the Erlang library, \<open>inet:parse_address\<close>, is the argument \<open>is_peer_ip\<close>.
\<close>

section \<open>Frames\<close>

text \<open>An opcode is given by its atom or as an integer; any other integer has no clause.\<close>

datatype edge_opcode = Atom opcode | Code int

fun opcode_to_int :: "edge_opcode \<Rightarrow> u16 option" where
  "opcode_to_int (Atom Ping) = Some 0x0001"
| "opcode_to_int (Atom Pong) = Some 0x0002"
| "opcode_to_int (Atom BindConnection) = Some 0x0010"
| "opcode_to_int (Atom SessionBinding) = Some 0x0011"
| "opcode_to_int (Atom UnbindConnection) = Some 0x0012"
| "opcode_to_int (Atom PublishIn) = Some 0x0020"
| "opcode_to_int (Atom PublishOut) = Some 0x0021"
| "opcode_to_int (Atom PubAckIn) = Some 0x0022"
| "opcode_to_int (Atom PubAckOut) = Some 0x0023"
| "opcode_to_int (Atom PubRecIn) = Some 0x0024"
| "opcode_to_int (Atom PubRecOut) = Some 0x0025"
| "opcode_to_int (Atom PubRelIn) = Some 0x0026"
| "opcode_to_int (Atom PubRelOut) = Some 0x0027"
| "opcode_to_int (Atom PubCompIn) = Some 0x0028"
| "opcode_to_int (Atom PubCompOut) = Some 0x0029"
| "opcode_to_int (Atom SubscribeIn) = Some 0x0030"
| "opcode_to_int (Atom SubAckOut) = Some 0x0031"
| "opcode_to_int (Atom UnsubscribeIn) = Some 0x0032"
| "opcode_to_int (Atom UnsubAckOut) = Some 0x0033"
| "opcode_to_int (Atom DisconnectIn) = Some 0x0040"
| "opcode_to_int (Atom ConnClose) = Some 0x0041"
| "opcode_to_int (Atom Credit) = Some 0x0042"
| "opcode_to_int (Code n) = (if 0 \<le> n \<and> n \<le> 0xFFFF then Some (of_int n) else None)"

definition is_known_opcode :: "u16 \<Rightarrow> bool" where
  "is_known_opcode n \<longleftrightarrow>
     n \<in> set [0x0001, 0x0002, 0x0010, 0x0011, 0x0012, 0x0020, 0x0021, 0x0022, 0x0023, 0x0024, 0x0025, 0x0026,
              0x0027, 0x0028, 0x0029, 0x0030, 0x0031, 0x0032, 0x0033, 0x0040, 0x0041, 0x0042]"

record edge_header =
  eh_version :: u8
  eh_flags :: u8
  eh_opcode :: u16
  eh_conn_id :: u64
  eh_seq_no :: u64
  eh_meta_len :: u16
  eh_payload_len :: u32

datatype edge_frame_error = EdgeInvalidMagic u8 u8 | EdgeUnsupportedVersion u8 | EdgeUnknownOpcode u16

datatype edge_decoded =
  EdgeFrame edge_header bytes bytes bytes
| EdgeMore nat
| EdgeError edge_frame_error

definition encode_frame :: "edge_opcode \<Rightarrow> u64 \<Rightarrow> u64 \<Rightarrow> bytes \<Rightarrow> bytes \<Rightarrow> bytes option" where
  "encode_frame opcode conn_id seq_no meta payload =
     (case opcode_to_int opcode of
        None \<Rightarrow> None
      | Some op_int \<Rightarrow>
          if \<not> length meta \<le> 65535 \<or> \<not> length payload \<le> 4294967295 then None
          else Some ([0x42, 0x4C, 1, 0] @ u16_to_be op_int @ u64_to_be conn_id @ u64_to_be seq_no
            @ u16_to_be (of_nat (length meta)) @ u32_to_be (of_nat (length payload)) @ meta @ payload))"

definition decode_frame :: "bytes \<Rightarrow> edge_decoded" where
  "decode_frame bin =
     (let size = length bin in
      if size < 28 then EdgeMore (28 - size)
      else
        let m0 = bin ! 0; m1 = bin ! 1; ver = bin ! 2; flags = bin ! 3;
            op_raw = u16_from_be (slice bin 4 6);
            conn_id = u64_from_be (slice bin 6 14);
            seq_no = u64_from_be (slice bin 14 22);
            meta_len = u16_from_be (slice bin 22 24);
            payload_len = u32_from_be (slice bin 24 28) in
        if m0 \<noteq> 0x42 \<or> m1 \<noteq> 0x4C then EdgeError (EdgeInvalidMagic m0 m1)
        else if ver \<noteq> 1 then EdgeError (EdgeUnsupportedVersion ver)
        else if \<not> is_known_opcode op_raw then EdgeError (EdgeUnknownOpcode op_raw)
        else
          let total = 28 + unat meta_len + unat payload_len in
          if size < total then EdgeMore (total - size)
          else EdgeFrame
            \<lparr>eh_version = ver, eh_flags = flags, eh_opcode = op_raw, eh_conn_id = conn_id, eh_seq_no = seq_no,
             eh_meta_len = meta_len, eh_payload_len = payload_len\<rparr>
            (slice bin 28 (28 + unat meta_len)) (slice bin (28 + unat meta_len) total) (drop total bin))"

section \<open>Bind metadata\<close>

record edge_cert =
  ec_cn :: "bytes option"
  ec_subject :: "bytes option"
  ec_sans :: "bytes list"

record edge_will =
  ew_topic :: bytes
  ew_payload :: bytes
  ew_qos :: u8
  ew_retain :: bool

record edge_v5 =
  e5_version :: u8
  e5_session_expiry :: u32
  e5_receive_max :: u16
  e5_max_packet_size :: u32
  e5_user_properties :: "(bytes \<times> bytes) list"

text \<open>A construction of a binary from parts: it raises when a part does.\<close>

fun sections :: "bytes option list \<Rightarrow> bytes option" where
  "sections [] = Some []"
| "sections (x # xs) = Option.bind x (\<lambda>b. map_option ((@) b) (sections xs))"

definition encode_head :: "bytes \<Rightarrow> bool \<Rightarrow> u16 \<Rightarrow> bool \<Rightarrow> bool \<Rightarrow> bytes option" where
  "encode_head client_id clean_start keepalive will_present v5_present =
     (let flags = (if clean_start then 1 else 0) OR (if will_present then 2 else 0)
                  OR (if v5_present then 0x04 else 0) in
      if \<not> length client_id \<le> 65535 then None
      else Some (u16_to_be (of_nat (length client_id)) @ client_id @ [flags] @ u16_to_be keepalive))"

text \<open>\<open>(byte_size(X)):16/big, X/binary\<close>.\<close>

definition sized :: "bytes \<Rightarrow> bytes" where
  "sized x = u16_to_be (of_nat (length x)) @ x"

fun encode_creds_bin :: "bytes option \<times> bytes option \<Rightarrow> bytes option" where
  "encode_creds_bin (None, None) = Some []"
| "encode_creds_bin (Some user, Some pass) =
    (if \<not> length user \<le> 65535 \<or> \<not> length pass \<le> 65535 then None else Some (sized user @ sized pass))"
| "encode_creds_bin _ = None"

fun encode_peer_bin :: "(bytes \<Rightarrow> bool) \<Rightarrow> bytes option \<Rightarrow> bytes option" where
  "encode_peer_bin is_peer_ip None = Some []"
| "encode_peer_bin is_peer_ip (Some peer_ip) =
    (if \<not> length peer_ip > 0 \<or> \<not> length peer_ip \<le> 65535 \<or> \<not> is_peer_ip peer_ip then None
     else Some (sized peer_ip))"

definition encode_will_bin :: "edge_will \<Rightarrow> bytes option" where
  "encode_will_bin w =
     (if \<not> (ew_qos w = 0 \<or> ew_qos w = 1 \<or> ew_qos w = 2) then None
      else if \<not> (length (ew_topic w) \<ge> 1 \<and> length (ew_topic w) \<le> 65535) then None
      else if \<not> length (ew_payload w) \<le> 0xFFFFFFFF then None
      else Some ([ew_qos w, if ew_retain w then 1 else 0] @ sized (ew_topic w)
        @ u32_to_be (of_nat (length (ew_payload w))) @ ew_payload w))"

definition cert_field :: "bytes option \<Rightarrow> bytes option" where
  "cert_field f =
     (case f of None \<Rightarrow> Some [] | Some bin \<Rightarrow> if \<not> length bin \<le> MAX_CERT_FIELD_LEN then None else Some bin)"

definition encode_cert_payload :: "edge_cert \<Rightarrow> bytes option" where
  "encode_cert_payload cert =
     Option.bind (cert_field (ec_cn cert)) (\<lambda>cn.
     Option.bind (cert_field (ec_subject cert)) (\<lambda>subject.
       if \<not> length (ec_sans cert) \<le> MAX_CERT_SANS then None
       else if \<not> list_all (\<lambda>san. length san \<le> MAX_CERT_FIELD_LEN) (ec_sans cert) then None
       else Some (sized cn @ sized subject @ u16_to_be (of_nat (length (ec_sans cert)))
         @ concat (map sized (ec_sans cert)))))"

fun encode_cert_bin :: "edge_cert option \<Rightarrow> bytes option" where
  "encode_cert_bin None = Some []"
| "encode_cert_bin (Some cert) =
    Option.bind (encode_cert_payload cert) (\<lambda>payload.
      if \<not> length payload \<le> 65535 then None else Some (sized payload))"

definition edge_pair_ok :: "nat \<Rightarrow> bytes \<times> bytes \<Rightarrow> bool" where
  "edge_pair_ok mx kv \<longleftrightarrow> length (fst kv) \<ge> 1 \<and> length (fst kv) \<le> mx \<and> length (snd kv) \<le> mx"

definition pairs_bin :: "(bytes \<times> bytes) list \<Rightarrow> bytes" where
  "pairs_bin users = concat (map (\<lambda>(k, v). sized k @ sized v) users)"

definition encode_v5_payload :: "edge_v5 \<Rightarrow> bytes option" where
  "encode_v5_payload v5 =
     (if \<not> (e5_version v5 = 4 \<or> e5_version v5 = 5) then None
      else if \<not> length (e5_user_properties v5) \<le> MAX_V5_BIND_USERS then None
      else if \<not> list_all (edge_pair_ok MAX_V5_BIND_STRING) (e5_user_properties v5) then None
      else Some ([e5_version v5] @ u32_to_be (e5_session_expiry v5) @ u16_to_be (e5_receive_max v5)
        @ u32_to_be (e5_max_packet_size v5) @ u16_to_be (of_nat (length (e5_user_properties v5)))
        @ pairs_bin (e5_user_properties v5)))"

text \<open>The form without a section of version 5, and the form that the connection process uses.\<close>

definition encode_bind_meta_8 ::
  "(bytes \<Rightarrow> bool) \<Rightarrow> bytes \<Rightarrow> bool \<Rightarrow> u16 \<Rightarrow> bytes option \<times> bytes option \<Rightarrow> bytes option \<Rightarrow> u16
   \<Rightarrow> edge_cert option \<Rightarrow> edge_will option \<Rightarrow> bytes option" where
  "encode_bind_meta_8 is_peer_ip client_id clean_start keepalive creds peer alias_max cert will =
     sections [encode_head client_id clean_start keepalive (will \<noteq> None) False,
       case will of None \<Rightarrow> Some [] | Some w \<Rightarrow> encode_will_bin w,
       encode_creds_bin creds, encode_peer_bin is_peer_ip peer, encode_cert_bin cert,
       Some (u16_to_be alias_max)]"

definition encode_bind_meta ::
  "(bytes \<Rightarrow> bool) \<Rightarrow> bytes \<Rightarrow> bool \<Rightarrow> u16 \<Rightarrow> bytes option \<times> bytes option \<Rightarrow> bytes option \<Rightarrow> u16
   \<Rightarrow> edge_cert option \<Rightarrow> edge_will option \<Rightarrow> edge_v5 option \<Rightarrow> bytes option" where
  "encode_bind_meta is_peer_ip client_id clean_start keepalive creds peer alias_max cert will v5 =
     (case v5 of
        None \<Rightarrow> encode_bind_meta_8 is_peer_ip client_id clean_start keepalive creds peer alias_max cert will
      | Some v5 \<Rightarrow>
          Option.bind (encode_v5_payload v5) (\<lambda>payload.
            if \<not> length payload \<le> MAX_V5_SECTION_LEN then None
            else sections [encode_head client_id clean_start keepalive (will \<noteq> None) True,
              case will of None \<Rightarrow> Some [] | Some w \<Rightarrow> encode_will_bin w,
              encode_creds_bin creds, encode_peer_bin is_peer_ip peer, encode_cert_bin cert,
              Some (u16_to_be alias_max @ payload @ u16_to_be (of_nat (length payload)))]))"

section \<open>Session binding\<close>

record edge_binding =
  eb_session_id :: u64
  eb_session_present :: bool
  eb_return_code :: u8
  eb_alias_max :: u16
  eb_server_recv_max :: u16
  eb_server_max_pkt :: u32
  eb_session_expiry :: u32
  eb_reason_string :: bytes
  eb_user_properties :: "(bytes \<times> bytes) list"

fun take_pairs :: "nat \<Rightarrow> nat \<Rightarrow> (bytes \<times> bytes) list \<Rightarrow> bytes \<Rightarrow> ((bytes \<times> bytes) list \<times> bytes) option" where
  "take_pairs mx 0 acc tail = Some (acc, tail)"
| "take_pairs mx (Suc n) acc tail =
    (if length tail < 2 then None
     else
       let k_len = be16 tail 0 in
       if \<not> (k_len \<ge> 1 \<and> k_len \<le> mx) \<or> length tail < 2 + k_len + 2 then None
       else
         let v_len = be16 tail (2 + k_len) in
         if \<not> v_len \<le> mx \<or> length tail < 2 + k_len + 2 + v_len then None
         else take_pairs mx n
           (acc @ [(slice tail 2 (2 + k_len), slice tail (4 + k_len) (4 + k_len + v_len))])
           (drop (4 + k_len + v_len) tail))"

definition decode_binding_v5_pairs where
  "decode_binding_v5_pairs tail n acc = take_pairs 1024 n acc tail"

definition edge_binding_v5_payload :: "bytes \<Rightarrow> edge_binding \<Rightarrow> edge_binding option" where
  "edge_binding_v5_payload payload binding =
     (if length payload < 12 then None
      else
        let r_len = be16 payload 10 in
        if \<not> r_len \<le> 1024 \<or> length payload < 12 + r_len + 2 then None
        else
          let user_count = be16 payload (12 + r_len) in
          if \<not> user_count \<le> 16 then None
          else case decode_binding_v5_pairs (drop (14 + r_len) payload) user_count [] of
            Some (users, []) \<Rightarrow>
              Some (binding\<lparr>eb_server_recv_max := u16_from_be (slice payload 0 2),
                eb_server_max_pkt := u32_from_be (slice payload 2 6),
                eb_session_expiry := u32_from_be (slice payload 6 10),
                eb_reason_string := slice payload 12 (12 + r_len), eb_user_properties := users\<rparr>)
          | _ \<Rightarrow> None)"

definition decode_binding_v5_section :: "bytes \<Rightarrow> edge_binding \<Rightarrow> edge_binding option" where
  "decode_binding_v5_section rest binding =
     (let size = length rest in
      if \<not> size \<ge> 2 then None
      else
        let v5_len = be16 rest (size - 2) in
        if \<not> (v5_len \<ge> 14 \<and> v5_len \<le> 4096 \<and> size = v5_len + 2) then None
        else edge_binding_v5_payload (take v5_len rest) binding)"

definition decode_session_present :: "u64 \<Rightarrow> u8 \<Rightarrow> u8 \<Rightarrow> u16 \<Rightarrow> edge_binding option" where
  "decode_session_present session_id present rc alias_max =
     (if present = 0 \<or> present = 1 then
        Some \<lparr>eb_session_id = session_id, eb_session_present = (present = 1), eb_return_code = rc,
              eb_alias_max = alias_max, eb_server_recv_max = 0, eb_server_max_pkt = 0, eb_session_expiry = 0,
              eb_reason_string = [], eb_user_properties = []\<rparr>
      else None)"

text \<open>The fields of the section replace the defaults, as \<open>maps:merge\<close> does.\<close>

definition decode_session_binding_meta :: "bytes \<Rightarrow> edge_binding option" where
  "decode_session_binding_meta meta =
     (if length meta = 10 then
        decode_session_present (u64_from_be (slice meta 0 8)) (meta ! 8) (meta ! 9) 0
      else if length meta < 12 then None
      else
        Option.bind (decode_session_present (u64_from_be (slice meta 0 8)) (meta ! 8) (meta ! 9)
                       (u16_from_be (slice meta 10 12))) (\<lambda>binding.
          if length meta = 12 then Some binding else decode_binding_v5_section (drop 12 meta) binding))"

section \<open>Subscribe metadata\<close>

definition validate_meta_subs :: "(bytes \<times> u8) list \<Rightarrow> bool" where
  "validate_meta_subs subs \<longleftrightarrow>
     subs \<noteq> [] \<and> length subs \<le> 65535
     \<and> list_all (\<lambda>(f, q). length f > 0 \<and> (q = 0 \<or> q = 1 \<or> q = 2)) subs"

definition validate_meta_subs_v5 :: "(bytes \<times> u8) list \<Rightarrow> bool" where
  "validate_meta_subs_v5 subs \<longleftrightarrow>
     subs \<noteq> [] \<and> length subs \<le> 65535 \<and> list_all (\<lambda>(f, opts). length f > 0) subs"

definition encode_subscribe_meta :: "u16 \<Rightarrow> bytes \<Rightarrow> (bytes \<times> u8) list \<Rightarrow> bytes option" where
  "encode_subscribe_meta packet_id client_id subs =
     (if \<not> packet_id \<ge> 1 \<or> \<not> validate_meta_subs subs then None
      else Some (u16_to_be packet_id @ sized client_id @ u16_to_be (of_nat (length subs))
        @ concat (map (\<lambda>(f, q). sized f @ [q]) subs)))"

definition EDGE_MAX_SUB_ID :: u32 where
  "EDGE_MAX_SUB_ID = 268435455"

definition encode_subscribe_meta_v5 :: "u16 \<Rightarrow> bytes \<Rightarrow> (bytes \<times> u8) list \<Rightarrow> u32 \<Rightarrow> bytes option" where
  "encode_subscribe_meta_v5 packet_id client_id subs sub_id =
     (if \<not> packet_id \<ge> 1 \<or> \<not> sub_id \<le> EDGE_MAX_SUB_ID \<or> \<not> validate_meta_subs_v5 subs then None
      else Some (u16_to_be packet_id @ sized client_id @ u16_to_be (of_nat (length subs))
        @ concat (map (\<lambda>(f, opts). sized f @ [opts] @ u32_to_be sub_id) subs)))"

text \<open>A binary that is too short for a packet identifier is malformed.\<close>

definition decode_suback_meta :: "bytes \<Rightarrow> (u16 \<times> u8 list) option" where
  "decode_suback_meta meta =
     (if length meta < 2 then None
      else
        let packet_id = u16_from_be (take 2 meta) in
        if packet_id = 0 then None else Some (packet_id, drop 2 meta))"

section \<open>Publish metadata\<close>

definition publish_bin :: "bytes \<Rightarrow> u16 \<Rightarrow> u8 \<Rightarrow> bool \<Rightarrow> bool \<Rightarrow> bytes" where
  "publish_bin topic packet_id qos retain dup =
     sized topic @ u16_to_be packet_id @ [qos, if retain then 1 else 0, if dup then 1 else 0]"

definition edge_qos_ok :: "u8 \<Rightarrow> bool" where
  "edge_qos_ok qos \<longleftrightarrow> qos = 0 \<or> qos = 1 \<or> qos = 2"

definition encode_publish_meta_5 :: "bytes \<Rightarrow> u16 \<Rightarrow> u8 \<Rightarrow> bool \<Rightarrow> bool \<Rightarrow> bytes option" where
  "encode_publish_meta_5 topic packet_id qos retain dup =
     (if \<not> edge_qos_ok qos \<or> \<not> length topic \<ge> 1 then None
      else Some (publish_bin topic packet_id qos retain dup))"

definition encode_publish_meta_6 :: "bytes \<Rightarrow> u16 \<Rightarrow> u8 \<Rightarrow> bool \<Rightarrow> bool \<Rightarrow> u16 \<Rightarrow> bytes option" where
  "encode_publish_meta_6 topic packet_id qos retain dup alias =
     (if \<not> edge_qos_ok qos \<or> \<not> (length topic \<ge> 1 \<or> alias \<noteq> 0) then None
      else Some (publish_bin topic packet_id qos retain dup @ u16_to_be alias))"

definition encode_meta_users :: "(bytes \<times> bytes) list \<Rightarrow> bytes option" where
  "encode_meta_users users =
     (if \<not> length users \<le> 16 \<or> \<not> list_all (edge_pair_ok 1024) users then None else Some (pairs_bin users))"

definition encode_publish_meta_v5 ::
  "bytes \<Rightarrow> u16 \<Rightarrow> u8 \<Rightarrow> bool \<Rightarrow> bool \<Rightarrow> u16 \<Rightarrow> publish_v5_props \<Rightarrow> bytes option" where
  "encode_publish_meta_v5 topic packet_id qos retain dup alias props =
     (if \<not> edge_qos_ok qos \<or> \<not> (length topic \<ge> 1 \<or> alias \<noteq> 0) then None
      else if \<not> (pv_format props = 0 \<or> pv_format props = 1) then None
      else map_option (\<lambda>users. publish_bin topic packet_id qos retain dup @ u16_to_be alias
          @ [pv_format props] @ u32_to_be (pv_expiry props) @ u16_to_be (of_nat (length (pv_users props)))
          @ users) (encode_meta_users (pv_users props)))"

text \<open>The metadata that the connection process builds for a PUBLISH, by protocol level.\<close>

definition publish_meta_for ::
  "u8 \<Rightarrow> bytes \<Rightarrow> u16 \<Rightarrow> u8 \<Rightarrow> bool \<Rightarrow> bool \<Rightarrow> u16 option \<Rightarrow> publish_v5_props \<Rightarrow> bytes option" where
  "publish_meta_for proto_level topic packet_id qos retain dup alias props =
     (if proto_level = 5
      then encode_publish_meta_v5 topic packet_id qos retain dup (case alias of Some a \<Rightarrow> a | None \<Rightarrow> 0) props
      else case alias of
        None \<Rightarrow> encode_publish_meta_5 topic packet_id qos retain dup
      | Some a \<Rightarrow> encode_publish_meta_6 topic packet_id qos retain dup a)"

record edge_publish =
  ep_topic :: bytes
  ep_packet_id :: u16
  ep_qos :: u8
  ep_retain :: bool
  ep_dup :: bool
  ep_alias :: u16
  ep_sub_id :: u32
  ep_props :: publish_v5_props

definition decode_meta_users where
  "decode_meta_users tail n acc = take_pairs 1024 n acc tail"

text \<open>
  The clauses in their order: the bare head, the alias, the alias and the identifier of the
  subscription, and the two forms with properties. Offsets count from the start of the metadata; a
  form with properties whose user properties do not parse is an error and does not fall through.
\<close>

definition edge_decode_publish_meta :: "bytes \<Rightarrow> edge_publish option" where
  "edge_decode_publish_meta meta =
     (if length meta < 2 then None
      else
        let base = 2 + be16 meta 0 in
        if length meta < base + 5 then None
        else
          let topic = slice meta 2 base;
              qos = meta ! (base + 2); r = meta ! (base + 3); d = meta ! (base + 4);
              head_ok = (edge_qos_ok qos \<and> (r = 0 \<or> r = 1) \<and> (d = 0 \<or> d = 1));
              size = length meta - (base + 5);
              alias = u16_from_be (slice meta (base + 5) (base + 7));
              result = (\<lambda>alias sub_id props.
                \<lparr>ep_topic = topic, ep_packet_id = u16_from_be (slice meta base (base + 2)), ep_qos = qos,
                 ep_retain = (r = 1), ep_dup = (d = 1), ep_alias = alias, ep_sub_id = sub_id, ep_props = props\<rparr>);
              with_users = (\<lambda>sub_id o'.
                case decode_meta_users (drop (o' + 7) meta) (be16 meta (o' + 5)) [] of
                  Some (users, []) \<Rightarrow>
                    Some (result alias sub_id
                      \<lparr>pv_format = meta ! o', pv_expiry = u32_from_be (slice meta (o' + 1) (o' + 5)), pv_users = users\<rparr>)
                | _ \<Rightarrow> None);
              props_ok = (\<lambda>o'. (meta ! o' = 0 \<or> meta ! o' = 1) \<and> be16 meta (o' + 5) \<le> 16);
              topic_ok = (topic \<noteq> [] \<or> alias \<noteq> 0) in
          if size = 0 then (if head_ok \<and> topic \<noteq> [] then Some (result 0 0 props_default) else None)
          else if size = 2 then (if head_ok \<and> topic_ok then Some (result alias 0 props_default) else None)
          else if size = 6 then
            (if head_ok \<and> topic_ok
             then Some (result alias (u32_from_be (slice meta (base + 7) (base + 11))) props_default) else None)
          else if size \<ge> 13 \<and> head_ok \<and> topic_ok \<and> props_ok (base + 11)
            then with_users (u32_from_be (slice meta (base + 7) (base + 11))) (base + 11)
          else if size \<ge> 9 \<and> head_ok \<and> topic_ok \<and> props_ok (base + 7) then with_users 0 (base + 7)
          else None)"

section \<open>Acknowledgements, unbind and credit\<close>

definition encode_puback_meta :: "u16 \<Rightarrow> u8 \<Rightarrow> bytes option" where
  "encode_puback_meta packet_id rc = (if packet_id \<ge> 1 then Some (u16_to_be packet_id @ [rc]) else None)"

definition edge_decode_puback_meta :: "bytes \<Rightarrow> (u16 \<times> u8) option" where
  "edge_decode_puback_meta meta =
     (if length meta = 3 \<and> u16_from_be (take 2 meta) \<noteq> 0 then Some (u16_from_be (take 2 meta), meta ! 2) else None)"

definition encode_pubrec_meta :: "u16 \<Rightarrow> bytes option" where
  "encode_pubrec_meta packet_id = (if packet_id \<ge> 1 then Some (u16_to_be packet_id) else None)"

definition encode_pubrel_meta :: "u16 \<Rightarrow> bytes option" where
  "encode_pubrel_meta packet_id = (if packet_id \<ge> 1 then Some (u16_to_be packet_id) else None)"

definition encode_pubcomp_meta :: "u16 \<Rightarrow> bytes option" where
  "encode_pubcomp_meta packet_id = (if packet_id \<ge> 1 then Some (u16_to_be packet_id) else None)"

text \<open>The second clause of \<open>decode_pubrec_meta\<close> carries a reason code.\<close>

definition decode_pubrec_meta :: "bytes \<Rightarrow> (u16 \<times> u8 option) option" where
  "decode_pubrec_meta meta =
     (if length meta = 2 \<and> u16_from_be meta \<noteq> 0 then Some (u16_from_be meta, None)
      else if length meta = 3 \<and> u16_from_be (take 2 meta) \<noteq> 0 then Some (u16_from_be (take 2 meta), Some (meta ! 2))
      else None)"

definition decode_pubrel_meta :: "bytes \<Rightarrow> u16 option" where
  "decode_pubrel_meta meta = (if length meta = 2 \<and> u16_from_be meta \<noteq> 0 then Some (u16_from_be meta) else None)"

definition decode_pubcomp_meta :: "bytes \<Rightarrow> u16 option" where
  "decode_pubcomp_meta meta = (if length meta = 2 \<and> u16_from_be meta \<noteq> 0 then Some (u16_from_be meta) else None)"

definition encode_unbind_meta :: "bytes \<Rightarrow> u8 option \<Rightarrow> bytes" where
  "encode_unbind_meta client_id reason = sized client_id @ (case reason of None \<Rightarrow> [] | Some rc \<Rightarrow> [rc])"

definition encode_credit_meta :: "u32 \<Rightarrow> u32 \<Rightarrow> bytes" where
  "encode_credit_meta used_frames used_bytes = u32_to_be used_frames @ u32_to_be used_bytes"

definition decode_connclose_meta :: "bytes \<Rightarrow> u8 option option" where
  "decode_connclose_meta meta =
     (case meta of [] \<Rightarrow> Some None | [reason] \<Rightarrow> Some (Some reason) | _ \<Rightarrow> None)"

end
