(* ===== verification/Link_Laws.thy ===== *)
theory Link_Laws
  imports Edge_Link
begin

text \<open>
  What crosses the link between edge and kernel: both ends of each metadata layout are read from
  their own source, the Erlang encoder and the Rust decoder or the other way round, and the laws
  state when a message arrives as it was sent and where two different messages share one encoding.
\<close>

section \<open>Reading what was written\<close>

named_theorems cursor

lemma length_sized [simp]: "length (sized x) = 2 + length x"
  by (simp add: sized_def)

lemma be16_front [cursor]: "be16 (u16_to_be w @ r) 0 = unat w"
  by (simp add: be16_def)

lemma be16_skip [cursor]: "length a \<le> i \<Longrightarrow> be16 (a @ r) i = be16 r (i - length a)"
  by (simp add: be16_def)

lemma be16_Cons [cursor]: "be16 (x # r) (Suc i) = be16 r i"
  by (simp add: be16_def)

lemma slice_skip [cursor]: "length a \<le> i \<Longrightarrow> slice (a @ r) i j = slice r (i - length a) (j - length a)"
  by (simp add: slice_def)

lemma slice_front [cursor]: "length a = j \<Longrightarrow> slice (a @ r) 0 j = a"
  by (simp add: slice_def)

lemma slice_whole [cursor]: "length a = j \<Longrightarrow> slice a 0 j = a"
  by (simp add: slice_def)

lemma slice_Cons [cursor]: "slice (x # r) (Suc i) (Suc j) = slice r i j"
  by (simp add: slice_def)

lemma nth_skip [cursor]: "length a \<le> i \<Longrightarrow> (a @ r) ! i = r ! (i - length a)"
  by (simp add: nth_append)

lemma drop_skip [cursor]: "length a \<le> i \<Longrightarrow> drop i (a @ r) = drop (i - length a) r"
  by simp

lemma unat_size [simp]: "n \<le> 65535 \<Longrightarrow> unat (of_nat n :: u16) = n"
  by (simp add: unat_of_nat)

lemma be16_sized [cursor]: "length x \<le> 65535 \<Longrightarrow> be16 (sized x @ r) 0 = length x"
  by (simp add: sized_def be16_front)

lemma slice_sized [cursor]: "slice (sized x @ r) 2 (2 + length x) = x"
  by (simp add: sized_def cursor)

lemma string_bytes_sized: "string_bytes s = sized (as_bytes s)"
  by (simp add: string_bytes_def sized_def)

lemma sized_split:
  assumes "2 \<le> length b" and "2 + be16 b 0 \<le> length b"
  shows "b = sized (slice b 2 (2 + be16 b 0)) @ drop (2 + be16 b 0) b"
proof -
  let ?n = "be16 b 0"
  have n: "?n = unat (u16_from_be (take 2 b))" by (simp add: be16_def)
  have "u16_to_be (u16_from_be (take 2 b)) = take 2 b" using assms(1) by (simp add: to_be_from_be)
  then have h: "take 2 b = u16_to_be (of_nat ?n)" by (simp add: n)
  have "length (slice b 2 (2 + ?n)) = ?n" using assms by (simp add: slice_def)
  then have "sized (slice b 2 (2 + ?n)) = take 2 b @ slice b 2 (2 + ?n)" by (simp add: sized_def h)
  also have "\<dots> = take (2 + ?n) b" by (simp only: slice_def take_add add_diff_cancel_left')
  finally show ?thesis by (simp only: append_take_drop_id)
qed

interpretation v5_text: exact_codec take_v5_string "\<lambda>s. sized (as_bytes s)"
  "\<lambda>s. valid_str s \<and> length s \<le> MAX_V5_BIND_STRING"
proof
  show "take_v5_string b = Inr (s, r) \<longleftrightarrow>
      (valid_str s \<and> length s \<le> MAX_V5_BIND_STRING) \<and> b = sized (as_bytes s) @ r" for b s r
  proof
    assume r: "take_v5_string b = Inr (s, r)"
    then have l: "2 \<le> length b" "2 + be16 b 0 \<le> length b" "be16 b 0 \<le> MAX_V5_BIND_STRING"
      by (auto simp: take_v5_string_def Let_def split: if_splits)
    from r l have "from_utf8 (slice b 2 (2 + be16 b 0)) = Some s" and rr: "r = drop (2 + be16 b 0) b"
      by (auto simp: take_v5_string_def Let_def utf8_or_def and_then_def split: option.splits if_splits)
    then have s: "slice b 2 (2 + be16 b 0) = as_bytes s" "valid_str s"
      using from_utf8_SomeD by blast+
    have "length (slice b 2 (2 + be16 b 0)) = be16 b 0" using l by (simp add: slice_def)
    with s(1) l(3) have "length s \<le> MAX_V5_BIND_STRING" by simp
    moreover from sized_split [OF l(1,2)] have "b = sized (as_bytes s) @ r" by (simp only: s(1) rr)
    ultimately show "(valid_str s \<and> length s \<le> MAX_V5_BIND_STRING) \<and> b = sized (as_bytes s) @ r"
      using s(2) by blast
  next
    assume a: "(valid_str s \<and> length s \<le> MAX_V5_BIND_STRING) \<and> b = sized (as_bytes s) @ r"
    then have "length s \<le> 65535" by (simp add: MAX_V5_BIND_STRING_def)
    with a show "take_v5_string b = Inr (s, r)"
      by (simp add: take_v5_string_def cursor utf8_or_def and_then_def slice_sized [of "as_bytes s", simplified])
  qed
qed


section \<open>Certificate, peer and credentials\<close>

definition text_of :: "bytes \<Rightarrow> string option" where
  "text_of x = (if x = [] then None else Some (of_bytes x))"

lemma take_cert_sized:
  assumes "length x \<le> MAX_CERT_FIELD_LEN" and "utf8_valid x"
  shows "take_cert_string (sized x @ r) = Some (text_of x, r)"
proof -
  have "length x \<le> 65535" using assms(1) by (simp add: MAX_CERT_FIELD_LEN_def)
  with assms show ?thesis
    by (simp add: take_cert_string_def cursor from_utf8_def text_of_def slice_sized [simplified])
qed

definition sans_of :: "bytes list \<Rightarrow> string list" where
  "sans_of xs = map of_bytes (filter (\<lambda>x. x \<noteq> []) xs)"

lemma take_sans_sized:
  assumes "\<forall>x\<in>set xs. length x \<le> MAX_CERT_FIELD_LEN \<and> utf8_valid x"
  shows "take_cert_sans (length xs) acc (concat (map sized xs) @ r) = Some (acc @ sans_of xs, r)"
  using assms
  by (induction xs arbitrary: acc) (auto simp: take_cert_sized sans_of_def text_of_def)

text \<open>What the fields of a certificate are when they are all UTF-8 text.\<close>

definition field_or_empty :: "bytes option \<Rightarrow> bytes" where
  "field_or_empty f = (case f of None \<Rightarrow> [] | Some x \<Rightarrow> x)"

definition cert_text :: "edge_cert \<Rightarrow> bool" where
  "cert_text c \<longleftrightarrow> utf8_valid (field_or_empty (ec_cn c)) \<and> utf8_valid (field_or_empty (ec_subject c))
     \<and> list_all utf8_valid (ec_sans c)"

definition cert_seen :: "edge_cert \<Rightarrow> cert_fields" where
  "cert_seen c = (text_of (field_or_empty (ec_cn c)), text_of (field_or_empty (ec_subject c)), sans_of (ec_sans c))"

lemma cert_field_Some: "cert_field f = Some x \<longleftrightarrow> x = field_or_empty f \<and> length x \<le> MAX_CERT_FIELD_LEN"
  by (auto simp: cert_field_def field_or_empty_def split: option.splits)

lemma cert_payload_parts:
  assumes "encode_cert_payload c = Some payload"
  shows "payload = sized (field_or_empty (ec_cn c)) @ sized (field_or_empty (ec_subject c))
      @ u16_to_be (of_nat (length (ec_sans c))) @ concat (map sized (ec_sans c))"
    and "length (field_or_empty (ec_cn c)) \<le> MAX_CERT_FIELD_LEN"
    and "length (field_or_empty (ec_subject c)) \<le> MAX_CERT_FIELD_LEN"
    and "length (ec_sans c) \<le> MAX_CERT_SANS"
    and "\<forall>x\<in>set (ec_sans c). length x \<le> MAX_CERT_FIELD_LEN"
  using assms
  by (auto simp: encode_cert_payload_def bind_eq_Some_conv cert_field_Some list_all_iff split: if_splits)

lemma decode_cert_sized:
  assumes p: "encode_cert_payload c = Some payload" and l: "length payload \<le> 65535" and t: "cert_text c"
  shows "decode_cert_tail (sized payload) = Some (cert_seen c)"
proof -
  note parts = cert_payload_parts [OF p]
  have d: "drop 2 (sized payload) = payload" and b: "be16 (sized payload) 0 = length payload"
    using l be16_sized [of payload "[]"] by (simp_all add: sized_def)
  have n: "length (ec_sans c) \<le> 65535" using parts(4) by (simp add: MAX_CERT_SANS_def)
  have sans: "take_cert_sans (length (ec_sans c)) [] (concat (map sized (ec_sans c))) = Some (sans_of (ec_sans c), [])"
    using take_sans_sized [of "ec_sans c" "[]" "[]"] parts(5) t by (simp add: cert_text_def list_all_iff)
  have "sized payload \<noteq> []" by (simp add: sized_def)
  then have "decode_cert_tail (sized payload) = decode_cert_section (sized payload)"
    by (simp add: decode_cert_tail_def)
  also have "\<dots> =
      Option.bind (take_cert_string payload) (\<lambda>(cn, cursor).
      Option.bind (take_cert_string cursor) (\<lambda>(subject, cursor).
      if length cursor < 2 then None
      else if be16 cursor 0 > MAX_CERT_SANS then None
      else Option.bind (take_cert_sans (be16 cursor 0) [] (drop 2 cursor)) (\<lambda>(sans, cursor).
        if cursor \<noteq> [] then None else Some (cn, subject, sans))))"
    unfolding decode_cert_section_def Let_def by (simp add: d b)
  also have "\<dots> = Some (cert_seen c)"
    unfolding parts(1) using parts(2,3,4) t n
    by (simp add: take_cert_sized cert_text_def be16_front sans cert_seen_def)
  finally show ?thesis .
qed

lemma not_ip:
  assumes "\<not> hex_digit c" and "c \<noteq> CHR '':''"
  shows "\<not> parses_as_ip (c # s)"
proof -
  have eight: "(8 :: nat) = Suc 7" by simp
  have "\<not> dec_digit c" using assms(1) by (auto simp: hex_digit_def dec_digit_def)
  then have 4: "read_ipv4 (c # s) = None" by (simp add: read_ipv4_def read_octet_def)
  have "read_hextet (c # s) = None" using assms(1) by (simp add: read_hextet_def)
  with 4 have "read_groups 8 0 (c # s) = (0, False, c # s)"
    unfolding eight read_groups.simps(2) by simp
  then have "read_ipv6 (c # s) = None" using assms(2) by (simp add: read_ipv6_def split: list.splits)
  with 4 show ?thesis by (simp add: parses_as_ip_def)
qed


lemma split_peer_sized:
  assumes "utf8_valid p" and "p \<noteq> []" and "length p \<le> 65535" and "parses_as_ip (of_bytes p)"
  shows "split_peer_prefix (sized p @ r) = Some (of_bytes p, r)"
  using assms by (simp add: split_peer_prefix_def cursor from_utf8_def slice_sized [simplified])

lemma cert_first_byte:
  assumes "encode_cert_payload c = Some payload"
  obtains b bs where "payload = b # bs" and "b \<le> 4"
proof -
  let ?n = "length (field_or_empty (ec_cn c))"
  have n: "?n \<le> 1024" using cert_payload_parts(2) [OF assms] by (simp add: MAX_CERT_FIELD_LEN_def)
  have "?n div 256 \<le> 4" using n by (simp add: div_le_mono [of ?n 1024 256, simplified])
  moreover have "?n div 256 < 256" using n by simp
  ultimately have b: "(of_nat (?n div 256) :: u8) \<le> 4" by (simp add: word_le_nat_alt unat_of_nat)
  have "payload = of_nat (?n div 256) # of_nat ?n # field_or_empty (ec_cn c) @ sized (field_or_empty (ec_subject c))
      @ u16_to_be (of_nat (length (ec_sans c))) @ concat (map sized (ec_sans c))"
    unfolding cert_payload_parts(1) [OF assms] sized_def u16_to_be_def using n
    by (simp add: numeral_2_eq_2)
  with b show thesis by (rule that [rotated])
qed

lemma hex_digit_ge: "hex_digit c \<Longrightarrow> (48 :: nat) \<le> of_char c"
  by (auto simp: hex_digit_def)

lemma split_peer_cert:
  assumes "encode_cert_payload c = Some payload" and l: "length payload \<le> 65535"
  shows "split_peer_prefix (sized payload @ r) = None"
proof -
  obtain b bs where p: "payload = b # bs" and b: "b \<le> 4" using cert_first_byte [OF assms(1)] .
  have "unat b \<le> 4" using b by (simp add: word_le_nat_alt)
  then have c: "of_char (char_of (unat b) :: char) < (48 :: nat)" by simp
  then have "\<not> hex_digit (char_of (unat b))" using hex_digit_ge leD by blast
  moreover have "char_of (unat b) \<noteq> CHR '':''"
  proof
    assume "char_of (unat b) = CHR '':''"
    with c have "of_char CHR '':'' < (48 :: nat)" by (simp only:)
    then show False by simp
  qed
  ultimately have "\<not> parses_as_ip (of_bytes payload)" by (simp add: p of_bytes_def not_ip)
  with l show ?thesis
    unfolding split_peer_prefix_def Let_def by (simp only: be16_sized slice_sized) (simp add: from_utf8_def)
qed

lemma alias_tail:
  "split_peer_prefix (u16_to_be a) = None" "decode_cert_tail (u16_to_be a) = None"
proof -
  have b: "be16 (u16_to_be a) 0 = unat a" using be16_front [of a "[]"] by simp
  show "split_peer_prefix (u16_to_be a) = None"
    by (cases "unat a") (simp_all add: split_peer_prefix_def b)
  show "decode_cert_tail (u16_to_be a) = None"
    by (simp add: decode_cert_tail_def decode_cert_section_def b take_cert_string_def)
qed

lemma cert_alias_tail:
  assumes "length payload \<le> 65535"
  shows "decode_cert_tail (sized payload @ u16_to_be a) = None"
  using assms by (simp add: decode_cert_tail_def decode_cert_section_def be16_sized)

text \<open>A tail that starts with a text and its length: the text is a username if enough follows.\<close>

lemma identity_user:
  assumes "length u \<le> 65535" and "2 \<le> length r"
  shows "decode_bind_identity (sized u @ r) =
    and_then (utf8_or ''username not UTF-8'' u) (\<lambda>username. decode_bind_credentials username r)"
proof -
  have ne: "sized u @ r \<noteq> []" by (simp add: sized_def)
  have "drop (2 + length u) (sized u @ r) = r" by simp
  with assms ne show ?thesis
    unfolding decode_bind_identity_def Let_def by (simp only: be16_sized slice_sized) simp
qed

lemma identity_short:
  assumes "length u \<le> 65535"
  shows "decode_bind_identity (sized u) =
    (case split_peer_prefix (sized u) of
       Some (peerhost, after_peer) \<Rightarrow>
         (case decode_cert_tail after_peer of
            Some cert \<Rightarrow> Ok (identity_of None None (Some peerhost) cert)
          | None \<Rightarrow> Err ''bind meta length mismatch'')
     | None \<Rightarrow>
         (case decode_cert_tail (sized u) of
            Some cert \<Rightarrow> Ok (identity_of None None None cert)
          | None \<Rightarrow> Err ''bind credentials truncated''))"
proof -
  have "sized u \<noteq> []" by (simp add: sized_def)
  with assms be16_sized [of u "[]"] show ?thesis
    unfolding decode_bind_identity_def Let_def by simp
qed

lemma credentials_sized:
  assumes "length p \<le> 65535" and "p \<noteq> []"
  shows "decode_bind_credentials username (sized p @ tail) =
    (if tail = [] then Ok (identity_of (Some username) (Some p) None (None, None, []))
     else case split_peer_prefix tail of
       Some (peerhost, after_peer) \<Rightarrow>
         (case decode_cert_tail after_peer of
            Some cert \<Rightarrow> Ok (identity_of (Some username) (Some p) (Some peerhost) cert)
          | None \<Rightarrow> Err ''bind meta length mismatch'')
     | None \<Rightarrow>
         (case decode_cert_tail tail of
            Some cert \<Rightarrow> Ok (identity_of (Some username) (Some p) None cert)
          | None \<Rightarrow> Err ''bind meta length mismatch''))"
proof -
  have "drop (2 + length p) (sized p @ tail) = tail" by simp
  with assms show ?thesis
    unfolding decode_bind_credentials_def Let_def by (simp only: be16_sized slice_sized) simp
qed

lemma credentials_alias: "decode_bind_credentials username (u16_to_be a) = Err ''bind credentials truncated''"
proof -
  have "be16 (u16_to_be a) 0 = unat a" using be16_front [of a "[]"] by simp
  then show ?thesis by (cases "unat a") (simp_all add: decode_bind_credentials_def)
qed


text \<open>
  The identities that the sections can tell apart: texts are UTF-8, a password is not empty, the peer
  is an address literal, and a client without credentials does not send both a peer and a
  certificate.
\<close>

definition clear_identity :: "bytes option \<times> bytes option \<Rightarrow> bytes option \<Rightarrow> edge_cert option \<Rightarrow> bool" where
  "clear_identity creds peer cert \<longleftrightarrow>
     (case fst creds of None \<Rightarrow> \<not> (peer \<noteq> None \<and> cert \<noteq> None) | Some u \<Rightarrow> utf8_valid u) \<and> snd creds \<noteq> Some []
     \<and> (case peer of None \<Rightarrow> True | Some p \<Rightarrow> utf8_valid p \<and> parses_as_ip (of_bytes p))
     \<and> (case cert of None \<Rightarrow> True | Some c \<Rightarrow> cert_text c)"

definition seen_identity :: "bytes option \<times> bytes option \<Rightarrow> bytes option \<Rightarrow> edge_cert option \<Rightarrow> bind_identity" where
  "seen_identity creds peer cert =
     identity_of (map_option of_bytes (fst creds)) (snd creds) (map_option of_bytes peer)
       (case cert of None \<Rightarrow> (None, None, []) | Some c \<Rightarrow> cert_seen c)"

lemma encode_creds_Some:
  "encode_creds_bin creds = Some b \<longleftrightarrow>
     creds = (None, None) \<and> b = []
     \<or> (\<exists>u p. creds = (Some u, Some p) \<and> length u \<le> 65535 \<and> length p \<le> 65535 \<and> b = sized u @ sized p)"
  by (cases creds rule: encode_creds_bin.cases) auto

lemma encode_peer_Some:
  "encode_peer_bin ip peer = Some b \<longleftrightarrow>
     peer = None \<and> b = []
     \<or> (\<exists>p. peer = Some p \<and> p \<noteq> [] \<and> length p \<le> 65535 \<and> ip p \<and> b = sized p)"
  by (cases peer) auto

lemma encode_cert_Some:
  "encode_cert_bin cert = Some b \<longleftrightarrow>
     cert = None \<and> b = []
     \<or> (\<exists>c pl. cert = Some c \<and> encode_cert_payload c = Some pl \<and> length pl \<le> 65535 \<and> b = sized pl)"
  by (cases cert) (auto simp: bind_eq_Some_conv)

lemma split_peer_exact:
  assumes "utf8_valid p" and "p \<noteq> []" and "length p \<le> 65535" and "parses_as_ip (of_bytes p)"
  shows "split_peer_prefix (sized p) = Some (of_bytes p, [])"
  using split_peer_sized [OF assms, of "[]"] by simp

lemma split_peer_cert_exact:
  assumes "encode_cert_payload c = Some payload" and "length payload \<le> 65535"
  shows "split_peer_prefix (sized payload) = None"
  using split_peer_cert [OF assms, of "[]"] by simp

lemma decode_no_cert [simp]: "decode_cert_tail [] = Some (None, None, [])"
  by (simp add: decode_cert_tail_def)

lemma credentials_exact:
  assumes "length p \<le> 65535" and "p \<noteq> []"
  shows "decode_bind_credentials username (sized p) = Ok (identity_of (Some username) (Some p) None (None, None, []))"
  using credentials_sized [OF assms, of username "[]"] by simp

lemma sized_not_Nil [simp]: "sized x \<noteq> []"
  by (simp add: sized_def)

lemmas identity_simps = identity_user identity_short credentials_sized credentials_exact credentials_alias
  split_peer_sized split_peer_exact split_peer_cert split_peer_cert_exact alias_tail cert_alias_tail
  decode_cert_sized utf8_or_def from_utf8_def seen_identity_def clear_identity_def

lemma empty_identity: "decode_bind_identity [] = Ok (identity_of None None None (None, None, []))"
  by (simp add: decode_bind_identity_def)

lemma alias_identity: "\<exists>e. decode_bind_identity (u16_to_be a) = Err e"
proof -
  have "be16 (u16_to_be a) 0 = unat a" using be16_front [of a "[]"] by simp
  then show ?thesis by (simp add: decode_bind_identity_def alias_tail)
qed

lemma identity_roundtrip:
  assumes c: "encode_creds_bin creds = Some cb" and p: "encode_peer_bin ip peer = Some pb"
    and t: "encode_cert_bin cert = Some tb" and clear: "clear_identity creds peer cert"
  shows "decode_bind_identity (cb @ pb @ tb) = Ok (seen_identity creds peer cert)"
    and "\<exists>e. decode_bind_identity (cb @ pb @ tb @ u16_to_be a) = Err e"
  using c p t clear unfolding encode_creds_Some encode_peer_Some encode_cert_Some
  by (elim disjE exE conjE; simp add: identity_simps empty_identity alias_identity)+


section \<open>The whole bind\<close>

lemma legacy_tail_strip:
  assumes "decode_bind_identity (xs @ ys @ u16_to_be a) = Err e" and "decode_bind_identity (xs @ ys) = Ok identity"
  shows "decode_legacy_tail (xs @ ys @ u16_to_be a) = Ok (identity, a)"
proof -
  let ?i = "xs @ ys"
  have s: "take (length (?i @ u16_to_be a) - 2) (?i @ u16_to_be a) = ?i"
    "drop (length (?i @ u16_to_be a) - 2) (?i @ u16_to_be a) = u16_to_be a"
    by (simp_all only: length_append length_to_be diff_add_inverse2) simp_all
  have "alias_or_none (u16_to_be a) = a"
    by (simp add: alias_or_none_def decode_alias_maximum_def)
  then have "decode_legacy_tail (?i @ u16_to_be a) = Ok (identity, a)"
    unfolding decode_legacy_tail_def s using assms by simp
  then show ?thesis by simp
qed

lemma legacy_tail_roundtrip:
  assumes "encode_creds_bin creds = Some cb" and "encode_peer_bin ip peer = Some pb"
    and "encode_cert_bin cert = Some tb" and "clear_identity creds peer cert"
  shows "decode_legacy_tail (cb @ pb @ tb @ u16_to_be a) = Ok (seen_identity creds peer cert, a)"
proof -
  obtain e where "decode_bind_identity (cb @ pb @ tb @ u16_to_be a) = Err e"
    using identity_roundtrip(2) [OF assms, of a] by auto
  then show ?thesis
    using legacy_tail_strip [of cb "pb @ tb" a e] identity_roundtrip(1) [OF assms] by simp
qed

definition seen_users :: "(bytes \<times> bytes) list \<Rightarrow> (string \<times> string) list" where
  "seen_users users = fold (\<lambda>(k, v). AList.update (of_bytes k) (of_bytes v)) users []"

definition pairs_text :: "(bytes \<times> bytes) list \<Rightarrow> bool" where
  "pairs_text users \<longleftrightarrow> list_all (\<lambda>(k, v). utf8_valid k \<and> utf8_valid v) users"

lemma take_v5_sized:
  assumes "utf8_valid x" and "length x \<le> MAX_V5_BIND_STRING"
  shows "take_v5_string (sized x @ r) = Ok (of_bytes x, r)"
  using v5_text.read_put [of "of_bytes x" r] assms by (simp add: valid_str_def)

lemma take_v5_pairs_bin:
  assumes "list_all (edge_pair_ok MAX_V5_BIND_STRING) users" and "pairs_text users"
  shows "take_v5_pairs (length users) acc (pairs_bin users) =
    Ok (fold (\<lambda>(k, v). AList.update (of_bytes k) (of_bytes v)) users acc, [])"
  using assms
  by (induction users arbitrary: acc) (auto simp: pairs_bin_def pairs_text_def edge_pair_ok_def take_v5_sized)

definition seen_v5 :: "edge_v5 \<Rightarrow> bind_v5" where
  "seen_v5 v5 = \<lparr>b5_version = e5_version v5, b5_session_expiry = e5_session_expiry v5,
     b5_receive_maximum = e5_receive_max v5, b5_max_packet_size = e5_max_packet_size v5,
     b5_user_properties = seen_users (e5_user_properties v5)\<rparr>"

lemma bind_v5_roundtrip:
  assumes p: "encode_v5_payload v5 = Some pl" and l: "length pl \<le> MAX_V5_SECTION_LEN"
    and t: "pairs_text (e5_user_properties v5)" and r: "2 \<le> length r"
  shows "decode_bind_v5_section (r @ pl @ u16_to_be (of_nat (length pl))) = Ok (r, seen_v5 v5)"
proof -
  let ?u = "e5_user_properties v5" and ?n = "length pl"
  from p have pl: "pl = e5_version v5 # u32_to_be (e5_session_expiry v5) @ u16_to_be (e5_receive_max v5)
      @ u32_to_be (e5_max_packet_size v5) @ u16_to_be (of_nat (length ?u)) @ pairs_bin ?u"
    and v: "e5_version v5 = 4 \<or> e5_version v5 = 5" and u: "length ?u \<le> MAX_V5_BIND_USERS"
    and ok: "list_all (edge_pair_ok MAX_V5_BIND_STRING) ?u"
    by (auto simp: encode_v5_payload_def split: if_splits)
  have n: "13 \<le> ?n" by (simp add: pl)
  have n': "?n \<le> 65535" using l by (simp add: MAX_V5_SECTION_LEN_def)
  let ?rest = "r @ pl @ u16_to_be (of_nat ?n)"
  have len: "length ?rest = length r + ?n + 2" by simp
  have v5_len: "be16 ?rest (length r + ?n) = ?n"
    using n' be16_front [of "of_nat ?n" "[]"] by (simp add: cursor)
  have payload: "slice ?rest (length r) (length r + ?n) = pl" by (simp add: slice_def)
  have fields: "be16 pl 11 = length ?u" "slice pl 1 5 = u32_to_be (e5_session_expiry v5)"
    "slice pl 5 7 = u16_to_be (e5_receive_max v5)" "slice pl 7 11 = u32_to_be (e5_max_packet_size v5)"
    "drop 13 pl = pairs_bin ?u" "pl ! 0 = e5_version v5"
    unfolding pl using u by (simp_all add: be16_def slice_def drop_Cons' MAX_V5_BIND_USERS_def)
  have pairs: "take_v5_pairs (length ?u) [] (pairs_bin ?u) = Ok (seen_users ?u, [])"
    by (simp add: take_v5_pairs_bin [OF ok t] seen_users_def)
  have "decode_bind_v5_section ?rest =
      and_then (take_v5_pairs (length ?u) [] (drop 13 pl)) (\<lambda>(users, cursor).
        if cursor \<noteq> [] then Err ''bind v5 section trailing bytes''
        else Ok (take (length r) ?rest,
          \<lparr>b5_version = pl ! 0, b5_session_expiry = u32_from_be (slice pl 1 5),
           b5_receive_maximum = u16_from_be (slice pl 5 7),
           b5_max_packet_size = u32_from_be (slice pl 7 11), b5_user_properties = users\<rparr>))"
  proof -
    have i: "length r + ?n + 2 - 2 = length r + ?n" "length r + ?n - ?n = length r" by simp_all
    show ?thesis
      unfolding decode_bind_v5_section_def Let_def len i v5_len payload fields(1)
      using r n l v u fields(6) by auto
  qed
  also have "\<dots> = Ok (r, seen_v5 v5)"
    unfolding fields pairs by (simp add: seen_v5_def)
  finally show ?thesis .
qed


definition seen_will :: "edge_will \<Rightarrow> bind_will" where
  "seen_will w = \<lparr>bw_topic = of_bytes (ew_topic w), bw_payload = ew_payload w, bw_qos = ew_qos w,
     bw_retain = ew_retain w\<rparr>"

lemma unat_size32: "n \<le> 0xFFFFFFFF \<Longrightarrow> unat (of_nat n :: u32) = n"
  by (simp add: unat_of_nat)

lemma bind_will_roundtrip:
  assumes e: "encode_will_bin w = Some wb" and t: "utf8_valid (ew_topic w)"
  shows "decode_bind_will (wb @ r) = Ok (seen_will w, r)"
proof -
  let ?t = "ew_topic w" and ?p = "ew_payload w"
  from e have q: "ew_qos w = 0 \<or> ew_qos w = 1 \<or> ew_qos w = 2"
    and tl: "1 \<le> length ?t" "length ?t \<le> 65535" and pl: "length ?p \<le> 0xFFFFFFFF"
    and wb: "wb = ew_qos w # (if ew_retain w then 1 else 0) # sized ?t @ u32_to_be (of_nat (length ?p)) @ ?p"
    by (auto simp: encode_will_bin_def split: if_splits)
  let ?m = "wb @ r"
  have q2: "ew_qos w \<le> 2" using q by auto
  have len: "length ?m = 4 + length ?t + 4 + length ?p + length r" by (simp add: wb)
  have topic_len: "be16 ?m 2 = length ?t"
    using be16_sized [of ?t "u32_to_be (of_nat (length ?p)) @ ?p @ r"] tl(2) by (simp add: wb be16_def drop_Cons')
  have topic: "slice ?m 4 (4 + length ?t) = ?t" by (simp add: wb slice_def sized_def drop_Cons')
  have size: "slice ?m (4 + length ?t) (4 + length ?t + 4) = u32_to_be (of_nat (length ?p))"
    by (simp add: wb slice_def sized_def drop_Cons')
  have payload: "slice ?m (4 + length ?t + 4) (4 + length ?t + 4 + length ?p) = ?p"
    by (simp add: wb slice_def sized_def drop_Cons')
  have rest: "drop (4 + length ?t + 4 + length ?p) ?m = r" by (simp add: wb sized_def drop_Cons')
  have flags: "?m ! 0 = ew_qos w" "?m ! 1 = (if ew_retain w then 1 else 0)" by (simp_all add: wb)
  have ut: "utf8_or ''will topic not UTF-8'' ?t = Ok (of_bytes ?t)" using t by (simp add: utf8_or_def from_utf8_def)
  have "\<not> length ?m < 8" "\<not> (ew_qos w > 2 \<or> ?m ! 1 > 1)" "\<not> (length ?t = 0 \<or> length ?m < 4 + length ?t + 4)"
    "\<not> length ?m < 4 + length ?t + 4 + length ?p"
    unfolding flags len using q2 tl(1) by (auto simp: not_less)
  then show ?thesis
    unfolding decode_bind_will_def Let_def topic_len topic ut and_then_simps size from_be_to_be
      unat_size32 [OF pl] payload rest
    by (simp only: flags if_False) (simp add: seen_will_def)
qed

definition seen_request ::
  "bytes \<Rightarrow> bool \<Rightarrow> u16 \<Rightarrow> bytes option \<times> bytes option \<Rightarrow> bytes option \<Rightarrow> u16 \<Rightarrow> edge_cert option
   \<Rightarrow> edge_will option \<Rightarrow> edge_v5 option \<Rightarrow> bind_request" where
  "seen_request client_id clean_start keepalive creds peer alias_max cert will v5 =
     request_of (of_bytes client_id) (if clean_start then 1 else 0) keepalive (seen_identity creds peer cert)
       alias_max (map_option seen_will will) (map_option seen_v5 v5)"

definition head_flags :: "bool \<Rightarrow> bool \<Rightarrow> bool \<Rightarrow> u8" where
  "head_flags clean will v5 = (if clean then 1 else 0) OR (if will then 2 else 0) OR (if v5 then 0x04 else 0)"

lemma head_flag_bits:
  "head_flags clean will v5 AND 0x01 \<noteq> 0 \<longleftrightarrow> clean"
  "head_flags clean will v5 AND 0x02 \<noteq> 0 \<longleftrightarrow> will"
  "head_flags clean will v5 AND 0x04 \<noteq> 0 \<longleftrightarrow> v5"
  by (simp_all add: head_flags_def)

text \<open>The decoder on a head that the edge wrote.\<close>

lemma bind_meta_head:
  assumes h: "encode_head cid clean ka will v5 = Some hd_bytes" and u: "utf8_valid cid"
  shows "decode_bind_meta (hd_bytes @ rest) =
    and_then (if will then and_then (decode_bind_will rest) (\<lambda>(w, tail). Ok (Some w, tail)) else Ok (None, rest))
      (\<lambda>(w, rest).
        if v5 then
          and_then (decode_bind_v5_section rest) (\<lambda>(legacy_rest, v).
          and_then (decode_legacy_tail legacy_rest) (\<lambda>(identity, alias_max).
            Ok (request_of (of_bytes cid) (if clean then 1 else 0) ka identity alias_max w (Some v))))
        else
          and_then (decode_legacy_tail rest) (\<lambda>(identity, alias_max).
            Ok (request_of (of_bytes cid) (if clean then 1 else 0) ka identity alias_max w None)))"
proof -
  let ?n = "length cid" and ?f = "head_flags clean will v5"
  from h have n: "?n \<le> 65535"
    and hb: "hd_bytes = u16_to_be (of_nat ?n) @ cid @ ?f # u16_to_be ka"
    by (auto simp: encode_head_def head_flags_def split: if_splits)
  let ?m = "hd_bytes @ rest"
  have len: "\<not> length ?m < 5" "\<not> length ?m < 2 + ?n + 1 + 2" by (simp_all add: hb)
  have id_len: "be16 ?m 0 = ?n" using n by (simp add: hb be16_front)
  have fl: "?m ! (2 + ?n) = ?f" by (simp add: hb nth_append)
  have cid: "slice ?m 2 (2 + ?n) = cid" by (simp add: hb slice_def)
  have ka: "slice ?m (3 + ?n) (5 + ?n) = u16_to_be ka" by (simp add: hb slice_def)
  have rest: "drop (5 + ?n) ?m = rest" by (simp add: hb)
  have ut: "utf8_or ''client id not UTF-8'' cid = Ok (of_bytes cid)" using u by (simp add: utf8_or_def from_utf8_def)
  have req: "request_of (of_bytes cid) ?f ka identity a w v =
      request_of (of_bytes cid) (if clean then 1 else 0) ka identity a w v" for identity a w v
    unfolding request_of_def head_flag_bits(1) by simp
  show ?thesis
    unfolding decode_bind_meta_def Let_def id_len fl cid ka rest ut and_then_simps from_be_to_be
      head_flag_bits(2,3) req using len by simp
qed

lemma sections_Some:
  "sections xs = Some b \<longleftrightarrow> (\<exists>ys. xs = map Some ys \<and> b = concat ys)"
proof (induction xs arbitrary: b)
  case (Cons x xs)
  show ?case by (auto simp: bind_eq_Some_conv Cons.IH Cons_eq_map_conv)
qed auto

definition will_bin :: "edge_will option \<Rightarrow> bytes option" where
  "will_bin will = (case will of None \<Rightarrow> Some [] | Some w \<Rightarrow> encode_will_bin w)"

definition will_text :: "edge_will option \<Rightarrow> bool" where
  "will_text will \<longleftrightarrow> (case will of None \<Rightarrow> True | Some w \<Rightarrow> utf8_valid (ew_topic w))"

lemma will_sections:
  assumes "will_bin will = Some wb" and "will_text will"
  shows "(if will \<noteq> None then and_then (decode_bind_will (wb @ r)) (\<lambda>(w, tail). Ok (Some w, tail))
          else Ok (None, wb @ r)) = Ok (map_option seen_will will, r)"
  using assms by (cases will) (auto simp: will_bin_def will_text_def bind_will_roundtrip)

lemma encode_bind_parts:
  assumes "encode_bind_meta ip cid clean ka creds peer a cert will v5 = Some meta"
  obtains hb wb cb pb tb tail where
    "encode_head cid clean ka (will \<noteq> None) (v5 \<noteq> None) = Some hb" "will_bin will = Some wb"
    "encode_creds_bin creds = Some cb" "encode_peer_bin ip peer = Some pb" "encode_cert_bin cert = Some tb"
    "meta = hb @ wb @ cb @ pb @ tb @ u16_to_be a @ tail"
    "case v5 of None \<Rightarrow> tail = []
     | Some v \<Rightarrow> \<exists>pl. encode_v5_payload v = Some pl \<and> length pl \<le> MAX_V5_SECTION_LEN
         \<and> tail = pl @ u16_to_be (of_nat (length pl))"
proof (cases v5)
  case None
  with assms have "sections [encode_head cid clean ka (will \<noteq> None) False, will_bin will, encode_creds_bin creds,
       encode_peer_bin ip peer, encode_cert_bin cert, Some (u16_to_be a)] = Some meta"
    by (simp add: encode_bind_meta_def encode_bind_meta_8_def will_bin_def del: sections.simps)
  with None that [of _ _ _ _ _ "[]"] show thesis
    by (auto simp: sections_Some Cons_eq_map_conv simp del: sections.simps)
next
  case (Some v)
  with assms obtain pl where "encode_v5_payload v = Some pl" "length pl \<le> MAX_V5_SECTION_LEN"
    "sections [encode_head cid clean ka (will \<noteq> None) True, will_bin will, encode_creds_bin creds,
       encode_peer_bin ip peer, encode_cert_bin cert,
       Some (u16_to_be a @ pl @ u16_to_be (of_nat (length pl)))] = Some meta"
    by (auto simp: encode_bind_meta_def bind_eq_Some_conv will_bin_def simp del: sections.simps split: if_splits)
  with Some that [of _ _ _ _ _ "pl @ u16_to_be (of_nat (length pl))"] show thesis
    by (auto simp: sections_Some Cons_eq_map_conv simp del: sections.simps)
qed

text \<open>
  C20. Bind metadata crosses the link: for every CONNECT that the edge encodes, with or without a will,
  credentials, a peer address, a certificate and the section of version 5, the kernel decodes exactly
  the request that was sent, as long as the texts are UTF-8, a password is not empty, the peer is an
  address and a client without credentials does not send both a peer and a certificate. Of user
  properties with the same key, the kernel's map keeps the last one.
\<close>

theorem bind_link_roundtrip:
  assumes e: "encode_bind_meta is_peer_ip client_id clean_start keepalive creds peer alias_max cert will v5 = Some meta"
    and "utf8_valid client_id" and "clear_identity creds peer cert" and "will_text will"
    and v: "\<forall>v\<in>set_option v5. pairs_text (e5_user_properties v)"
  shows "decode_bind_meta meta = Ok (seen_request client_id clean_start keepalive creds peer alias_max cert will v5)"
proof -
  obtain hb wb cb pb tb tail where p:
    "encode_head client_id clean_start keepalive (will \<noteq> None) (v5 \<noteq> None) = Some hb" "will_bin will = Some wb"
    "encode_creds_bin creds = Some cb" "encode_peer_bin is_peer_ip peer = Some pb" "encode_cert_bin cert = Some tb"
    and m: "meta = hb @ wb @ cb @ pb @ tb @ u16_to_be alias_max @ tail"
    and t: "case v5 of None \<Rightarrow> tail = []
     | Some v \<Rightarrow> \<exists>pl. encode_v5_payload v = Some pl \<and> length pl \<le> MAX_V5_SECTION_LEN
         \<and> tail = pl @ u16_to_be (of_nat (length pl))"
    using e by (rule encode_bind_parts)
  note legacy = legacy_tail_roundtrip [OF p(3-5) assms(3), of alias_max]
  note step = bind_meta_head [OF p(1) assms(2), of "wb @ cb @ pb @ tb @ u16_to_be alias_max @ tail"]
  show ?thesis
  proof (cases v5)
    case None
    with t legacy show ?thesis unfolding m step will_sections [OF p(2) assms(4)] by (simp add: seen_request_def)
  next
    case (Some v)
    with t obtain pl where pl: "encode_v5_payload v = Some pl" "length pl \<le> MAX_V5_SECTION_LEN"
      and tail: "tail = pl @ u16_to_be (of_nat (length pl))" by auto
    have "decode_bind_v5_section ((cb @ pb @ tb @ u16_to_be alias_max) @ tail) =
        Ok (cb @ pb @ tb @ u16_to_be alias_max, seen_v5 v)"
      unfolding tail by (rule bind_v5_roundtrip [OF pl]) (use assms(5) Some in simp_all)
    with Some legacy show ?thesis unfolding m step will_sections [OF p(2) assms(4)]
      by (simp add: seen_request_def)
  qed
qed


definition demo_cert :: edge_cert where
  "demo_cert = \<lparr>ec_cn = Some (as_bytes ''d''), ec_subject = None, ec_sans = [as_bytes ''s'']\<rparr>"

definition demo_will :: edge_will where
  "demo_will = \<lparr>ew_topic = as_bytes ''w'', ew_payload = [1, 2], ew_qos = 1, ew_retain = True\<rparr>"

definition demo_v5 :: edge_v5 where
  "demo_v5 = \<lparr>e5_version = 5, e5_session_expiry = 60, e5_receive_max = 10, e5_max_packet_size = 0,
     e5_user_properties = [(as_bytes ''k'', as_bytes ''v'')]\<rparr>"

theorem bind_link_roundtrip_witness:
  "\<exists>meta. encode_bind_meta (\<lambda>_. True) (as_bytes ''c'') True 30 (Some (as_bytes ''u''), Some (as_bytes ''p''))
     (Some (as_bytes ''10.0.0.1'')) 7 (Some demo_cert) (Some demo_will) (Some demo_v5) = Some meta
   \<and> decode_bind_meta meta = Ok (seen_request (as_bytes ''c'') True 30
       (Some (as_bytes ''u''), Some (as_bytes ''p'')) (Some (as_bytes ''10.0.0.1'')) 7 (Some demo_cert)
       (Some demo_will) (Some demo_v5))"
proof -
  let ?creds = "(Some (as_bytes ''u''), Some (as_bytes ''p''))" and ?peer = "Some (as_bytes ''10.0.0.1'')"
  obtain meta where e: "encode_bind_meta (\<lambda>_. True) (as_bytes ''c'') True 30 ?creds ?peer 7 (Some demo_cert)
      (Some demo_will) (Some demo_v5) = Some meta"
    by (simp add: encode_bind_meta_def encode_head_def encode_will_bin_def encode_cert_payload_def cert_field_def
        encode_v5_payload_def edge_pair_ok_def pairs_bin_def demo_cert_def demo_will_def demo_v5_def
        MAX_CERT_FIELD_LEN_def MAX_CERT_SANS_def MAX_V5_BIND_USERS_def MAX_V5_BIND_STRING_def MAX_V5_SECTION_LEN_def)
  have texts: "utf8_valid (as_bytes ''c'')" "clear_identity ?creds ?peer (Some demo_cert)" "will_text (Some demo_will)"
    "\<forall>v\<in>set_option (Some demo_v5). pairs_text (e5_user_properties v)"
    by code_simp+
  show ?thesis using e bind_link_roundtrip [OF e texts] by blast
qed

text \<open>
  C21. A certificate of a client without credentials is misread: when the edge forwards a peer address
  and a certificate and no credentials, the kernel takes the address for the username and the
  certificate for the password, and sees neither an address to match bans against nor a certificate.
\<close>

theorem anonymous_certificate_misread:
  assumes e: "encode_bind_meta is_peer_ip client_id clean_start keepalive (None, None) (Some peer) alias_max (Some cert) None None = Some meta"
    and "utf8_valid client_id" and "utf8_valid peer"
  shows "\<exists>req. decode_bind_meta meta = Ok req \<and> br_username req = Some (of_bytes peer)
    \<and> br_password req = encode_cert_payload cert \<and> br_peerhost req = None \<and> br_cert_cn req = None"
proof -
  obtain hb tb where h: "encode_head client_id clean_start keepalive False False = Some hb"
    and pl: "peer \<noteq> []" "length peer \<le> 65535"
    and t: "encode_cert_bin (Some cert) = Some tb"
    and m: "meta = hb @ sized peer @ tb @ u16_to_be alias_max"
    using e by (rule encode_bind_parts) (auto simp: will_bin_def split: if_splits)
  obtain c where c: "encode_cert_payload cert = Some c" "length c \<le> 65535" and tb: "tb = sized c"
    using t by (auto simp: bind_eq_Some_conv split: if_splits)
  have "c \<noteq> []" using cert_first_byte [OF c(1)] by blast
  then have "decode_bind_credentials (of_bytes peer) (sized c @ u16_to_be alias_max) = Err ''bind meta length mismatch''"
    "decode_bind_credentials (of_bytes peer) (sized c) = Ok (identity_of (Some (of_bytes peer)) (Some c) None (None, None, []))"
    using c(2) by (simp_all add: credentials_sized credentials_exact alias_tail)
  then have "decode_bind_identity (sized peer @ sized c @ u16_to_be alias_max) = Err ''bind meta length mismatch''"
    "decode_bind_identity (sized peer @ sized c) = Ok (identity_of (Some (of_bytes peer)) (Some c) None (None, None, []))"
    using pl(2) assms(3) by (simp_all add: identity_user utf8_or_def from_utf8_def)
  then have "decode_legacy_tail (sized peer @ sized c @ u16_to_be alias_max) =
      Ok (identity_of (Some (of_bytes peer)) (Some c) None (None, None, []), alias_max)"
    by (rule legacy_tail_strip)
  then show ?thesis unfolding m tb bind_meta_head [OF h assms(2)] by (simp add: c request_of_def identity_of_def)
qed

theorem anonymous_certificate_misread_witness:
  "\<exists>meta req. encode_bind_meta (\<lambda>_. True) (as_bytes ''c'') True 30 (None, None) (Some (as_bytes ''10.0.0.1'')) 0
      (Some demo_cert) None None = Some meta \<and> decode_bind_meta meta = Ok req
    \<and> br_username req = Some ''10.0.0.1'' \<and> br_peerhost req = None"
proof -
  obtain meta where e: "encode_bind_meta (\<lambda>_. True) (as_bytes ''c'') True 30 (None, None) (Some (as_bytes ''10.0.0.1''))
      0 (Some demo_cert) None None = Some meta"
    by (simp add: encode_bind_meta_def encode_bind_meta_8_def encode_head_def encode_cert_payload_def cert_field_def
        demo_cert_def MAX_CERT_FIELD_LEN_def MAX_CERT_SANS_def)
  have texts: "utf8_valid (as_bytes ''c'')" "utf8_valid (as_bytes ''10.0.0.1'')" by code_simp+
  show ?thesis using e anonymous_certificate_misread [OF e texts] unfolding of_bytes_as_bytes by blast
qed

end
