(* ===== verification/Link_Messages.thy ===== *)
theory Link_Messages
  imports Link_Laws
begin

text \<open>
  The laws of the other messages of the link: the session binding reply, publishes in both directions,
  subscriptions, the frames themselves and the small acknowledgement messages.
\<close>

section \<open>Session binding\<close>

definition binding_seen :: "u64 \<Rightarrow> bool \<Rightarrow> u8 \<Rightarrow> u16 \<Rightarrow> session_binding_v5 option \<Rightarrow> edge_binding" where
  "binding_seen session_id present rc alias_max v5 =
     \<lparr>eb_session_id = session_id, eb_session_present = present, eb_return_code = rc, eb_alias_max = alias_max,
      eb_server_recv_max = (case v5 of None \<Rightarrow> 0 | Some v \<Rightarrow> sb_server_recv_max v),
      eb_server_max_pkt = (case v5 of None \<Rightarrow> 0 | Some v \<Rightarrow> sb_server_max_pkt v),
      eb_session_expiry = (case v5 of None \<Rightarrow> 0 | Some v \<Rightarrow> sb_granted_expiry v),
      eb_reason_string = (case v5 of None \<Rightarrow> [] | Some v \<Rightarrow> as_bytes (sb_reason v)),
      eb_user_properties =
        (case v5 of None \<Rightarrow> [] | Some v \<Rightarrow> map (\<lambda>(k, w). (as_bytes k, as_bytes w)) (sb_user_properties v))\<rparr>"

lemma take_pairs_bin:
  assumes "list_all (edge_pair_ok mx) us" and "mx \<le> 65535"
  shows "take_pairs mx (length us) acc (pairs_bin us @ r) = Some (acc @ us, r)"
  using assms
proof (induction us arbitrary: acc)
  case (Cons kv us)
  obtain k v where kv: "kv = (k, v)" by (cases kv)
  have k: "1 \<le> length k" "length k \<le> mx" "length v \<le> mx" using Cons.prems by (simp_all add: kv edge_pair_ok_def)
  let ?t = "sized k @ sized v @ pairs_bin us @ r"
  have b: "be16 ?t 0 = length k" "be16 ?t (2 + length k) = length v"
    using k Cons.prems(2) by (simp_all add: cursor)
  have s: "slice ?t 2 (2 + length k) = k" "slice ?t (4 + length k) (4 + length k + length v) = v"
    "drop (4 + length k + length v) ?t = pairs_bin us @ r"
    using slice_sized [of k] by (simp_all add: slice_def sized_def)
  have "\<not> length ?t < 2" "\<not> length ?t < 2 + length k + 2" "\<not> length ?t < 2 + length k + 2 + length v" by simp_all
  then have "take_pairs mx (length (kv # us)) acc ?t = take_pairs mx (length us) (acc @ [(k, v)]) (pairs_bin us @ r)"
    unfolding length_Cons take_pairs.simps Let_def b s using k by simp
  also have "\<dots> = Some (acc @ (k, v) # us, r)" using Cons by simp
  finally show ?case by (simp add: kv pairs_bin_def)
qed (simp add: pairs_bin_def)

definition byte_pairs :: "(string \<times> string) list \<Rightarrow> (bytes \<times> bytes) list" where
  "byte_pairs us = map (\<lambda>(k, v). (as_bytes k, as_bytes v)) us"

lemma payload_bytes:
  assumes "encode_binding_v5_payload v5 = Some pl"
  shows "pl = u16_to_be (sb_server_recv_max v5) @ u32_to_be (sb_server_max_pkt v5) @ u32_to_be (sb_granted_expiry v5)
      @ sized (as_bytes (sb_reason v5)) @ u16_to_be (of_nat (length (sb_user_properties v5)))
      @ pairs_bin (byte_pairs (sb_user_properties v5))"
    and "length (sb_reason v5) \<le> 1024" and "length (sb_user_properties v5) \<le> 16"
    and "list_all (edge_pair_ok 1024) (byte_pairs (sb_user_properties v5))" and "length pl \<le> 4096"
proof -
  have e: "concat (map (\<lambda>(k, v). sized (as_bytes k) @ sized (as_bytes v)) us) = pairs_bin (byte_pairs us)" for us
    by (induction us) (auto simp: pairs_bin_def byte_pairs_def)
  have l: "list_all pair_in_bounds us \<longleftrightarrow> list_all (edge_pair_ok 1024) (byte_pairs us)" for us
    by (induction us)
      (auto simp: byte_pairs_def pair_in_bounds_def edge_pair_ok_def MAX_V5_BIND_STRING_def not_less Suc_le_eq)
  show "pl = u16_to_be (sb_server_recv_max v5) @ u32_to_be (sb_server_max_pkt v5) @ u32_to_be (sb_granted_expiry v5)
      @ sized (as_bytes (sb_reason v5)) @ u16_to_be (of_nat (length (sb_user_properties v5)))
      @ pairs_bin (byte_pairs (sb_user_properties v5))"
    and "length (sb_reason v5) \<le> 1024" and "length (sb_user_properties v5) \<le> 16"
    and "list_all (edge_pair_ok 1024) (byte_pairs (sb_user_properties v5))" and "length pl \<le> 4096"
    using assms unfolding l [symmetric]
    by (auto simp: encode_binding_v5_payload_def Let_def e string_bytes_sized MAX_V5_BIND_STRING_def
        MAX_V5_BIND_USERS_def MAX_BINDING_V5_SECTION_LEN_def split: if_splits)
qed

lemma edge_reads_payload:
  assumes p: "encode_binding_v5_payload v5 = Some pl"
  shows "edge_binding_v5_payload pl b = Some (b\<lparr>eb_server_recv_max := sb_server_recv_max v5,
      eb_server_max_pkt := sb_server_max_pkt v5, eb_session_expiry := sb_granted_expiry v5,
      eb_reason_string := as_bytes (sb_reason v5), eb_user_properties := byte_pairs (sb_user_properties v5)\<rparr>)"
proof -
  let ?r = "as_bytes (sb_reason v5)" and ?u = "byte_pairs (sb_user_properties v5)"
  let ?n = "length ?r"
  note pb = payload_bytes [OF p]
  have n: "?n \<le> 1024" using pb(2) by simp
  have u: "length (sb_user_properties v5) = length ?u" by (simp add: byte_pairs_def)
  have len: "\<not> length pl < 12" "\<not> length pl < 12 + ?n + 2" by (simp_all add: pb(1))
  have f: "be16 pl 10 = ?n" "be16 pl (12 + ?n) = length ?u" "slice pl 12 (12 + ?n) = ?r"
    "drop (14 + ?n) pl = pairs_bin ?u" "slice pl 0 2 = u16_to_be (sb_server_recv_max v5)"
    "slice pl 2 6 = u32_to_be (sb_server_max_pkt v5)" "slice pl 6 10 = u32_to_be (sb_granted_expiry v5)"
    unfolding pb(1) using n pb(3) by (simp_all add: be16_def slice_def sized_def u)
  have pairs: "decode_binding_v5_pairs (pairs_bin ?u) (length ?u) [] = Some (?u, [])"
    using take_pairs_bin [OF pb(4), of "[]" "[]"] by (simp add: decode_binding_v5_pairs_def)
  show ?thesis
    unfolding edge_binding_v5_payload_def Let_def f pairs using len n pb(3) u by simp
qed

lemma binding_head_parts:
  "length (binding_head sid present rc a) = 12"
  "slice (binding_head sid present rc a @ r) 0 8 = u64_to_be sid"
  "(binding_head sid present rc a @ r) ! 8 = bool_u8 present"
  "(binding_head sid present rc a @ r) ! 9 = rc"
  "slice (binding_head sid present rc a @ r) 10 12 = u16_to_be a"
  "drop 12 (binding_head sid present rc a @ r) = r"
  by (simp_all add: binding_head_def slice_def encode_alias_maximum_def nth_append drop_Cons')

lemma bool_u8_cases: "bool_u8 b = (if b then 1 else 0)"
  by (cases b) (simp_all add: bool_u8_def)

lemma edge_reads_head:
  "decode_session_binding_meta (binding_head sid present rc a) = Some (binding_seen sid present rc a None)"
proof -
  note h = binding_head_parts(2-5) [of sid present rc a "[]", simplified]
  show ?thesis
    by (simp add: decode_session_binding_meta_def decode_session_present_def binding_head_parts(1) h bool_u8_cases
        binding_seen_def)
qed

lemma edge_reads_v5:
  assumes p: "encode_binding_v5_payload v5 = Some pl"
  shows "decode_session_binding_meta (binding_head sid present rc a @ pl @ u16_to_be (of_nat (length pl))) =
    Some (binding_seen sid present rc a (Some v5))"
proof -
  let ?t = "pl @ u16_to_be (of_nat (length pl))"
  let ?m = "binding_head sid present rc a @ ?t"
  note pb = payload_bytes [OF p]
  have n: "14 \<le> length pl" by (simp add: pb(1))
  have len: "length ?m = 12 + length pl + 2" by (simp add: binding_head_parts(1))
  have l: "length ?m \<noteq> 10" "\<not> length ?m < 12" "length ?m \<noteq> 12" unfolding len using n by simp_all
  have v: "be16 ?t (length pl) = length pl" using pb(5) be16_front [of "of_nat (length pl)" "[]"] by (simp add: cursor)
  have sect: "decode_binding_v5_section ?t b = edge_binding_v5_payload pl b" for b
  proof -
    have i: "length ?t = length pl + 2" "length pl + 2 - 2 = length pl" "take (length pl) ?t = pl" by simp_all
    show ?thesis
      unfolding decode_binding_v5_section_def Let_def i v using n pb(5) by simp
  qed
  show ?thesis
    unfolding decode_session_binding_meta_def binding_head_parts(2-6) sect edge_reads_payload [OF p]
    using l by (simp add: decode_session_present_def bool_u8_cases binding_seen_def byte_pairs_def)
qed


lemma binding_frame_returns:
  assumes "length meta \<le> 65535"
  shows "\<exists>reply. binding_frame f meta = Returns reply \<and> f_metadata reply = meta"
  using assms by (simp add: binding_frame_def expect_def frame_new_def)

lemma binding_replies:
  "\<exists>reply. session_binding_reply_with_v5 f session_id present return_code alias_max v5 = Returns reply
     \<and> decode_session_binding_meta (f_metadata reply) =
       Some (binding_seen session_id present return_code alias_max
         (if encode_binding_v5_payload v5 = None then None else Some v5))"
  "\<exists>reply. session_binding_reply f session_id present return_code alias_max = Returns reply
     \<and> decode_session_binding_meta (f_metadata reply) = Some (binding_seen session_id present return_code alias_max None)"
proof -
  let ?h = "binding_head session_id present return_code alias_max"
  have "\<exists>reply. binding_frame f ?h = Returns reply \<and> f_metadata reply = ?h"
    by (rule binding_frame_returns) (simp add: binding_head_parts(1))
  then show v4: "\<exists>reply. session_binding_reply f session_id present return_code alias_max = Returns reply
     \<and> decode_session_binding_meta (f_metadata reply) = Some (binding_seen session_id present return_code alias_max None)"
    by (auto simp: session_binding_reply_def edge_reads_head)
  show "\<exists>reply. session_binding_reply_with_v5 f session_id present return_code alias_max v5 = Returns reply
     \<and> decode_session_binding_meta (f_metadata reply) =
       Some (binding_seen session_id present return_code alias_max
         (if encode_binding_v5_payload v5 = None then None else Some v5))"
  proof (cases "encode_binding_v5_payload v5")
    case None
    then show ?thesis using v4 by (simp add: session_binding_reply_with_v5_def session_binding_reply_def)
  next
    case (Some pl)
    let ?m = "?h @ pl @ u16_to_be (of_nat (length pl))"
    have "\<exists>reply. binding_frame f ?m = Returns reply \<and> f_metadata reply = ?m"
      by (rule binding_frame_returns) (use payload_bytes(5) [OF Some] in \<open>simp add: binding_head_parts(1)\<close>)
    then show ?thesis using Some by (auto simp: session_binding_reply_with_v5_def edge_reads_v5)
  qed
qed

text \<open>
  C22. The session binding reply crosses the link: the kernel always builds the reply, the edge decodes
  the session id, the session-present flag, the return code and the alias maximum that it carries,
  and of version 5 the limits, the granted expiry, the reason and the user properties as they were
  sent, or none of them when they do not fit the section. The reply to version 4 has the same
  head and the default limits.
\<close>

theorem session_binding_link:
  "(\<exists>reply. session_binding_reply_with_v5 f session_id present return_code alias_max v5 = Returns reply
     \<and> decode_session_binding_meta (f_metadata reply) =
       Some (binding_seen session_id present return_code alias_max
         (if encode_binding_v5_payload v5 = None then None else Some v5)))
   \<and> (\<exists>reply. session_binding_reply f session_id present return_code alias_max = Returns reply
     \<and> decode_session_binding_meta (f_metadata reply) = Some (binding_seen session_id present return_code alias_max None))"
  using binding_replies by blast

section \<open>Publish metadata, edge to kernel\<close>

definition users_text :: "publish_v5_props \<Rightarrow> bool" where
  "users_text v \<longleftrightarrow> list_all (\<lambda>(k, w). utf8_valid k \<and> utf8_valid w) (pv_users v)"

lemma take_publish_users_bin:
  assumes "list_all (edge_pair_ok 1024) us" and "list_all (\<lambda>(k, w). utf8_valid k \<and> utf8_valid w) us"
  shows "take_publish_users (length us) acc (pairs_bin us) = Some (acc @ us)"
  using assms
proof (induction us arbitrary: acc)
  case (Cons kv us)
  obtain k v where kv: "kv = (k, v)" by (cases kv)
  have k: "1 \<le> length k" "length k \<le> MAX_PUBLISH_V5_STRING" "length v \<le> MAX_PUBLISH_V5_STRING"
    "utf8_valid k" "utf8_valid v"
    using Cons.prems by (simp_all add: kv edge_pair_ok_def MAX_PUBLISH_V5_STRING_def)
  let ?t = "sized k @ sized v @ pairs_bin us"
  have b: "be16 ?t 0 = length k" "be16 ?t (2 + length k) = length v"
    using k by (simp_all add: cursor MAX_PUBLISH_V5_STRING_def)
  have s: "slice ?t 2 (2 + length k) = k" "slice ?t (4 + length k) (4 + length k + length v) = v"
    "drop (4 + length k + length v) ?t = pairs_bin us"
    using slice_sized [of k] by (simp_all add: slice_def sized_def)
  have "\<not> length ?t < 2" "\<not> length ?t < 2 + length k + 2" "\<not> length ?t < 2 + length k + 2 + length v" by simp_all
  then have "take_publish_users (length (kv # us)) acc ?t = take_publish_users (length us) (acc @ [(k, v)]) (pairs_bin us)"
    unfolding length_Cons take_publish_users.simps Let_def b s using k by auto
  also have "\<dots> = Some (acc @ (k, v) # us)" using Cons by simp
  finally show ?case by (simp add: kv pairs_bin_def)
qed (simp add: pairs_bin_def)

text \<open>The fields that stand at fixed offsets after the topic.\<close>

lemma publish_head_fields:
  assumes "length topic \<le> 65535"
  shows "be16 (publish_bin topic pid q r d @ x) 0 = length topic"
    and "slice (publish_bin topic pid q r d @ x) 2 (2 + length topic) = topic"
    and "slice (publish_bin topic pid q r d @ x) (2 + length topic) (2 + length topic + 2) = u16_to_be pid"
    and "(publish_bin topic pid q r d @ x) ! (2 + length topic + 2) = q"
    and "(publish_bin topic pid q r d @ x) ! (2 + length topic + 3) = (if r then 1 else 0)"
    and "(publish_bin topic pid q r d @ x) ! (2 + length topic + 4) = (if d then 1 else 0)"
    and "length (publish_bin topic pid q r d @ x) = 2 + length topic + 2 + 3 + length x"
    and "slice (publish_bin topic pid q r d @ x) (2 + length topic + (5 + i)) (2 + length topic + (5 + j)) = slice x i j"
    and "(publish_bin topic pid q r d @ x) ! (2 + length topic + (5 + i)) = x ! i"
    and "be16 (publish_bin topic pid q r d @ x) (2 + length topic + (5 + i)) = be16 x i"
    and "drop (2 + length topic + (5 + i)) (publish_bin topic pid q r d @ x) = drop i x"
  using assms be16_sized [of topic] slice_sized [of topic]
  by (simp_all add: publish_bin_def slice_def sized_def be16_def nth_append drop_Cons')


lemma decode_v5_section:
  assumes t: "length topic \<le> 65535" and f: "pv_format v = 0 \<or> pv_format v = 1"
    and u: "length (pv_users v) \<le> 16" and ok: "list_all (edge_pair_ok 1024) (pv_users v)" and tx: "users_text v"
    and l: "7 + length (pairs_bin (pv_users v)) \<le> 4096"
    and x: "x = u16_to_be a @ [pv_format v] @ u32_to_be (pv_expiry v) @ u16_to_be (of_nat (length (pv_users v)))
      @ pairs_bin (pv_users v)"
  shows "decode_publish_v5_section (publish_bin topic pid q r d @ x) (length topic) = Some v"
proof -
  note h = publish_head_fields [OF t, where pid = pid and q = q and r = r and d = d and x = x]
  have i: "2 + length topic + 7 = 2 + length topic + (5 + 2)" "2 + length topic + 8 = 2 + length topic + (5 + 3)"
    "2 + length topic + 12 = 2 + length topic + (5 + 7)" "2 + length topic + 14 = 2 + length topic + (5 + 9)"
    by simp_all
  have fields: "x ! 2 = pv_format v" "slice x 3 7 = u32_to_be (pv_expiry v)" "be16 x 7 = length (pv_users v)"
    "drop 9 x = pairs_bin (pv_users v)" "length x = 9 + length (pairs_bin (pv_users v))"
    using u by (simp_all add: x nth_append slice_def be16_def drop_Cons')
  have users: "take_publish_users (length (pv_users v)) [] (pairs_bin (pv_users v)) = Some (pv_users v)"
    using take_publish_users_bin [OF ok, of "[]"] tx by (simp add: users_text_def)
  show ?thesis
    unfolding decode_publish_v5_section_def Let_def i h(7-11) fields users
    using f u l by (simp add: MAX_PUBLISH_V5_SECTION_LEN_def MAX_PUBLISH_V5_USERS_def)
qed

definition alias_seen :: "u8 \<Rightarrow> bytes \<Rightarrow> u16 option \<Rightarrow> u16 \<times> bool" where
  "alias_seen level topic alias =
     (let a = (case alias of Some a \<Rightarrow> a | None \<Rightarrow> 0) in
      if level = 5 then (a, \<not> (a = 0 \<and> topic \<noteq> [])) else (a, alias \<noteq> None))"

text \<open>The decoder on a head that the edge wrote, by what follows the head.\<close>

lemma decode_publish_head:
  assumes t: "length topic \<le> 65535" and u: "utf8_valid topic"
  shows "decode_publish_meta (publish_bin topic pid q r d @ x) =
    Option.bind (if length x > 2 then decode_publish_v5_section (publish_bin topic pid q r d @ x) (length topic)
                 else if length x \<noteq> 0 \<and> length x \<noteq> 2 then None else Some props_default) (\<lambda>v5.
      let raw = (if length x \<ge> 2 then (u16_from_be (slice x 0 2), True) else (0, False));
          (alias, present) = (if snd raw \<and> fst raw = 0 \<and> length x > 2 \<and> topic \<noteq> [] then (0, False) else raw) in
      if topic = [] \<and> \<not> present then None
      else Some (of_bytes topic, pid, q, r, alias, present, v5))"
proof -
  let ?m = "publish_bin topic pid q r d @ x"
  note h = publish_head_fields [OF t, where pid = pid and q = q and r = r and d = d and x = x]
  have a: "slice ?m (2 + length topic + 5) (2 + length topic + 7) = slice x 0 2"
    using h(8) [where i = 0 and j = 2] by simp
  have top: "(if length topic = 0 then Some [] else from_utf8 topic) = Some (of_bytes topic)"
    using u by (simp add: from_utf8_def of_bytes_def)
  have r01: "((if r then 1 else 0) \<noteq> (0 :: u8)) = r" by simp
  have al: "2 \<le> length x \<Longrightarrow> decode_topic_alias (slice x 0 2) = Some (u16_from_be (slice x 0 2))"
    by (simp add: decode_topic_alias_def slice_def)
  have len: "\<not> length ?m < 2 + 2 + 3" unfolding h(7) by simp
  have cmp: "length ?m \<noteq> 2 + length topic + 2 + 3 \<longleftrightarrow> length x \<noteq> 0"
    "length ?m \<noteq> 2 + length topic + 2 + 3 + 2 \<longleftrightarrow> length x \<noteq> 2"
    "length ?m > 2 + length topic + 2 + 3 + 2 \<longleftrightarrow> length x > 2"
    "length ?m \<ge> 2 + length topic + 2 + 3 + 2 \<longleftrightarrow> length x \<ge> 2" unfolding h(7) by simp_all
  show ?thesis
    unfolding decode_publish_meta_def Let_def h(1-5) a cmp top r01 from_be_to_be
    using len al by (auto simp: NO_TOPIC_ALIAS_def split: option.splits cong: if_cong)
qed


text \<open>
  C23. A PUBLISH crosses the link from edge to kernel: at every protocol level the kernel decodes the
  topic, the packet identifier, the quality of service, the retain flag, the alias and the
  properties that the edge encoded, provided that the texts are UTF-8 and the properties fit the section.
  At level 5 an alias of zero next to a topic arrives as no alias, whether the client sent one or not.
\<close>

theorem publish_in_link:
  assumes e: "publish_meta_for level topic packet_id qos retain dup alias props = Some meta"
    and t: "length topic \<le> 65535" "utf8_valid topic"
    and v: "level = 5 \<Longrightarrow> users_text props \<and> 7 + length (pairs_bin (pv_users props)) \<le> MAX_PUBLISH_V5_SECTION_LEN"
  shows "decode_publish_meta meta =
    (let (a, present) = alias_seen level topic alias in
     Some (of_bytes topic, packet_id, qos, retain, a, present, if level = 5 then props else props_default))"
proof (cases "level = 5")
  case True
  let ?a = "case alias of Some a \<Rightarrow> a | None \<Rightarrow> 0"
  let ?x = "u16_to_be ?a @ [pv_format props] @ u32_to_be (pv_expiry props)
    @ u16_to_be (of_nat (length (pv_users props))) @ pairs_bin (pv_users props)"
  from e True have m: "meta = publish_bin topic packet_id qos retain dup @ ?x" "topic \<noteq> [] \<or> ?a \<noteq> 0"
    "pv_format props = 0 \<or> pv_format props = 1" "length (pv_users props) \<le> 16"
    "list_all (edge_pair_ok 1024) (pv_users props)"
    by (auto simp: publish_meta_for_def encode_publish_meta_v5_def encode_meta_users_def split: if_splits)
  define x where "x = ?x"
  have d: "decode_publish_v5_section (publish_bin topic packet_id qos retain dup @ x) (length topic) = Some props"
    by (rule decode_v5_section [OF t(1) m(3-5) _ _ x_def]) (use v True in \<open>simp_all add: MAX_PUBLISH_V5_SECTION_LEN_def\<close>)
  have x: "length x > 2" "slice x 0 2 = u16_to_be ?a" by (simp_all add: slice_def x_def)
  show ?thesis
    unfolding m(1) x_def [symmetric] decode_publish_head [OF t] d x(2)
    using m(2) x(1) True by (cases "?a = 0") (simp_all add: alias_seen_def)
next
  case False
  show ?thesis
  proof (cases "alias")
    case None
    with e False have "meta = publish_bin topic packet_id qos retain dup @ []" "topic \<noteq> []"
      by (auto simp: publish_meta_for_def encode_publish_meta_5_def split: if_splits)
    then show ?thesis using None False decode_publish_head [OF t, where x = "[]"] by (simp add: alias_seen_def)
  next
    case (Some a)
    with e False have "meta = publish_bin topic packet_id qos retain dup @ u16_to_be a" "topic \<noteq> [] \<or> a \<noteq> 0"
      by (auto simp: publish_meta_for_def encode_publish_meta_6_def split: if_splits)
    then show ?thesis
      using Some False decode_publish_head [OF t, where x = "u16_to_be a"] by (simp add: alias_seen_def slice_whole)
  qed
qed

definition demo_props :: publish_v5_props where
  "demo_props = \<lparr>pv_format = 1, pv_expiry = 30, pv_users = [(as_bytes ''k'', as_bytes ''v'')]\<rparr>"

theorem publish_in_link_witness:
  "\<exists>meta. publish_meta_for 5 (as_bytes ''a/b'') 3 1 True False None demo_props = Some meta
     \<and> decode_publish_meta meta = Some (''a/b'', 3, 1, True, 0, False, demo_props)"
proof -
  obtain meta where e: "publish_meta_for 5 (as_bytes ''a/b'') 3 1 True False None demo_props = Some meta"
    by (simp add: publish_meta_for_def encode_publish_meta_v5_def encode_meta_users_def edge_qos_ok_def
        edge_pair_ok_def demo_props_def)
  have l: "length (as_bytes ''a/b'') \<le> 65535" by simp
  have t: "utf8_valid (as_bytes ''a/b'')" "users_text demo_props" by code_simp+
  have s: "7 + length (pairs_bin (pv_users demo_props)) \<le> MAX_PUBLISH_V5_SECTION_LEN"
    by (simp add: pairs_bin_def demo_props_def MAX_PUBLISH_V5_SECTION_LEN_def)
  show ?thesis
    using e publish_in_link [OF e l t(1) conjI [OF t(2) s]] unfolding of_bytes_as_bytes
    by (simp add: alias_seen_def)
qed

section \<open>Publish metadata, kernel to edge\<close>

lemma length_publish_bin [simp]: "length (publish_bin topic pid q r d) = 7 + length topic"
  by (simp add: publish_bin_def)

lemma edge_reads_publish:
  assumes t: "length topic \<le> 65535" and q: "edge_qos_ok qos" and a: "topic \<noteq> [] \<or> alias \<noteq> 0"
  shows "edge_decode_publish_meta (publish_bin topic pid qos r d @ u16_to_be alias) =
      Some \<lparr>ep_topic = topic, ep_packet_id = pid, ep_qos = qos, ep_retain = r, ep_dup = d, ep_alias = alias,
            ep_sub_id = 0, ep_props = props_default\<rparr>" (is ?bare)
    and "edge_decode_publish_meta (publish_bin topic pid qos r d @ u16_to_be alias @ u32_to_be sub) =
      Some \<lparr>ep_topic = topic, ep_packet_id = pid, ep_qos = qos, ep_retain = r, ep_dup = d, ep_alias = alias,
            ep_sub_id = sub, ep_props = props_default\<rparr>" (is ?sub)
    and "pv_format v = 0 \<or> pv_format v = 1 \<Longrightarrow> length (pv_users v) \<le> 16 \<Longrightarrow>
      list_all (edge_pair_ok 1024) (pv_users v) \<Longrightarrow>
      edge_decode_publish_meta (publish_bin topic pid qos r d @ u16_to_be alias @ u32_to_be sub @ [pv_format v]
        @ u32_to_be (pv_expiry v) @ u16_to_be (of_nat (length (pv_users v))) @ pairs_bin (pv_users v)) =
      Some \<lparr>ep_topic = topic, ep_packet_id = pid, ep_qos = qos, ep_retain = r, ep_dup = d, ep_alias = alias,
            ep_sub_id = sub, ep_props = v\<rparr>" (is "_ \<Longrightarrow> _ \<Longrightarrow> _ \<Longrightarrow> ?props")
proof -
  note h = publish_head_fields [OF t, where pid = pid and q = qos and r = r and d = d]
  have i: "2 + length topic + 5 = 2 + length topic + (5 + 0)" "2 + length topic + 7 = 2 + length topic + (5 + 2)"
    "2 + length topic + 11 = 2 + length topic + (5 + 6)" "2 + length topic + (5 + 6) + 7 = 2 + length topic + (5 + 13)"
    "2 + length topic + (5 + 6) + 5 = 2 + length topic + (5 + 11)"
    "2 + length topic + (5 + 6) + 1 = 2 + length topic + (5 + 7)"
    by simp_all
  have size: "length (publish_bin topic pid qos r d @ x) - (2 + length topic + (5 + 0)) = length x" for x
    unfolding h(7) by simp
  show ?bare
    unfolding edge_decode_publish_meta_def Let_def h(1-6) i h(8-11) size
    using q a by (simp add: slice_whole)
  show ?sub
    unfolding edge_decode_publish_meta_def Let_def h(1-6) i h(8-11) size
    using q a by (simp add: slice_def)
  show ?props if "pv_format v = 0 \<or> pv_format v = 1" "length (pv_users v) \<le> 16"
    "list_all (edge_pair_ok 1024) (pv_users v)"
  proof -
    let ?x = "u16_to_be alias @ u32_to_be sub @ [pv_format v]
        @ u32_to_be (pv_expiry v) @ u16_to_be (of_nat (length (pv_users v))) @ pairs_bin (pv_users v)"
    have f: "slice ?x 0 2 = u16_to_be alias" "slice ?x 2 6 = u32_to_be sub" "?x ! 6 = pv_format v"
      "slice ?x 7 11 = u32_to_be (pv_expiry v)" "be16 ?x 11 = length (pv_users v)" "drop 13 ?x = pairs_bin (pv_users v)"
      "length ?x = 13 + length (pairs_bin (pv_users v))"
      using that(2) by (simp_all add: slice_def be16_def nth_append drop_Cons')
    have users: "decode_meta_users (pairs_bin (pv_users v)) (length (pv_users v)) [] = Some (pv_users v, [])"
      using take_pairs_bin [OF that(3), of "[]" "[]"] by (simp add: decode_meta_users_def)
    show ?thesis
      unfolding edge_decode_publish_meta_def Let_def h(1-6) i h(8-11) size f users
      using q a that by (simp add: slice_def)
  qed
qed


definition props_sendable :: "publish_v5_props \<Rightarrow> bool" where
  "props_sendable v \<longleftrightarrow> (pv_format v = 0 \<or> pv_format v = 1) \<and> length (pv_users v) \<le> MAX_PUBLISH_V5_USERS
     \<and> list_all user_pair_ok (pv_users v)"

lemma publish_head_bin: "publish_head topic pid q r d = publish_bin (as_bytes topic) pid q r d"
  by (simp add: publish_head_def publish_bin_def sized_def bool_u8_cases)

lemma user_bytes_bin: "concat (map user_pair_bytes us) = pairs_bin us"
  by (induction us) (auto simp: user_pair_bytes_def pairs_bin_def sized_def)

lemma user_ok_edge: "list_all user_pair_ok us \<Longrightarrow> list_all (edge_pair_ok 1024) us"
  by (induction us) (auto simp: user_pair_ok_def edge_pair_ok_def MAX_PUBLISH_V5_STRING_def not_less Suc_le_eq)

lemma ok_frame_meta: "ok_frame (frame_new opc c s m p) = Some f \<Longrightarrow> f_metadata f = m \<and> length m \<le> 65535"
  by (auto simp: ok_frame_def frame_new_def split: sum.splits if_splits)

text \<open>
  C24. A delivery crosses the link from kernel to edge: the edge decodes from the metadata of every
  \<open>PublishOut\<close> frame the topic, the packet identifier, the quality of service, the retain and duplicate
  flags, the alias, the subscription identifier if it is in range, and the properties if they are
  within the bounds, as the kernel encoded them; no form of the metadata is mistaken for another.
\<close>

theorem publish_out_link:
  assumes e: "encode_publish_out_full_with_props conn_id topic packet_id qos retain dup alias sub_id payload v5 = Some f"
    and q: "qos \<in> {0, 1, 2}" and t: "topic \<noteq> [] \<or> alias \<noteq> 0"
  shows "edge_decode_publish_meta (f_metadata f) =
    Some \<lparr>ep_topic = as_bytes topic, ep_packet_id = packet_id, ep_qos = qos, ep_retain = retain, ep_dup = dup,
      ep_alias = alias, ep_sub_id = (if sub_id > MAX_SUBSCRIPTION_ID then 0 else sub_id),
      ep_props = (if props_sendable v5 then v5 else props_default)\<rparr>"
proof -
  let ?h = "publish_bin (as_bytes topic) packet_id qos retain dup @ u16_to_be alias"
  let ?sub = "if sub_id = 0 \<or> sub_id > MAX_SUBSCRIPTION_ID then 0 else sub_id"
  have qos: "edge_qos_ok qos" using q by (auto simp: edge_qos_ok_def)
  have t': "as_bytes topic \<noteq> [] \<or> alias \<noteq> 0" using t by simp
  have empty: "v5 = props_default" if "props_is_empty v5"
    using that by (cases v5) (simp add: props_is_empty_def props_default_def)
  show ?thesis
  proof (cases "props_is_empty v5 \<or> \<not> props_sendable v5")
    case True
    then have p: "(if props_sendable v5 then v5 else props_default) = props_default" using empty by auto
    from e True have f: "encode_publish_out_full conn_id topic packet_id qos retain dup alias sub_id payload = Some f"
      unfolding encode_publish_out_full_with_props_def props_sendable_def by (auto split: if_splits)
    show ?thesis
    proof (cases "sub_id = 0 \<or> sub_id > MAX_SUBSCRIPTION_ID")
      case True
      with f have m: "f_metadata f = ?h" "length ?h \<le> 65535"
        by (auto simp: encode_publish_out_full_def encode_publish_out_with_dup_def encode_publish_out_def
            publish_head_bin encode_topic_alias_def dest!: ok_frame_meta split: if_splits)
      from m(2) have "length (as_bytes topic) \<le> 65535" by simp
      from edge_reads_publish(1) [OF this qos t'] True m(1) p show ?thesis by auto
    next
      case False
      with f have m: "f_metadata f = ?h @ u32_to_be sub_id" "length (?h @ u32_to_be sub_id) \<le> 65535"
        by (auto simp: encode_publish_out_full_def publish_head_bin encode_topic_alias_def dest!: ok_frame_meta
            split: if_splits)
      from m(2) have "length (as_bytes topic) \<le> 65535" by simp
      from edge_reads_publish(2) [OF this qos t'] False m(1) p show ?thesis by auto
    qed
  next
    case False
    then have v: "pv_format v5 = 0 \<or> pv_format v5 = 1" "length (pv_users v5) \<le> 16"
      "list_all (edge_pair_ok 1024) (pv_users v5)"
      by (auto simp: props_sendable_def MAX_PUBLISH_V5_USERS_def user_ok_edge)
    let ?m = "?h @ u32_to_be ?sub @ [pv_format v5]
      @ u32_to_be (pv_expiry v5) @ u16_to_be (of_nat (length (pv_users v5))) @ pairs_bin (pv_users v5)"
    from e False have "ok_frame (frame_new PublishOut conn_id 0 ?m payload) = Some f"
      unfolding encode_publish_out_full_with_props_def props_sendable_def Let_def
      by (auto simp: publish_head_bin encode_topic_alias_def user_bytes_bin split: if_splits)
    then have m: "f_metadata f = ?m" "length ?m \<le> 65535" using ok_frame_meta by blast+
    from m(2) have "length (as_bytes topic) \<le> 65535" by simp
    from edge_reads_publish(3) [OF this qos t' v] False m(1) show ?thesis by auto
  qed
qed


theorem publish_out_link_witness:
  "\<exists>f. encode_publish_out_full_with_props 4 ''a/b'' 3 1 True False 0 9 [1] demo_props = Some f
     \<and> edge_decode_publish_meta (f_metadata f) = Some \<lparr>ep_topic = as_bytes ''a/b'', ep_packet_id = 3, ep_qos = 1,
       ep_retain = True, ep_dup = False, ep_alias = 0, ep_sub_id = 9, ep_props = demo_props\<rparr>"
proof -
  have p: "list_all user_pair_ok (pv_users demo_props)"
    by (simp add: demo_props_def user_pair_ok_def MAX_PUBLISH_V5_STRING_def)
  then obtain f where e: "encode_publish_out_full_with_props 4 ''a/b'' 3 1 True False 0 9 [1] demo_props = Some f"
    by (simp add: encode_publish_out_full_with_props_def props_is_empty_def demo_props_def MAX_PUBLISH_V5_USERS_def
        ok_frame_def frame_new_def publish_head_def encode_topic_alias_def user_pair_bytes_def)
  have "props_sendable demo_props"
    using p by (simp add: props_sendable_def) (simp add: demo_props_def MAX_PUBLISH_V5_USERS_def)
  then show ?thesis using e publish_out_link [OF e] by (simp add: MAX_SUBSCRIPTION_ID_def)
qed

section \<open>Subscribe metadata\<close>

definition filters_text :: "(bytes \<times> u8) list \<Rightarrow> bool" where
  "filters_text subs \<longleftrightarrow> list_all (\<lambda>(f, opts). f \<noteq> [] \<and> length f \<le> 65535 \<and> utf8_valid f) subs"

lemma entry_v5_step:
  assumes "f \<noteq> []" and "length f \<le> 65535" and "utf8_valid f" and "length sid = 4"
  shows "decode_subscribe_entries_v5 (Suc n) (sized f @ [opts] @ sid @ r) =
    map_option (Cons \<lparr>se_filter = of_bytes f, se_opts_raw = opts, se_subscription_id = u32_from_be sid, se_has_options = True\<rparr>)
      (decode_subscribe_entries_v5 n r)"
proof -
  let ?t = "sized f @ [opts] @ sid @ r"
  have i: "be16 ?t 0 = length f" "slice ?t 2 (2 + length f) = f" "?t ! (2 + length f) = opts"
    "slice ?t (3 + length f) (7 + length f) = sid" "drop (7 + length f) ?t = r"
    using assms slice_sized [of f] by (simp_all add: be16_sized nth_append slice_def)
  have l: "\<not> length ?t < 2 + 1 + 4" "\<not> length ?t < 2 + length f + 1 + 4" using assms(4) by simp_all
  show ?thesis
    unfolding decode_subscribe_entries_v5.simps Let_def i using l assms by (simp add: from_utf8_def)
qed

lemma entries_v5_roundtrip:
  assumes "filters_text subs"
  shows "decode_subscribe_entries_v5 (length subs) (concat (map (\<lambda>(f, opts). sized f @ [opts] @ u32_to_be sid) subs)) =
    Some (map (\<lambda>(f, opts). \<lparr>se_filter = of_bytes f, se_opts_raw = opts, se_subscription_id = sid, se_has_options = True\<rparr>) subs)"
  using assms
proof (induction subs)
  case (Cons s subs)
  obtain f opts where "s = (f, opts)" by (cases s)
  with Cons entry_v5_step [of f "u32_to_be sid" "length subs" opts] show ?case
    by (simp add: filters_text_def)
qed simp

lemma subscribe_head:
  assumes "pid \<noteq> 0" and "length cid \<le> 65535" and "utf8_valid cid" and "n \<le> 65535"
  shows "decode_subscribe_meta (u16_to_be pid @ sized cid @ u16_to_be (of_nat n) @ rest) =
    (case decode_subscribe_entries_v5 n rest of
       Some entries \<Rightarrow> Some (pid, of_bytes cid, entries)
     | None \<Rightarrow> map_option (\<lambda>subs. (pid, of_bytes cid, subs)) (decode_subscribe_entries n rest))"
proof -
  let ?m = "u16_to_be pid @ sized cid @ u16_to_be (of_nat n) @ rest"
  have i: "take 2 ?m = u16_to_be pid" "be16 ?m 2 = length cid" "slice ?m 4 (4 + length cid) = cid"
    "be16 ?m (4 + length cid) = n" "drop (6 + length cid) ?m = rest"
    using assms by (simp_all add: be16_def slice_def sized_def)
  have l: "\<not> length ?m < 6" "\<not> length ?m < 4 + length cid + 2" by simp_all
  show ?thesis
    unfolding decode_subscribe_meta_def Let_def i from_be_to_be using l assms(1,3) by (simp add: from_utf8_def)
qed

lemma subscribe_replies:
  assumes t: "length client_id \<le> 65535" "utf8_valid client_id" and f: "filters_text subs"
  shows "encode_subscribe_meta_v5 packet_id client_id subs sub_id = Some meta \<Longrightarrow>
      decode_subscribe_meta meta = Some (packet_id, of_bytes client_id,
        map (\<lambda>(f, opts). \<lparr>se_filter = of_bytes f, se_opts_raw = opts, se_subscription_id = sub_id, se_has_options = True\<rparr>) subs)"
    and "encode_subscribe_meta packet_id client_id subs = Some meta \<Longrightarrow> length subs = 1 \<Longrightarrow>
      decode_subscribe_meta meta = Some (packet_id, of_bytes client_id,
        map (\<lambda>(f, qos). \<lparr>se_filter = of_bytes f, se_opts_raw = qos, se_subscription_id = 0, se_has_options = False\<rparr>) subs)"
proof -
  assume e: "encode_subscribe_meta_v5 packet_id client_id subs sub_id = Some meta"
  then have "packet_id \<noteq> 0" "length subs \<le> 65535"
    and m: "meta = u16_to_be packet_id @ sized client_id @ u16_to_be (of_nat (length subs))
      @ concat (map (\<lambda>(f, opts). sized f @ [opts] @ u32_to_be sub_id) subs)"
    by (auto simp: encode_subscribe_meta_v5_def validate_meta_subs_v5_def split: if_splits)
  then show "decode_subscribe_meta meta = Some (packet_id, of_bytes client_id,
      map (\<lambda>(f, opts). \<lparr>se_filter = of_bytes f, se_opts_raw = opts, se_subscription_id = sub_id, se_has_options = True\<rparr>) subs)"
    using subscribe_head [OF _ t] entries_v5_roundtrip [OF f] by simp
next
  assume e: "encode_subscribe_meta packet_id client_id subs = Some meta" and one: "length subs = 1"
  obtain x q where s: "subs = [(x, q)]" using one by (cases subs) auto
  from e have p: "packet_id \<noteq> 0" and m: "meta = u16_to_be packet_id @ sized client_id @ u16_to_be (of_nat 1) @ sized x @ [q]"
    by (auto simp: encode_subscribe_meta_def s split: if_splits)
  have x: "x \<noteq> []" "length x \<le> 65535" "utf8_valid x" using f by (simp_all add: s filters_text_def)
  have i: "be16 (sized x @ [q]) 0 = length x" "slice (sized x @ [q]) 2 (2 + length x) = x"
    "(sized x @ [q]) ! (2 + length x) = q" "drop (3 + length x) (sized x @ [q]) = []"
    using x slice_sized [of x] by (simp_all add: be16_sized nth_append)
  have "decode_subscribe_entries_v5 (Suc 0) (sized x @ [q]) = None"
    unfolding decode_subscribe_entries_v5.simps Let_def i by simp
  moreover have "decode_subscribe_entries (Suc 0) (sized x @ [q]) =
      Some [\<lparr>se_filter = of_bytes x, se_opts_raw = q, se_subscription_id = 0, se_has_options = False\<rparr>]"
    unfolding decode_subscribe_entries.simps Let_def i using x by (simp add: from_utf8_def)
  ultimately show "decode_subscribe_meta meta = Some (packet_id, of_bytes client_id,
      map (\<lambda>(f, qos). \<lparr>se_filter = of_bytes f, se_opts_raw = qos, se_subscription_id = 0, se_has_options = False\<rparr>) subs)"
    unfolding m using subscribe_head [OF p t, of 1] by (simp add: s)
qed

text \<open>
  C25. A SUBSCRIBE of version 5 crosses the link: the kernel decodes every filter with its options
  byte and the subscription identifier of the packet, in order; and a SUBSCRIBE of version 4 with a
  single filter arrives with its quality of service and without options.
\<close>

theorem subscribe_link:
  assumes "length client_id \<le> 65535" and "utf8_valid client_id" and "filters_text subs"
  shows "(encode_subscribe_meta_v5 packet_id client_id subs sub_id = Some meta \<longrightarrow>
      decode_subscribe_meta meta = Some (packet_id, of_bytes client_id,
        map (\<lambda>(f, opts). \<lparr>se_filter = of_bytes f, se_opts_raw = opts, se_subscription_id = sub_id, se_has_options = True\<rparr>) subs))
    \<and> (encode_subscribe_meta packet_id client_id subs = Some meta \<and> length subs = 1 \<longrightarrow>
      decode_subscribe_meta meta = Some (packet_id, of_bytes client_id,
        map (\<lambda>(f, qos). \<lparr>se_filter = of_bytes f, se_opts_raw = qos, se_subscription_id = 0, se_has_options = False\<rparr>) subs))"
  using subscribe_replies [OF assms] by blast

theorem subscribe_link_witness:
  "\<exists>meta. encode_subscribe_meta_v5 7 (as_bytes ''c'') [(as_bytes ''a/+'', 0x2D)] 5 = Some meta
     \<and> decode_subscribe_meta meta = Some (7, ''c'',
       [\<lparr>se_filter = ''a/+'', se_opts_raw = 0x2D, se_subscription_id = 5, se_has_options = True\<rparr>])"
proof -
  obtain meta where e: "encode_subscribe_meta_v5 7 (as_bytes ''c'') [(as_bytes ''a/+'', 0x2D)] 5 = Some meta"
    by (simp add: encode_subscribe_meta_v5_def validate_meta_subs_v5_def EDGE_MAX_SUB_ID_def)
  have l: "length (as_bytes ''c'') \<le> 65535" by simp
  have t: "utf8_valid (as_bytes ''c'')" "utf8_valid (as_bytes ''a/+'')" by code_simp+
  have f: "filters_text [(as_bytes ''a/+'', 0x2D)]"
    unfolding filters_text_def using t(2) by (simp del: utf8_valid.simps)
  have "decode_subscribe_meta meta = Some (7, of_bytes (as_bytes ''c''),
      map (\<lambda>(f, opts). \<lparr>se_filter = of_bytes f, se_opts_raw = opts, se_subscription_id = 5, se_has_options = True\<rparr>)
        [(as_bytes ''a/+'', 0x2D)])"
    using subscribe_link [OF l t(1) f, of 7 5 meta] e by blast
  then show ?thesis using e unfolding list.map prod.case of_bytes_as_bytes by blast
qed

text \<open>
  C26. A SUBSCRIBE of version 4 can be misread: when the second of two filters has the length that its own
  third and fourth bytes give plus eight, the kernel reads the metadata as the extended form. The first
  filter then carries a subscription identifier that no client sent, and the second subscription is
  to a part of the second filter.
\<close>

theorem legacy_subscribe_misread:
  assumes e: "encode_subscribe_meta packet_id client_id [(f, q), (g, r)] = Some meta"
    and t: "length client_id \<le> 65535" "utf8_valid client_id" "length f \<le> 65535" "utf8_valid f" "length g \<le> 65535"
    and g: "be16 g 2 = n" "0 < n" "length g = n + 8" "utf8_valid (slice g 4 (4 + n))"
  shows "decode_subscribe_meta meta = Some (packet_id, of_bytes client_id,
    [\<lparr>se_filter = of_bytes f, se_opts_raw = q, se_subscription_id = u32_from_be (u16_to_be (of_nat (length g)) @ take 2 g),
      se_has_options = True\<rparr>,
     \<lparr>se_filter = of_bytes (slice g 4 (4 + n)), se_opts_raw = g ! (4 + n),
      se_subscription_id = u32_from_be (drop (5 + n) g @ [r]), se_has_options = True\<rparr>])"
proof -
  let ?h = "slice g 4 (4 + n)" and ?s1 = "u16_to_be (of_nat (length g)) @ take 2 g" and ?s2 = "drop (5 + n) g @ [r]"
  have f0: "f \<noteq> []" using e by (auto simp: encode_subscribe_meta_def validate_meta_subs_def split: if_splits)
  have hl: "length ?h = n" using g(3) by (simp add: slice_def)
  have "drop 2 g = sized ?h @ drop (4 + n) g"
  proof -
    have b: "be16 (drop 2 g) 0 = n" using g(1) by (simp add: be16_def)
    have "drop 2 g = sized (slice (drop 2 g) 2 (2 + n)) @ drop (2 + n) (drop 2 g)"
      using sized_split [of "drop 2 g"] g(3) b by simp
    moreover have "slice (drop 2 g) 2 (2 + n) = ?h" by (simp add: slice_def)
    moreover have "drop (2 + n) (drop 2 g) = drop (4 + n) g" by (simp only: drop_drop) (simp add: eval_nat_numeral)
    ultimately show ?thesis by metis
  qed
  also have "drop (4 + n) g = g ! (4 + n) # drop (5 + n) g"
    using Cons_nth_drop_Suc [of "4 + n" g] g(3) by simp
  finally have gg: "g = take 2 g @ sized ?h @ g ! (4 + n) # drop (5 + n) g"
    by (metis append_take_drop_id)
  have m: "sized f @ [q] @ sized g @ [r] = sized f @ [q] @ ?s1 @ sized ?h @ [g ! (4 + n)] @ ?s2 @ []"
    using gg by (simp add: sized_def)
  have one: "decode_subscribe_entries_v5 (Suc (Suc 0)) (sized f @ [q] @ ?s1 @ sized ?h @ [g ! (4 + n)] @ ?s2 @ []) =
    map_option (Cons \<lparr>se_filter = of_bytes f, se_opts_raw = q, se_subscription_id = u32_from_be ?s1, se_has_options = True\<rparr>)
      (decode_subscribe_entries_v5 (Suc 0) (sized ?h @ [g ! (4 + n)] @ ?s2 @ []))"
    by (rule entry_v5_step) (use f0 t g in simp_all)
  have two: "decode_subscribe_entries_v5 (Suc 0) (sized ?h @ [g ! (4 + n)] @ ?s2 @ []) =
    map_option (Cons \<lparr>se_filter = of_bytes ?h, se_opts_raw = g ! (4 + n), se_subscription_id = u32_from_be ?s2, se_has_options = True\<rparr>)
      (decode_subscribe_entries_v5 0 [])"
    by (rule entry_v5_step) (use t g hl in auto)
  from e have p: "packet_id \<noteq> 0"
    and meta: "meta = u16_to_be packet_id @ sized client_id @ u16_to_be (of_nat (Suc (Suc 0))) @ sized f @ [q] @ sized g @ [r]"
    by (auto simp: encode_subscribe_meta_def split: if_splits)
  have "decode_subscribe_meta meta =
    (case decode_subscribe_entries_v5 (Suc (Suc 0)) (sized f @ [q] @ sized g @ [r]) of
       Some entries \<Rightarrow> Some (packet_id, of_bytes client_id, entries)
     | None \<Rightarrow> map_option (\<lambda>subs. (packet_id, of_bytes client_id, subs))
         (decode_subscribe_entries (Suc (Suc 0)) (sized f @ [q] @ sized g @ [r])))"
    unfolding meta by (rule subscribe_head [OF p t(1,2)]) simp
  then show ?thesis unfolding m one two by simp
qed

lemma utf8_replicate: "b < 0x80 \<Longrightarrow> utf8_valid (replicate n b)"
  by (induction n) simp_all

definition long_filter :: bytes where
  "long_filter = [0x61, 0x2F, 1, 1] @ replicate 257 0x62 @ [0x2F, 0x63, 0x63, 0x63]"

theorem legacy_subscribe_misread_witness:
  "\<exists>meta. encode_subscribe_meta 7 (as_bytes ''c'') [(as_bytes ''d'', 1), (long_filter, 0)] = Some meta
     \<and> (\<exists>i j opts. decode_subscribe_meta meta = Some (7, ''c'',
       [\<lparr>se_filter = ''d'', se_opts_raw = 1, se_subscription_id = i, se_has_options = True\<rparr>,
        \<lparr>se_filter = of_bytes (replicate 257 0x62), se_opts_raw = opts, se_subscription_id = j, se_has_options = True\<rparr>]))"
proof -
  obtain meta where e: "encode_subscribe_meta 7 (as_bytes ''c'') [(as_bytes ''d'', 1), (long_filter, 0)] = Some meta"
    by (simp add: encode_subscribe_meta_def validate_meta_subs_def long_filter_def)
  have l: "length (as_bytes ''c'') \<le> 65535" "length (as_bytes ''d'') \<le> 65535" "length long_filter \<le> 65535"
    by (simp_all add: long_filter_def)
  have t: "utf8_valid (as_bytes ''c'')" "utf8_valid (as_bytes ''d'')" by code_simp+
  have s: "slice long_filter 4 (4 + 257) = replicate 257 0x62" by (simp add: long_filter_def slice_def)
  have g: "be16 long_filter 2 = 257" "(0 :: nat) < 257" "length long_filter = 257 + 8"
    "utf8_valid (slice long_filter 4 (4 + 257))"
    unfolding s by (simp_all add: long_filter_def be16_def u16_from_be_def be_value_def utf8_replicate)
  show ?thesis
    using e legacy_subscribe_misread [OF e l(1) t(1) l(2) t(2) l(3) g] unfolding s of_bytes_as_bytes by blast
qed

section \<open>Frames\<close>

definition edge_view :: "frame_header \<Rightarrow> edge_header" where
  "edge_view h = \<lparr>eh_version = h_version h, eh_flags = h_flags h, eh_opcode = opcode_to_u16 (h_opcode h),
     eh_conn_id = h_conn_id h, eh_seq_no = h_sequence_no h, eh_meta_len = h_meta_len h,
     eh_payload_len = h_payload_len h\<rparr>"

text \<open>The answer of the edge's decoder that says the same as an answer of the kernel's codec.\<close>

fun same_answer :: "edge_decoded \<Rightarrow> brokerlink_error + (broker_frame \<times> bytes) option \<Rightarrow> bool" where
  "same_answer (EdgeMore n) k \<longleftrightarrow> 0 < n \<and> k = Ok None"
| "same_answer (EdgeError (EdgeInvalidMagic a b)) k \<longleftrightarrow> k = Err (InvalidMagic a b)"
| "same_answer (EdgeError (EdgeUnsupportedVersion v)) k \<longleftrightarrow> k = Err (UnsupportedVersion v)"
| "same_answer (EdgeError (EdgeUnknownOpcode n)) k \<longleftrightarrow> k = Err (UnknownOpcode n)"
| "same_answer (EdgeFrame h m p r) k \<longleftrightarrow>
    (\<exists>f. k = Ok (Some (f, r)) \<and> edge_view (f_header f) = h \<and> f_metadata f = m \<and> f_payload f = p)"

lemma opcode_tables: "opcode_to_int (Atom opc) = Some (opcode_to_u16 opc)"
  by (cases opc) simp_all

lemma known_opcode: "is_known_opcode v \<longleftrightarrow> (\<exists>opc. opcode_try_from v = Ok opc)"
proof
  assume "is_known_opcode v"
  then show "\<exists>opc. opcode_try_from v = Ok opc" by (auto simp: is_known_opcode_def opcode_try_from_def)
next
  assume "\<exists>opc. opcode_try_from v = Ok opc"
  then obtain opc where "v = opcode_to_u16 opc" by (auto simp: opcode_try_from_Ok)
  then show "is_known_opcode v" by (cases opc) (simp_all add: is_known_opcode_def)
qed

lemma unknown_opcode: "\<not> is_known_opcode v \<Longrightarrow> opcode_try_from v = Err (UnknownOpcode v)"
  by (auto simp: is_known_opcode_def opcode_try_from_def)

text \<open>The length of the frame that a header announces, and the headers that the edge's decoder accepts.\<close>

definition announced_len :: "bytes \<Rightarrow> nat" where
  "announced_len bin = 28 + unat (u16_from_be (slice bin 22 24)) + unat (u32_from_be (slice bin 24 28))"

definition header_accepted :: "bytes \<Rightarrow> bool" where
  "header_accepted bin \<longleftrightarrow> 28 \<le> length bin \<and> (case decode_frame bin of EdgeError _ \<Rightarrow> False | _ \<Rightarrow> True)"

lemma encode_atom:
  "encode_frame (Atom opc) conn_id seq_no meta payload =
     (case frame_new opc conn_id seq_no meta payload of Inr f \<Rightarrow> Some (frame_encode f) | Inl e \<Rightarrow> None)"
  by (simp add: encode_frame_def frame_new_def frame_encode_def header_encode_def header_new_def MAGIC_def
      PROTOCOL_VERSION_1_def opcode_tables not_le)

lemma encode_code:
  assumes "encode_frame (Code n) conn_id seq_no meta payload = Some b"
  shows "case opcode_try_from (of_int n) of
      Inr opc \<Rightarrow> encode_frame (Atom opc) conn_id seq_no meta payload = Some b
    | Inl e \<Rightarrow> decode_frame (b @ rest) = EdgeError (EdgeUnknownOpcode (of_int n))
        \<and> codec_decode max_size (b @ rest) = Err (UnknownOpcode (of_int n))"
proof (cases "opcode_try_from (of_int n)")
  case (Inr opc)
  then have "of_int n = opcode_to_u16 opc" by (simp add: opcode_try_from_Ok)
  with assms Inr show ?thesis by (simp add: encode_frame_def opcode_tables split: if_splits)
next
  case (Inl e)
  then have unknown: "\<not> is_known_opcode (of_int n)" by (auto simp: known_opcode)
  from unknown_opcode [OF this] Inl have e: "e = UnknownOpcode (of_int n)" by simp
  obtain tail where b: "b @ rest = [0x42, 0x4C, 1, 0] @ u16_to_be (of_int n) @ tail" "22 \<le> length tail"
    using assms by (auto simp: encode_frame_def split: if_splits)
  have "u16_from_be (slice (b @ rest) 4 6) = of_int n" "u16_from_be (take 2 (drop 4 (b @ rest))) = of_int n"
    unfolding b(1) by (simp_all add: slice_def)
  with unknown b(2) show ?thesis
    by (simp add: Inl e decode_frame_def codec_decode_def HEADER_LEN_def MAGIC_def PROTOCOL_VERSION_1_def Let_def b(1))
qed

lemma decoders_agree:
  "if header_accepted bin \<and> max_size < announced_len bin
   then codec_decode max_size bin = Err (FrameTooLarge (announced_len bin) max_size)
   else same_answer (decode_frame bin) (codec_decode max_size bin)"
proof -
  let ?op = "u16_from_be (take 2 (drop 4 bin))" and ?m = "unat (u16_from_be (take 2 (drop 22 bin)))"
    and ?p = "unat (u32_from_be (take 4 (drop 24 bin)))"
  have sl: "slice bin i j = take (j - i) (drop i bin)" for i j by (simp add: slice_def)
  have an: "announced_len bin = 28 + ?m + ?p" by (simp add: announced_len_def sl)
  note d = decode_frame_def codec_decode_def HEADER_LEN_def MAGIC_def PROTOCOL_VERSION_1_def Let_def sl
  consider (short) "length bin < 28" | (magic) "\<not> length bin < 28" "bin ! 0 \<noteq> 0x42 \<or> bin ! 1 \<noteq> 0x4C"
    | (version) "\<not> length bin < 28" "bin ! 0 = 0x42" "bin ! 1 = 0x4C" "bin ! 2 \<noteq> 1"
    | (code) "\<not> length bin < 28" "bin ! 0 = 0x42" "bin ! 1 = 0x4C" "bin ! 2 = 1" "\<not> is_known_opcode ?op"
    | (good) opc where "\<not> length bin < 28" "bin ! 0 = 0x42" "bin ! 1 = 0x4C" "bin ! 2 = 1" "opcode_try_from ?op = Ok opc"
    using known_opcode by blast
  then show ?thesis
  proof cases
    case short
    then show ?thesis by (simp add: header_accepted_def d)
  next
    case magic
    then show ?thesis by (auto simp: header_accepted_def d)
  next
    case version
    then show ?thesis by (simp add: header_accepted_def d)
  next
    case code
    then show ?thesis by (simp add: header_accepted_def d unknown_opcode)
  next
    case (good opc)
    then have k: "is_known_opcode ?op" and o: "opcode_to_u16 opc = ?op"
      by (auto simp: known_opcode opcode_try_from_Ok)
    have acc: "header_accepted bin" using good k by (simp add: header_accepted_def decode_frame_def Let_def sl)
    show ?thesis
    proof (cases "28 + (?m + ?p) > max_size")
      case True
      with good acc show ?thesis by (simp add: an d add.assoc)
    next
      case False
      then have small: "\<not> max_size < announced_len bin" by (simp add: an)
      show ?thesis
      proof (cases "length bin < 28 + ?m + ?p")
        case True
        with False small good k show ?thesis by (simp add: d)
      next
        case long: False
        with False small good k o show ?thesis
          by (simp add: d edge_view_def add.assoc add.commute add.left_commute)
      qed
    qed
  qed
qed

text \<open>
  C27. The two ends of the link have one frame format. With an opcode given by name, the edge
  encodes exactly the frames that the kernel constructs, byte for byte. With an opcode given as an
  integer that names one, it encodes the same frame as with the name; any other 16-bit integer gives a
  frame that both decoders refuse for its opcode, and other integers give none. On every byte string
  the edge's decoder and the kernel's codec agree, whether more bytes are needed, the frame is
  refused and why, or a frame with its fields and the remaining bytes is decoded, with one exception:
  the kernel refuses a frame with an acceptable header that announces more than its limit.
\<close>

theorem frame_codecs_agree:
  "encode_frame (Atom opc) conn_id seq_no meta payload =
     (case frame_new opc conn_id seq_no meta payload of Inr f \<Rightarrow> Some (frame_encode f) | Inl e \<Rightarrow> None)
   \<and> (case encode_frame (Code n) conn_id seq_no meta payload of
        Some b \<Rightarrow> 0 \<le> n \<and> n \<le> 0xFFFF \<and>
          (case opcode_try_from (of_int n) of
             Inr opc \<Rightarrow> encode_frame (Atom opc) conn_id seq_no meta payload = Some b
           | Inl e \<Rightarrow> decode_frame (b @ rest) = EdgeError (EdgeUnknownOpcode (of_int n))
               \<and> codec_decode max_size (b @ rest) = Err (UnknownOpcode (of_int n)))
      | None \<Rightarrow> n < 0 \<or> 0xFFFF < n \<or> 65535 < length meta \<or> 4294967295 < length payload)
   \<and> (if header_accepted bin \<and> max_size < announced_len bin
      then codec_decode max_size bin = Err (FrameTooLarge (announced_len bin) max_size)
      else same_answer (decode_frame bin) (codec_decode max_size bin))"
proof (intro conjI)
  show "case encode_frame (Code n) conn_id seq_no meta payload of
        Some b \<Rightarrow> 0 \<le> n \<and> n \<le> 0xFFFF \<and>
          (case opcode_try_from (of_int n) of
             Inr opc \<Rightarrow> encode_frame (Atom opc) conn_id seq_no meta payload = Some b
           | Inl e \<Rightarrow> decode_frame (b @ rest) = EdgeError (EdgeUnknownOpcode (of_int n))
               \<and> codec_decode max_size (b @ rest) = Err (UnknownOpcode (of_int n)))
      | None \<Rightarrow> n < 0 \<or> 0xFFFF < n \<or> 65535 < length meta \<or> 4294967295 < length payload"
  proof (cases "encode_frame (Code n) conn_id seq_no meta payload")
    case None
    then show ?thesis by (auto simp: encode_frame_def split: if_splits)
  next
    case (Some b)
    then have "0 \<le> n \<and> n \<le> 0xFFFF" by (auto simp: encode_frame_def split: if_splits)
    with encode_code [OF Some, of rest max_size] Some show ?thesis by simp
  qed
qed (rule encode_atom, rule decoders_agree)

section \<open>Acknowledgements, unbind and credit\<close>

text \<open>
  The small messages cross the link in both directions: acknowledgements with their packet
  identifier and reason, the unbind with the client and the reason of version 5, and the credit report.
\<close>

lemma small_messages_link:
  assumes "packet_id \<noteq> 0" and "length client_id \<le> 65535" and "utf8_valid client_id"
  shows "map_option decode_puback_meta (encode_puback_meta packet_id rc) = Some (Some packet_id)
    \<and> map_option decode_qos2_meta (encode_pubrec_meta packet_id) = Some (Some packet_id)
    \<and> map_option decode_qos2_meta (encode_pubrel_meta packet_id) = Some (Some packet_id)
    \<and> map_option decode_qos2_meta (encode_pubcomp_meta packet_id) = Some (Some packet_id)
    \<and> map_option (\<lambda>f. edge_decode_puback_meta (f_metadata f)) (pub_ack_reply g packet_id rc) = Some (Some (packet_id, rc))
    \<and> map_option (\<lambda>f. decode_pubrel_meta (f_metadata f)) (encode_pubrel_out conn_id packet_id) = Some (Some packet_id)
    \<and> decode_unbind_meta_full (encode_unbind_meta client_id reason) = Some (of_bytes client_id, reason)
    \<and> decode_credit_meta (encode_credit_meta used_frames used_bytes) = Some (used_frames, used_bytes)"
proof (intro conjI)
  have one: "packet_id \<ge> 1" using assms(1) by (simp add: word_le_nat_alt unat_gt_0 Suc_le_eq)
  have ub: "be16 (sized client_id @ r) 0 = length client_id" "slice (sized client_id @ r) 2 (2 + length client_id) = client_id"
    for r using assms(2) by (simp_all only: be16_sized slice_sized)
  show "map_option decode_puback_meta (encode_puback_meta packet_id rc) = Some (Some packet_id)"
    "map_option decode_qos2_meta (encode_pubrec_meta packet_id) = Some (Some packet_id)"
    "map_option decode_qos2_meta (encode_pubrel_meta packet_id) = Some (Some packet_id)"
    "map_option decode_qos2_meta (encode_pubcomp_meta packet_id) = Some (Some packet_id)"
    using one assms(1)
    by (simp_all add: encode_puback_meta_def decode_puback_meta_def encode_pubrec_meta_def encode_pubrel_meta_def
        encode_pubcomp_meta_def decode_qos2_meta_def decode_qos2_meta_with_reason_def)
  show "map_option (\<lambda>f. edge_decode_puback_meta (f_metadata f)) (pub_ack_reply g packet_id rc) = Some (Some (packet_id, rc))"
    "map_option (\<lambda>f. decode_pubrel_meta (f_metadata f)) (encode_pubrel_out conn_id packet_id) = Some (Some packet_id)"
    using assms(1)
    by (simp_all add: pub_ack_reply_def encode_pubrel_out_def ok_frame_def frame_new_def edge_decode_puback_meta_def
        decode_pubrel_meta_def nth_append)
  show "decode_credit_meta (encode_credit_meta used_frames used_bytes) = Some (used_frames, used_bytes)"
    by (simp add: decode_credit_meta_def encode_credit_meta_def slice_def)
  show "decode_unbind_meta_full (encode_unbind_meta client_id reason) = Some (of_bytes client_id, reason)"
  proof (cases reason)
    case None
    then show ?thesis
      using ub [of "[]"] assms(3) by (simp add: decode_unbind_meta_full_def encode_unbind_meta_def from_utf8_def)
  next
    case (Some rc)
    then show ?thesis
      using ub [of "[rc]"] assms(3)
      by (simp add: decode_unbind_meta_full_def encode_unbind_meta_def from_utf8_def nth_append)
  qed
qed

end
