(* ===== verification/Tenant.thy ===== *)
theory Tenant
  imports Subscriptions
begin

text \<open>
  The assignment of a tenant to a connecting client (\<^verbatim>\<open>crates/broker-session/src/tenant.rs\<close>): the
  rules and their validation, the registry, the rendering of an expression over the context of the
  connect, and the choice of the tenant. An error is a value of a datatype in place of its text.
  The lemmas show that a tenant is always the default one or valid, that a rejected list of rules
  changes nothing, and that a rendered value is scanned again for the later placeholders.
\<close>

section \<open>Text helpers of the standard library\<close>

text \<open>\<open>s.contains(p)\<close>, \<open>s.replace(p, to)\<close> with a pattern that is not empty, and \<open>c.is_control()\<close> of some character.\<close>

fun str_contains :: "string \<Rightarrow> string \<Rightarrow> bool" where
  "str_contains p [] = (p = [])"
| "str_contains p (c # cs) = (take (length p) (c # cs) = p \<or> str_contains p cs)"

fun str_replace :: "string \<Rightarrow> string \<Rightarrow> string \<Rightarrow> string" where
  "str_replace p to [] = []"
| "str_replace p to (c # cs) =
    (if p \<noteq> [] \<and> take (length p) (c # cs) = p then to @ str_replace p to (drop (length p - 1) cs)
     else c # str_replace p to cs)"

definition ascii_control :: "char \<Rightarrow> bool" where
  "ascii_control c \<longleftrightarrow> (of_char c :: nat) < 0x20 \<or> c = CHR 0x7F"

text \<open>The control characters are those of ASCII and U+0080 to U+009F, whose UTF-8 form starts with the byte C2.\<close>

fun any_control :: "string \<Rightarrow> bool" where
  "any_control [] = False"
| "any_control (c # cs) =
    (ascii_control c \<or> (c = CHR 0xC2 \<and> (case cs of d # _ \<Rightarrow> (of_char d :: nat) \<le> 0x9F | [] \<Rightarrow> False))
     \<or> any_control cs)"

section \<open>Rules and registry\<close>

definition TENANT_ATTRIBUTE_NAME :: string where
  "TENANT_ATTRIBUTE_NAME = ''tenant''"

definition MAX_TENANT_RULES :: nat where
  "MAX_TENANT_RULES = 32"

definition MAX_TENANT_EXPRESSION_LEN :: nat where
  "MAX_TENANT_EXPRESSION_LEN = 1024"

definition MAX_TENANT_LISTENER_LEN :: nat where
  "MAX_TENANT_LISTENER_LEN = 64"

definition MAX_TENANT_ATTRIBUTE_LEN :: nat where
  "MAX_TENANT_ATTRIBUTE_LEN = 64"

record connect_context =
  cc_client_id :: string
  cc_username :: "string option"
  cc_peer_host :: "string option"
  cc_listener :: string
  cc_cert_cn :: "string option"
  cc_cert_subject :: "string option"
  cc_cert_sans :: "string list"
  cc_user_properties :: "(string \<times> string) list option"

record tenant_rule =
  tr_listener :: string
  tr_attribute :: string
  tr_expression :: string

datatype tenant_rule_error = ListenerTooLong | AttributeEmpty | AttributeTooLong | AttributeChars | ExpressionTooLong

datatype tenant_error = TooManyRules nat | BadRule nat tenant_rule_error

definition attribute_char :: "char \<Rightarrow> bool" where
  "attribute_char c \<longleftrightarrow>
     (let n = (of_char c :: nat) in
      48 \<le> n \<and> n \<le> 57 \<or> 65 \<le> n \<and> n \<le> 90 \<or> 97 \<le> n \<and> n \<le> 122 \<or> c = CHR ''_'' \<or> c = CHR ''-'')"

definition tenant_rule_validate :: "tenant_rule \<Rightarrow> tenant_rule_error + unit" where
  "tenant_rule_validate rule =
     (if length (tr_listener rule) > MAX_TENANT_LISTENER_LEN then Err ListenerTooLong
      else if tr_attribute rule = [] then Err AttributeEmpty
      else if length (tr_attribute rule) > MAX_TENANT_ATTRIBUTE_LEN then Err AttributeTooLong
      else if \<not> list_all attribute_char (tr_attribute rule) then Err AttributeChars
      else if length (tr_expression rule) > MAX_TENANT_EXPRESSION_LEN then Err ExpressionTooLong
      else Ok ())"

record tenant_registry =
  tg_rules :: "tenant_rule list"
  tg_fallbacks :: u64

definition tenant_registry_new :: tenant_registry where
  "tenant_registry_new = \<lparr>tg_rules = [], tg_fallbacks = 0\<rparr>"

fun validate_rules :: "nat \<Rightarrow> tenant_rule list \<Rightarrow> tenant_error + unit" where
  "validate_rules i [] = Ok ()"
| "validate_rules i (rule # rules) =
    (case tenant_rule_validate rule of Err e \<Rightarrow> Err (BadRule i e) | Ok _ \<Rightarrow> validate_rules (i + 1) rules)"

definition tenant_replace :: "tenant_rule list \<Rightarrow> tenant_registry \<Rightarrow> (tenant_error + unit) \<times> tenant_registry" where
  "tenant_replace rules reg =
     (if length rules > MAX_TENANT_RULES then (Err (TooManyRules (length rules)), reg)
      else case validate_rules 0 rules of
        Err e \<Rightarrow> (Err e, reg)
      | Ok _ \<Rightarrow> (Ok (), reg\<lparr>tg_rules := rules\<rparr>))"

section \<open>Rendering and assignment\<close>

definition missing :: "string option \<Rightarrow> bool" where
  "missing value = (case value of Some s \<Rightarrow> s = [] | None \<Rightarrow> True)"

definition or_empty :: "string option \<Rightarrow> string" where
  "or_empty value = (case value of Some s \<Rightarrow> s | None \<Rightarrow> [])"

fun join :: "string \<Rightarrow> string list \<Rightarrow> string" where
  "join sep [] = []"
| "join sep [s] = s"
| "join sep (s # t # ts) = s @ sep @ join sep (t # ts)"

definition replace_all :: "string \<Rightarrow> connect_context \<Rightarrow> string" where
  "replace_all template ctx =
     (let s = str_replace ''${clientid}'' (cc_client_id ctx) template;
          s = str_replace ''${client_id}'' (cc_client_id ctx) s;
          s = str_replace ''${username}'' (or_empty (cc_username ctx)) s;
          s = str_replace ''${peerhost}'' (or_empty (cc_peer_host ctx)) s;
          s = str_replace ''${host}'' (or_empty (cc_peer_host ctx)) s;
          s = str_replace ''${cert_cn}'' (or_empty (cc_cert_cn ctx)) s;
          s = str_replace ''${cert_subject}'' (or_empty (cc_cert_subject ctx)) s;
          s = str_replace ''${cert_sans}'' (join '','' (cc_cert_sans ctx)) s in
      str_replace ''${listener}'' (cc_listener ctx) s)"

definition render_expression :: "string \<Rightarrow> connect_context \<Rightarrow> string option" where
  "render_expression template ctx =
     (if trim template = [] then None
      else if str_contains ''${username}'' template \<and> missing (cc_username ctx) then None
      else if (str_contains ''${peerhost}'' template \<or> str_contains ''${host}'' template)
        \<and> missing (cc_peer_host ctx) then None
      else if str_contains ''${cert_cn}'' template \<and> missing (cc_cert_cn ctx) then None
      else if str_contains ''${cert_subject}'' template \<and> missing (cc_cert_subject ctx) then None
      else if str_contains ''${cert_sans}'' template \<and> cc_cert_sans ctx = [] then None
      else
        let rendered = replace_all template ctx in
        if str_contains ''${'' rendered then None
        else if trim rendered = [] then None
        else Some (trim rendered))"

definition is_valid_tenant_id :: "string \<Rightarrow> bool" where
  "is_valid_tenant_id i \<longleftrightarrow> i \<noteq> [] \<and> length i \<le> MAX_TENANT_ID_LEN \<and> \<not> any_control i"

fun assign_loop :: "connect_context \<Rightarrow> tenant_rule list \<Rightarrow> string \<times> bool" where
  "assign_loop ctx [] = (DEFAULT_TENANT_ID, False)"
| "assign_loop ctx (rule # rules) =
    (if tr_attribute rule \<noteq> TENANT_ATTRIBUTE_NAME then assign_loop ctx rules
     else if \<not> (tr_listener rule = [] \<or> tr_listener rule = ''*'' \<or> tr_listener rule = cc_listener ctx)
       then assign_loop ctx rules
     else case render_expression (tr_expression rule) ctx of
       None \<Rightarrow> assign_loop ctx rules
     | Some rendered \<Rightarrow>
         if is_valid_tenant_id rendered then (rendered, False) else (DEFAULT_TENANT_ID, True))"

definition assign :: "connect_context \<Rightarrow> tenant_registry \<Rightarrow> string \<times> tenant_registry" where
  "assign ctx reg =
     (let (tenant, rejected) = assign_loop ctx (tg_rules reg) in
      (tenant, if rejected then reg\<lparr>tg_fallbacks := tg_fallbacks reg + 1\<rparr> else reg))"

section \<open>Laws\<close>

lemma default_tenant_valid: "is_valid_tenant_id DEFAULT_TENANT_ID"
  by (simp add: is_valid_tenant_id_def DEFAULT_TENANT_ID_def MAX_TENANT_ID_LEN_def ascii_control_def)

lemma assign_loop_valid: "is_valid_tenant_id (fst (assign_loop ctx rules))"
  by (induction rules) (auto simp: default_tenant_valid split: option.split)

lemma assign_valid: "is_valid_tenant_id (fst (assign ctx reg))"
  using assign_loop_valid [of ctx "tg_rules reg"] by (simp add: assign_def case_prod_unfold Let_def)

lemma assign_rules [simp]: "tg_rules (snd (assign ctx reg)) = tg_rules reg"
  by (simp add: assign_def case_prod_unfold Let_def)

lemma tenant_replace_rules:
  assumes "list_all (\<lambda>r. tenant_rule_validate r = Ok ()) (tg_rules reg)" and "length (tg_rules reg) \<le> MAX_TENANT_RULES"
  shows "list_all (\<lambda>r. tenant_rule_validate r = Ok ()) (tg_rules (snd (tenant_replace rules reg)))
    \<and> length (tg_rules (snd (tenant_replace rules reg))) \<le> MAX_TENANT_RULES
    \<and> (fst (tenant_replace rules reg) \<noteq> Ok () \<longrightarrow> snd (tenant_replace rules reg) = reg)"
proof -
  have "validate_rules i rs = Ok () \<Longrightarrow> list_all (\<lambda>r. tenant_rule_validate r = Ok ()) rs" for i rs
    by (induction rs arbitrary: i) (auto split: sum.splits)
  then show ?thesis using assms by (auto simp: tenant_replace_def split: sum.split)
qed

lemma str_replace_plain:
  "CHR ''$'' \<notin> set s \<Longrightarrow> str_replace (CHR ''$'' # p) to s = s"
  by (induction s) auto

lemma str_replace_append:
  "CHR ''$'' \<notin> set s \<Longrightarrow> str_replace (CHR ''$'' # p) to (s @ t) = s @ str_replace (CHR ''$'' # p) to t"
  by (induction s) auto

text \<open>The kernel knows no listener names, so the placeholder of the listener renders as nothing.\<close>

lemma username_rescanned:
  assumes d: "CHR ''$'' \<notin> set pre" "CHR ''$'' \<notin> set u" "CHR ''$'' \<notin> set post" and l: "cc_listener ctx = []"
  shows "replace_all (pre @ ''${username}'' @ post) (ctx\<lparr>cc_username := Some (u @ ''${listener}'')\<rparr>) = pre @ u @ post"
    "replace_all (pre @ ''${username}'' @ post) (ctx\<lparr>cc_username := Some u\<rparr>) = pre @ u @ post"
  using d l by (simp_all add: replace_all_def Let_def str_replace_append str_replace_plain or_empty_def)

text \<open>
  The rendered values are scanned again: under a rule whose expression holds the username, the
  users \<open>u\<close> and \<open>u${listener}\<close> are assigned to the same tenant, whatever text surrounds the username.
\<close>

theorem tenant_rescan:
  assumes "CHR ''$'' \<notin> set (pre @ u @ post)" and "u \<noteq> []" and "cc_listener ctx = []"
    and "tg_rules reg = [\<lparr>tr_listener = [], tr_attribute = ''tenant'', tr_expression = pre @ ''${username}'' @ post\<rparr>]"
  shows "assign (ctx\<lparr>cc_username := Some (u @ ''${listener}'')\<rparr>) reg = assign (ctx\<lparr>cc_username := Some u\<rparr>) reg"
proof -
  have "render_expression (pre @ ''${username}'' @ post) (ctx\<lparr>cc_username := Some (u @ ''${listener}'')\<rparr>)
      = render_expression (pre @ ''${username}'' @ post) (ctx\<lparr>cc_username := Some u\<rparr>)"
    unfolding render_expression_def using assms(1-3) username_rescanned [of pre u post ctx]
    by (simp add: missing_def)
  then show ?thesis using assms(4) by (simp add: assign_def TENANT_ATTRIBUTE_NAME_def cong: option.case_cong)
qed

definition user_context :: "string \<Rightarrow> connect_context" where
  "user_context u = \<lparr>cc_client_id = ''c'', cc_username = Some u, cc_peer_host = None, cc_listener = [], cc_cert_cn = None,
     cc_cert_subject = None, cc_cert_sans = [], cc_user_properties = None\<rparr>"

definition user_rule :: tenant_registry where
  "user_rule = \<lparr>tg_rules = [\<lparr>tr_listener = [], tr_attribute = ''tenant'', tr_expression = ''org-'' @ ''${username}''\<rparr>],
     tg_fallbacks = 0\<rparr>"

theorem tenant_rescan_witness:
  "fst (assign (user_context ''acme${listener}'') user_rule) = ''org-acme''"
proof -
  have "assign (user_context ''acme''\<lparr>cc_username := Some (''acme'' @ ''${listener}'')\<rparr>) user_rule
      = assign (user_context ''acme''\<lparr>cc_username := Some ''acme''\<rparr>) user_rule"
    by (rule tenant_rescan [where pre = "''org-''" and post = "[]"]) (simp_all add: user_context_def user_rule_def)
  moreover have "fst (assign (user_context ''acme'') user_rule) = ''org-acme''" by code_simp
  ultimately show ?thesis by (simp add: user_context_def)
qed

end
