(* ===== verification/Kernel.thy ===== *)
theory Kernel
  imports Link_Meta Tenant
begin

text \<open>
  The kernel node (\<^verbatim>\<open>crates/broker-node/src/main.rs\<close>): its shared state and the handlers of the frames
  that the edge sends. The bind of a connection with the chain of authenticators, the quota, the
  tenant and the session, the automatic subscriptions, the replay of a session on its new connection,
  the registration of subscriptions with their acknowledgement and retained messages, the
  acknowledgements of both directions, and the teardown of a connection. The verdicts of the
  authenticators and of the access rules, the retained messages that match a filter, the clocks and
  the outcomes of system calls are arguments. The handler of a publish after its checks is the
  fan-out of theory \<open>Delivery\<close>; where a handler ends in the ingress pipeline (a PUBREL, a last
  will), the message that enters the pipeline is its result.
\<close>

section \<open>State and environment\<close>

text \<open>The cache of the users that connected, with its order of last success.\<close>

record node_cache =
  nc_enabled :: bool
  nc_max_count :: nat
  nc_entries :: "(string \<times> u64) list"
  nc_order :: "string list"

fun evict_to :: "nat \<Rightarrow> string list \<Rightarrow> (string \<times> u64) list \<Rightarrow> string list \<times> (string \<times> u64) list" where
  "evict_to cap [] entries = ([], entries)"
| "evict_to cap (oldest # order) entries =
    (if length entries \<ge> cap then evict_to cap order (AList.delete oldest entries)
     else (oldest # order, entries))"

definition record_success :: "u64 \<Rightarrow> string \<Rightarrow> node_cache \<Rightarrow> node_cache" where
  "record_success now username nc =
     (if username = [] \<or> \<not> nc_enabled nc then nc
      else if map_of (nc_entries nc) username \<noteq> None then
        nc\<lparr>nc_entries := AList.update username now (nc_entries nc),
           nc_order := (case remove_first (\<lambda>n. n = username) (nc_order nc) of
                          Some (_, rest) \<Rightarrow> rest | None \<Rightarrow> nc_order nc) @ [username]\<rparr>
      else
        let (order, entries) = evict_to (nc_max_count nc) (nc_order nc) (nc_entries nc) in
        nc\<lparr>nc_entries := AList.update username now entries, nc_order := order @ [username]\<rparr>)"

record kernel_counters =
  kc_auth_failures :: u64
  kc_connect_received :: u64
  kc_connack_sent :: u64
  kc_connections_active :: u64
  kc_subscribe_received :: u64
  kc_messages_forwarded :: u64
  kc_stats_connections :: u64
  kc_stats_dirty :: bool

record ('rx, 'f, 'c) kernel =
  k_router :: "'rx router"
  k_sessions :: "'f manager"
  k_store :: offline_store
  k_metrics :: metrics
  k_conns :: conn_table
  k_mailboxes :: 'c
  k_tenants :: tenant_registry
  k_node_cache :: node_cache
  k_counters :: kernel_counters

record auto_subscribe_entry =
  as_topic :: string
  as_qos :: u8
  as_rh :: u8
  as_rap :: u8
  as_nl :: u8

record stored_message =
  sm_offset :: u64
  sm_topic :: topic
  sm_qos :: qos
  sm_retain :: bool
  sm_payload :: bytes
  sm_publish_at_ms :: "u64 option"

text \<open>
  What one handler call observes: verdicts, settings, clock readings (the second one is the later),
  outcomes of calls, and the async runtime. An authenticator that is not configured or disabled is \<open>None\<close>.
  A check of credentials gets the tenant, the client identifier, the username and the password.
\<close>

type_synonym credential_check = "string \<Rightarrow> string \<Rightarrow> string option \<Rightarrow> bytes option \<Rightarrow> bool"

record ('rx, 'c) kernel_env =
  ke_is_banned :: "string \<Rightarrow> string option \<Rightarrow> string option \<Rightarrow> bool"
  ke_built_in_available :: bool
  ke_user_count :: nat
  ke_local :: credential_check
  ke_has_user :: "string \<Rightarrow> string \<Rightarrow> bool"
  ke_jwks :: "(string \<Rightarrow> string \<Rightarrow> string \<Rightarrow> string option) option"
  ke_kerberos :: "(string \<Rightarrow> string \<Rightarrow> bytes \<Rightarrow> (string \<times> string) option) option"
  ke_ldap :: "credential_check option"
  ke_db :: "credential_check option"
  ke_webhook :: "credential_check option"
  ke_max_connections :: "string \<Rightarrow> string \<Rightarrow> u32 option"
  ke_authorize_subscribe :: "string \<Rightarrow> string \<Rightarrow> topic_filter \<Rightarrow> bool"
  ke_db_subscribe :: "string \<Rightarrow> string \<Rightarrow> topic_filter \<Rightarrow> bool"
  ke_authorize_publish :: "string \<Rightarrow> string \<Rightarrow> topic \<Rightarrow> bool"
  ke_db_publish :: "string \<Rightarrow> string \<Rightarrow> topic \<Rightarrow> bool"
  ke_webhook_publish :: "string \<Rightarrow> string \<Rightarrow> topic \<Rightarrow> bool"
  ke_retained :: "topic_filter \<Rightarrow> string \<Rightarrow> stored_message list option"
  ke_auto_subscribe :: "auto_subscribe_entry list"
  ke_regex :: "'rx regex_engine"
  ke_runtime :: "'c runtime"
  ke_now :: u64
  ke_now' :: u64
  ke_unlink_ok :: bool
  ke_rewrite :: rewrite_env
  ke_send_ok :: bool

definition refresh_subscription_stats :: "('rx, 'f, 'c) kernel \<Rightarrow> ('rx, 'f, 'c) kernel" where
  "refresh_subscription_stats k = k\<lparr>k_counters := (k_counters k)\<lparr>kc_stats_dirty := True\<rparr>\<rparr>"

definition inc_auth_failures :: "('rx, 'f, 'c) kernel \<Rightarrow> ('rx, 'f, 'c) kernel" where
  "inc_auth_failures k =
     k\<lparr>k_counters := (k_counters k)\<lparr>kc_auth_failures := kc_auth_failures (k_counters k) + 1\<rparr>\<rparr>"

text \<open>The gauge is a signed integer; the statistics get its value or 0.\<close>

definition non_negative :: "u64 \<Rightarrow> u64" where
  "non_negative n = (if 0 \<le> sint n then n else 0)"

definition inc_connections :: "('rx, 'f, 'c) kernel \<Rightarrow> ('rx, 'f, 'c) kernel" where
  "inc_connections k =
     (let active = kc_connections_active (k_counters k) + 1 in
      k\<lparr>k_counters := (k_counters k)\<lparr>kc_connections_active := active, kc_stats_connections := non_negative active\<rparr>\<rparr>)"

definition dec_connections :: "('rx, 'f, 'c) kernel \<Rightarrow> ('rx, 'f, 'c) kernel" where
  "dec_connections k =
     (let active = kc_connections_active (k_counters k) - 1 in
      k\<lparr>k_counters := (k_counters k)\<lparr>kc_connections_active := active, kc_stats_connections := non_negative active\<rparr>\<rparr>)"

definition inc_messages_forwarded_by :: "nat \<Rightarrow> ('rx, 'f, 'c) kernel \<Rightarrow> ('rx, 'f, 'c) kernel" where
  "inc_messages_forwarded_by n k =
     k\<lparr>k_counters := (k_counters k)\<lparr>kc_messages_forwarded := kc_messages_forwarded (k_counters k) + of_nat n\<rparr>\<rparr>"

definition update_session :: "arc \<Rightarrow> (session \<Rightarrow> session) \<Rightarrow> ('rx, 'f, 'c) kernel \<Rightarrow> ('rx, 'f, 'c) kernel" where
  "update_session a g k = k\<lparr>k_sessions := with_session a g (k_sessions k)\<rparr>"

section \<open>Whose connection\<close>

definition session_tenant :: "('rx, 'f, 'c) kernel \<Rightarrow> string \<Rightarrow> string" where
  "session_tenant k client_id =
     (case manager_get (k_sessions k) client_id of
        Some a \<Rightarrow> s_tenant_id (deref (k_sessions k) a)
      | None \<Rightarrow> DEFAULT_TENANT_ID)"

definition session_for_conn_if_client :: "('rx, 'f, 'c) kernel \<Rightarrow> u64 \<Rightarrow> string \<Rightarrow> arc option" where
  "session_for_conn_if_client k conn_id client_id =
     (case session_for_conn (k_sessions k) conn_id of
        Some a \<Rightarrow> if s_client_id (deref (k_sessions k) a) = client_id then Some a else None
      | None \<Rightarrow> None)"

definition session_tenant_for_conn :: "('rx, 'f, 'c) kernel \<Rightarrow> u64 \<Rightarrow> string \<Rightarrow> string" where
  "session_tenant_for_conn k conn_id client_id =
     (case session_for_conn (k_sessions k) conn_id of
        Some a \<Rightarrow>
          if s_client_id (deref (k_sessions k) a) = client_id then s_tenant_id (deref (k_sessions k) a)
          else session_tenant k client_id
      | None \<Rightarrow> session_tenant k client_id)"

text \<open>The lookup that the acknowledgement handlers share: the owner in the index, the legacy lookup behind it.\<close>

definition owner_session :: "('rx, 'f, 'c) kernel \<Rightarrow> u64 \<Rightarrow> arc option" where
  "owner_session k conn_id =
     (case session_for_conn (k_sessions k) conn_id of
        Some a \<Rightarrow> Some a
      | None \<Rightarrow> Option.bind (client_id_for_conn (k_sessions k) conn_id) (manager_get (k_sessions k)))"

section \<open>Router sweeps\<close>

definition unsubscribe_scoped_in_tenant ::
  "string \<Rightarrow> string \<Rightarrow> topic_filter \<Rightarrow> ('rx, 'f, 'c) kernel \<Rightarrow> ('rx, 'f, 'c) kernel" where
  "unsubscribe_scoped_in_tenant tenant client_id f k =
     k\<lparr>k_router := unsubscribe_in_tenant f client_id tenant (k_router k)\<rparr>"

definition unsubscribe_scoped :: "string \<Rightarrow> topic_filter \<Rightarrow> ('rx, 'f, 'c) kernel \<Rightarrow> ('rx, 'f, 'c) kernel" where
  "unsubscribe_scoped client_id f k =
     (case manager_get (k_sessions k) client_id of
        Some a \<Rightarrow>
          k\<lparr>k_router := unsubscribe_in_tenant f client_id (s_tenant_id (deref (k_sessions k) a)) (k_router k)\<rparr>
      | None \<Rightarrow> k\<lparr>k_router := router_unsubscribe f client_id (k_router k)\<rparr>)"

definition sweep :: "string \<Rightarrow> string \<Rightarrow> topic_filter list \<Rightarrow> ('rx, 'f, 'c) kernel \<Rightarrow> ('rx, 'f, 'c) kernel" where
  "sweep tenant client_id filters k = fold (unsubscribe_scoped_in_tenant tenant client_id) filters k"

definition sweep_refresh :: "string \<Rightarrow> string \<Rightarrow> topic_filter list \<Rightarrow> ('rx, 'f, 'c) kernel \<Rightarrow> ('rx, 'f, 'c) kernel" where
  "sweep_refresh tenant client_id filters k =
     (let k = sweep tenant client_id filters k in
      if filters \<noteq> [] then refresh_subscription_stats k else k)"

section \<open>Bind: admission\<close>

definition bind_tenant_for_req ::
  "bind_request \<Rightarrow> string option \<Rightarrow> ('rx, 'f, 'c) kernel \<Rightarrow> string \<times> ('rx, 'f, 'c) kernel" where
  "bind_tenant_for_req req kerberos_principal k =
     (let ctx = \<lparr>cc_client_id = br_client_id req,
                 cc_username = (case kerberos_principal of Some p \<Rightarrow> Some p | None \<Rightarrow> br_username req),
                 cc_peer_host = br_peerhost req, cc_listener = [], cc_cert_cn = br_cert_cn req,
                 cc_cert_subject = br_cert_subject req, cc_cert_sans = br_cert_sans req,
                 cc_user_properties = br_user_properties req\<rparr>;
          (tenant, reg) = assign ctx (k_tenants k) in
      (tenant, k\<lparr>k_tenants := reg\<rparr>))"

definition MAX_TOKEN_LEN :: nat where
  "MAX_TOKEN_LEN = 16 * 1024"

definition looks_like_jwt :: "bytes \<Rightarrow> bool" where
  "looks_like_jwt password =
     (if length password > MAX_TOKEN_LEN \<or> password = [] then False
      else case from_utf8 password of
        None \<Rightarrow> False
      | Some txt \<Rightarrow>
          (case split_on (CHR ''.'') txt of
             [a, b, c] \<Rightarrow> a \<noteq> [] \<and> b \<noteq> [] \<and> c \<noteq> []
           | _ \<Rightarrow> False))"

definition looks_kerberos :: "bytes option \<Rightarrow> bool" where
  "looks_kerberos password \<longleftrightarrow>
     (case password of Some (b # _) \<Rightarrow> b = 0x60 \<or> b = 0x6E | _ \<Rightarrow> False)"

text \<open>How a client with credentials was admitted.\<close>

datatype admission =
  OpenBroker | ViaLocal | ViaJwks "string option" | ViaKerberos string string | ViaLdap | ViaDb | ViaWebhook

text \<open>The verified subject, \<open>Some None\<close> when the token carries none; \<open>None\<close> is a failure.\<close>

definition verify_jwks_connect ::
  "(string \<Rightarrow> string \<Rightarrow> string \<Rightarrow> string option) \<Rightarrow> string \<Rightarrow> string \<Rightarrow> bytes option \<Rightarrow> string option option" where
  "verify_jwks_connect jwks tenant client_id password =
     (case password of
        None \<Rightarrow> None
      | Some token_bytes \<Rightarrow>
          (case from_utf8 token_bytes of
             None \<Rightarrow> None
           | Some token \<Rightarrow>
               map_option (\<lambda>subject. if subject = [] then None else Some subject) (jwks tenant client_id token)))"

text \<open>The authenticators behind the local store, which both branches of the code try in the same order.\<close>

definition remote_verdict ::
  "('rx, 'c) kernel_env \<Rightarrow> string \<Rightarrow> bind_request \<Rightarrow> admission option \<Rightarrow> admission option" where
  "remote_verdict env tenant req fallback =
     (let check = (\<lambda>verify. verify tenant (br_client_id req) (br_username req) (br_password req)) in
      if ke_jwks env \<noteq> None \<and> (case br_password req of Some p \<Rightarrow> looks_like_jwt p | None \<Rightarrow> False) then
        map_option ViaJwks (verify_jwks_connect (the (ke_jwks env)) tenant (br_client_id req) (br_password req))
      else if ke_kerberos env \<noteq> None \<and> looks_kerberos (br_password req) then
        Option.bind (br_password req) (\<lambda>token.
          map_option (\<lambda>(who, role). ViaKerberos who role)
            (the (ke_kerberos env) tenant (br_client_id req) token))
      else case ke_ldap env of
        Some ldap \<Rightarrow> if check ldap then Some ViaLdap else None
      | None \<Rightarrow>
          (case ke_db env of
             Some db \<Rightarrow> if check db then Some ViaDb else None
           | None \<Rightarrow>
               (case ke_webhook env of
                  Some webhook \<Rightarrow> if check webhook then Some ViaWebhook else None
                | None \<Rightarrow> fallback)))"

definition verify_credentials ::
  "('rx, 'c) kernel_env \<Rightarrow> string \<Rightarrow> bind_request \<Rightarrow> admission option" where
  "verify_credentials env tenant req =
     (if ke_user_count env > 0 then
        if ke_local env tenant (br_client_id req) (br_username req) (br_password req) then Some ViaLocal
        else remote_verdict env tenant req None
      else
        remote_verdict env tenant req
          (if ke_kerberos env \<noteq> None then None else if ke_jwks env \<noteq> None then None else Some OpenBroker))"

fun kerberos_principal :: "admission option \<Rightarrow> string option" where
  "kerberos_principal (Some (ViaKerberos who role)) = Some who"
| "kerberos_principal _ = None"

fun jwks_subject :: "admission option \<Rightarrow> string option" where
  "jwks_subject (Some (ViaJwks subject)) = subject"
| "jwks_subject _ = None"

definition effective_username :: "admission \<Rightarrow> bind_request \<Rightarrow> string option" where
  "effective_username via req =
     (case (case via of ViaJwks subject \<Rightarrow> subject | _ \<Rightarrow> kerberos_principal (Some via)) of
        Some name \<Rightarrow> Some name
      | None \<Rightarrow> br_username req)"

text \<open>The slot of a credentialed client: a takeover gives the old one back, then the quota applies.\<close>

definition take_slot ::
  "('rx, 'c) kernel_env \<Rightarrow> bind_request \<Rightarrow> admission \<Rightarrow> ('rx, 'f, 'c) kernel
   \<Rightarrow> (u8 + admission option) \<times> ('rx, 'f, 'c) kernel" where
  "take_slot env req via k =
     (let (tenant, k) = bind_tenant_for_req req (kerberos_principal (Some via)) k;
          m = k_sessions k;
          already_live = (case get_in_tenant m tenant (br_client_id req) of
                            Some a \<Rightarrow> s_connected (deref m a) | None \<Rightarrow> False) in
      case effective_username via req of
        None \<Rightarrow> (Ok (Some via), k)
      | Some username \<Rightarrow>
          let m = (if already_live then release_connection_slot_in_tenant tenant username m else m);
              limit = (case via of
                         OpenBroker \<Rightarrow> ke_max_connections env tenant username
                       | ViaLocal \<Rightarrow> ke_max_connections env tenant username
                       | _ \<Rightarrow> None);
              (acquired, m) = acquire_connection_slot_in_tenant tenant username limit m;
              k = k\<lparr>k_sessions := m\<rparr> in
          if \<not> acquired then (Err (if br_protocol_version req = 5 then V5_RC_CONNECT_QUOTA else 0x8B), k)
          else (Ok (Some via), k\<lparr>k_node_cache := record_success (ke_now env) username (k_node_cache k)\<rparr>))"

text \<open>\<open>Err\<close> is the return code of a refusal; an anonymous client is admitted with \<open>Ok None\<close>.\<close>

definition admit_bind ::
  "('rx, 'c) kernel_env \<Rightarrow> bind_request \<Rightarrow> ('rx, 'f, 'c) kernel
   \<Rightarrow> (u8 + admission option) \<times> ('rx, 'f, 'c) kernel" where
  "admit_bind env req k =
     (if br_protocol_version req = 5 \<and> br_receive_maximum req = 0 then (Err V5_RC_PROTOCOL_ERROR, k)
      else if ke_is_banned env (br_client_id req) (br_username req) (br_peerhost req)
        then (Err 0x8A, inc_auth_failures k)
      else if \<not> ke_built_in_available env then (Err 0x86, inc_auth_failures k)
      else if br_username req = None then
        if ke_user_count env > 0 \<or> ke_ldap env \<noteq> None \<or> ke_kerberos env \<noteq> None \<or> ke_jwks env \<noteq> None
          \<or> ke_db env \<noteq> None \<or> ke_webhook env \<noteq> None
        then (Err 0x87, inc_auth_failures k)
        else (Ok None, k)
      else
        let (tenant_for_auth, k) = bind_tenant_for_req req None k in
        case verify_credentials env tenant_for_auth req of
          None \<Rightarrow> (Err 0x86, inc_auth_failures k)
        | Some via \<Rightarrow> take_slot env req via k)"

section \<open>Bind: the session\<close>

definition MAX_EXPIRY_SWEEP :: nat where
  "MAX_EXPIRY_SWEEP = 128"

definition protocol_error_reply :: "broker_frame \<Rightarrow> bind_request \<Rightarrow> u16 \<Rightarrow> broker_frame run" where
  "protocol_error_reply f req alias_max =
     session_binding_reply_with_v5 f 0 False V5_RC_PROTOCOL_ERROR alias_max (failure_binding_v5 req V5_RC_PROTOCOL_ERROR)"

text \<open>What the bind sets in the session: the keep-alive, the renegotiated aliases and the will.\<close>

definition negotiated :: "u16 \<Rightarrow> bind_request \<Rightarrow> stored_will option \<Rightarrow> session \<Rightarrow> session" where
  "negotiated alias_max req will s =
     set_last_will will
       (set_outbound_alias_max (br_client_alias_max req)
         (set_inbound_alias_max alias_max (clear_aliases (s\<lparr>s_keepalive_secs := br_keepalive_secs req\<rparr>))))"

text \<open>The ownership stamps at the end of the bind.\<close>

definition bind_stamped :: "bind_request \<Rightarrow> string option \<Rightarrow> string option \<Rightarrow> string \<Rightarrow> session \<Rightarrow> session" where
  "bind_stamped req who subject tenant s =
     (let s = (case who of
                 Some p \<Rightarrow> s\<lparr>s_username := Some p\<rparr>
               | None \<Rightarrow>
                   (case subject of
                      Some j \<Rightarrow> s\<lparr>s_username := Some j\<rparr>
                    | None \<Rightarrow> (case br_username req of Some u \<Rightarrow> s\<lparr>s_username := Some u\<rparr> | None \<Rightarrow> s)));
          s = (case br_peerhost req of Some p \<Rightarrow> s\<lparr>s_peerhost := Some p\<rparr> | None \<Rightarrow> s) in
      s\<lparr>s_last_will := map_option (\<lambda>w. w\<lparr>sw_tenant := tenant\<rparr>) (s_last_will s)\<rparr>)"

definition resolve_bind ::
  "('rx, 'c) kernel_env \<Rightarrow> broker_frame \<Rightarrow> bind_request \<Rightarrow> admission option \<Rightarrow> ('rx, 'f, 'c) kernel
   \<Rightarrow> broker_frame run \<times> ('rx, 'f, 'c) kernel" where
  "resolve_bind env f req via k =
     (let (tenant, k) = bind_tenant_for_req req (kerberos_principal via) k;
          client_id = br_client_id req;
          alias_max = m_max_topic_alias (k_sessions k);
          stale = (if br_clean_start req then subscription_filters_in_tenant (k_sessions k) tenant client_id else []) in
      case will_from_bind req of
        Err _ \<Rightarrow>
          (if br_protocol_version req = 5 then protocol_error_reply f req alias_max
           else session_binding_reply f 0 False 2 alias_max, k)
      | Ok will \<Rightarrow>
          if br_protocol_version req = 5 \<and> br_receive_maximum req = 0
          then (protocol_error_reply f req alias_max, k)
          else
            let ((a, present, swept), m, st) =
                  get_or_create_v5_in_tenant (ke_unlink_ok env) (ke_now env) (ke_now' env) tenant client_id
                    (br_clean_start req) (br_protocol_version req) (br_session_expiry req)
                    (br_receive_maximum req) (br_max_packet_size req) (k_sessions k) (k_store k);
                m = with_session a (set_tenant_id tenant) m;
                m = bind_session (ke_now' env) a (h_conn_id (f_header f)) m;
                m = with_session a (negotiated alias_max req will) m;
                s = deref m a;
                reply = (if br_protocol_version req = 5
                         then session_binding_reply_with_v5 f (s_id s) present 0 alias_max
                           (success_binding_v5 (s_session_expiry s))
                         else session_binding_reply f (s_id s) present 0 alias_max);
                k = sweep_refresh tenant client_id swept (k\<lparr>k_sessions := m, k_store := st\<rparr>);
                (victims, m, st) = prune_expired_bounded (ke_unlink_ok env) (ke_now' env) tenant MAX_EXPIRY_SWEEP
                  (k_sessions k) (k_store k);
                k = fold (\<lambda>(victim, filters). sweep_refresh tenant victim filters) victims
                      (k\<lparr>k_sessions := m, k_store := st\<rparr>);
                k = sweep_refresh tenant client_id stale k;
                k = (case get_in_tenant (k_sessions k) tenant client_id of
                       Some a \<Rightarrow> update_session a (bind_stamped req (kerberos_principal via) (jwks_subject via) tenant) k
                     | None \<Rightarrow> k) in
            (reply, k))"

definition malformed_bind_reply :: "broker_frame \<Rightarrow> bool \<Rightarrow> u16 \<Rightarrow> broker_frame run" where
  "malformed_bind_reply f looks_v5 alias_max =
     (if looks_v5
      then session_binding_reply_with_v5 f 0 False V5_RC_PROTOCOL_ERROR alias_max
        (refused_binding_v5 V5_RC_PROTOCOL_ERROR [])
      else session_binding_reply f 0 False 2 alias_max)"

definition apply_bind_request ::
  "('rx, 'c) kernel_env \<Rightarrow> broker_frame \<Rightarrow> string + bind_request \<Rightarrow> bool \<Rightarrow> ('rx, 'f, 'c) kernel
   \<Rightarrow> broker_frame run \<times> ('rx, 'f, 'c) kernel" where
  "apply_bind_request env f parsed looks_v5 k =
     (let alias_max = m_max_topic_alias (k_sessions k) in
      case parsed of
        Err _ \<Rightarrow> (malformed_bind_reply f looks_v5 alias_max, k)
      | Ok req \<Rightarrow>
          (case admit_bind env req k of
             (Err rc, k) \<Rightarrow> (refusal_for_req f req rc alias_max, k)
           | (Ok via, k) \<Rightarrow> resolve_bind env f req via k))"

definition apply_bind ::
  "('rx, 'c) kernel_env \<Rightarrow> broker_frame \<Rightarrow> ('rx, 'f, 'c) kernel \<Rightarrow> broker_frame run \<times> ('rx, 'f, 'c) kernel" where
  "apply_bind env f k =
     apply_bind_request env f (decode_bind_meta (f_metadata f)) (bind_looks_v5 (f_metadata f)) k"

section \<open>Automatic subscriptions\<close>

definition render_auto_topic :: "string \<Rightarrow> string \<Rightarrow> string option \<Rightarrow> string" where
  "render_auto_topic template client_id username =
     str_replace ''${host}'' ''127.0.0.1''
       (str_replace ''${username}'' (or_empty username) (str_replace ''${clientid}'' client_id template))"

text \<open>One entry: whether it was applied, and the new state.\<close>

definition auto_subscribe_one ::
  "string \<Rightarrow> string \<Rightarrow> string option \<Rightarrow> u64 \<Rightarrow> auto_subscribe_entry \<Rightarrow> ('rx, 'f, 'c) kernel
   \<Rightarrow> (bool \<times> ('rx, 'f, 'c) kernel) run" where
  "auto_subscribe_one tenant client_id username conn_id entry k =
     (case filter_new (render_auto_topic (as_topic entry) client_id username) of
        Panic \<Rightarrow> Panic
      | Returns (Err _) \<Rightarrow> Returns (False, k)
      | Returns (Ok flt) \<Rightarrow>
          (case qos_try_from (as_qos entry) of
             Err _ \<Rightarrow> Returns (False, k)
           | Ok q \<Rightarrow>
               let sub = (sub_with_options client_id conn_id q (as_nl entry \<noteq> 0) (as_rap entry \<noteq> 0) (as_rh entry) 0)
                     \<lparr>sub_tenant := tenant\<rparr>;
                   (stored, r) = router_subscribe flt sub (k_router k);
                   k = k\<lparr>k_router := r\<rparr> in
               if \<not> stored then Returns (False, k)
               else Returns (True, k\<lparr>k_sessions := add_subscription_with_options_in_tenant tenant client_id flt q
                 (as_nl entry) (as_rap entry) (as_rh entry) (k_sessions k)\<rparr>)))"

fun auto_subscribe_all ::
  "string \<Rightarrow> string \<Rightarrow> string option \<Rightarrow> u64 \<Rightarrow> auto_subscribe_entry list \<Rightarrow> bool \<Rightarrow> ('rx, 'f, 'c) kernel
   \<Rightarrow> (bool \<times> ('rx, 'f, 'c) kernel) run" where
  "auto_subscribe_all tenant client_id username conn_id [] applied k = Returns (applied, k)"
| "auto_subscribe_all tenant client_id username conn_id (entry # entries) applied k =
    (case auto_subscribe_one tenant client_id username conn_id entry k of
       Panic \<Rightarrow> Panic
     | Returns (ok, k) \<Rightarrow> auto_subscribe_all tenant client_id username conn_id entries (applied \<or> ok) k)"

definition apply_auto_subscribe ::
  "auto_subscribe_entry list \<Rightarrow> string \<Rightarrow> string option \<Rightarrow> u64 \<Rightarrow> ('rx, 'f, 'c) kernel \<Rightarrow> ('rx, 'f, 'c) kernel run" where
  "apply_auto_subscribe entries client_id username conn_id k =
     (if entries = [] then Returns k
      else
        let tenant = session_tenant_for_conn k conn_id client_id in
        case auto_subscribe_all tenant client_id username conn_id entries False k of
          Panic \<Rightarrow> Panic
        | Returns (applied, k) \<Rightarrow> Returns (if applied then refresh_subscription_stats k else k))"

section \<open>Replay on a new connection\<close>

text \<open>The count and the bytes of the frames that reached the mailbox, and the state.\<close>

type_synonym ('rx, 'f, 'c) replay = "nat \<times> u64 \<times> ('rx, 'f, 'c) kernel"

definition route_frame ::
  "('rx, 'c) kernel_env \<Rightarrow> u64 \<Rightarrow> broker_frame \<Rightarrow> ('rx, 'f, 'c) kernel \<Rightarrow> bool \<times> ('rx, 'f, 'c) kernel" where
  "route_frame env conn_id f k =
     (let (reached, conns, mailboxes) = route (ke_runtime env) conn_id f (k_conns k) (k_mailboxes k) in
      (reached, k\<lparr>k_conns := conns, k_mailboxes := mailboxes\<rparr>))"

definition route_counted ::
  "('rx, 'c) kernel_env \<Rightarrow> u64 \<Rightarrow> (metrics \<Rightarrow> metrics) \<Rightarrow> broker_frame option \<Rightarrow> ('rx, 'f, 'c) replay
   \<Rightarrow> ('rx, 'f, 'c) replay" where
  "route_counted env conn_id bump fo acc =
     (let (n, bytes, k) = acc in
      case fo of
        None \<Rightarrow> acc
      | Some f \<Rightarrow>
          let (reached, k) = route_frame env conn_id f k in
          if reached then (n + 1, bytes + of_nat (total_frame_len f), k\<lparr>k_metrics := bump (k_metrics k)\<rparr>)
          else (n, bytes, k))"

definition replay_frame ::
  "u64 \<Rightarrow> topic \<Rightarrow> u16 \<Rightarrow> qos \<Rightarrow> bool \<Rightarrow> bool \<Rightarrow> bytes \<Rightarrow> broker_frame option" where
  "replay_frame conn_id topic packet_id q retain dup payload =
     ok_frame (frame_new PublishOut conn_id 0
       (publish_head (topic_as_str topic) packet_id (qos_to_u8 q) retain dup) payload)"

definition held_frame :: "u64 \<Rightarrow> inflight_message \<Rightarrow> broker_frame option" where
  "held_frame conn_id held =
     replay_frame conn_id (im_topic held) (im_packet_id held) (im_qos held) (im_retain held) True (im_payload held)"

definition qos2_frame :: "u64 \<Rightarrow> qos2_outbound_entry \<Rightarrow> broker_frame option" where
  "qos2_frame conn_id held =
     (if qo_rec_received held then encode_pubrel_out conn_id (qo_packet_id held)
      else encode_publish_out_with_dup conn_id (topic_as_str (qo_topic held)) (qo_packet_id held) 2
        (qo_retain held) True 0 (qo_payload held))"

text \<open>
  The loop over the offline queue: the messages that did not reach the mailbox, and the state. It
  does not return when no packet identifier is free.
\<close>

fun replay_queue ::
  "('rx, 'c) kernel_env \<Rightarrow> u64 \<Rightarrow> arc \<Rightarrow> queued_message list \<Rightarrow> queued_message list \<Rightarrow> ('rx, 'f, 'c) replay
   \<Rightarrow> (queued_message list \<times> ('rx, 'f, 'c) replay) option" where
  "replay_queue env conn_id a [] unrouted acc = Some (unrouted, acc)"
| "replay_queue env conn_id a (queued # rest) unrouted acc =
    (let (n, bytes, k) = acc; s = deref (k_sessions k) a in
     case (if qm_qos queued = AtMostOnce then Some (0, s) else next_packet_id s) of
       None \<Rightarrow> None
     | Some (downlink_id, s) \<Rightarrow>
         let k = update_session a (\<lambda>_. s) k in
         (case replay_frame conn_id (qm_topic queued) downlink_id (qm_qos queued) (qm_retain queued) False
                 (qm_payload queued) of
            None \<Rightarrow> replay_queue env conn_id a rest (unrouted @ [queued]) (n, bytes, k)
          | Some f \<Rightarrow>
              let (reached, k) = route_frame env conn_id f k in
              if \<not> reached then replay_queue env conn_id a rest (unrouted @ [queued]) (n, bytes, k)
              else
                let (tracked, s) =
                      (if qm_qos queued = ExactlyOnce \<and> downlink_id \<noteq> 0
                       then track_qos2_outbound
                         \<lparr>qo_packet_id = downlink_id, qo_topic = qm_topic queued, qo_retain = qm_retain queued,
                          qo_payload = qm_payload queued, qo_rec_received = False\<rparr> s
                       else (True, s));
                    k = update_session a (\<lambda>_. s) k;
                    k = (if tracked then k else k\<lparr>k_metrics := inc_inflight_dropped (k_metrics k)\<rparr>) in
                replay_queue env conn_id a rest unrouted (n + 1, bytes + of_nat (total_frame_len f), k)))"

definition replay_offline_client ::
  "('rx, 'c) kernel_env \<Rightarrow> broker_frame \<Rightarrow> string \<Rightarrow> ('rx, 'f, 'c) kernel \<Rightarrow> (nat \<times> ('rx, 'f, 'c) kernel) option" where
  "replay_offline_client env f client_id k =
     (let conn_id = h_conn_id (f_header f) in
      case (case session_for_conn_if_client k conn_id client_id of
              Some a \<Rightarrow> Some a | None \<Rightarrow> manager_get (k_sessions k) client_id) of
        None \<Rightarrow> Some (0, k)
      | Some a \<Rightarrow>
          let s = deref (k_sessions k) a;
              acc = fold (\<lambda>held. route_counted env conn_id id (held_frame conn_id held)) (s_inflight s) (0, 0, k);
              acc = (if has_spill s
                     then fold (\<lambda>held. route_counted env conn_id inc_inflight_spill_replayed (held_frame conn_id held))
                       (s_inflight_spill s) acc
                     else acc);
              acc = fold (\<lambda>held. route_counted env conn_id id (qos2_frame conn_id held)) (s_qos2_outbound s) acc;
              (n, bytes, k) = acc;
              (retained, s) = take_offline_retained s;
              k = update_session a (\<lambda>_. s) k in
          case replay_queue env conn_id a retained [] (n, bytes, k) of
            None \<Rightarrow> None
          | Some (unrouted, n, bytes, k) \<Rightarrow>
              let (s, st) = confirm_offline_consumed (ke_rewrite env) unrouted (deref (k_sessions k) a) (k_store k);
                  k = update_session a (\<lambda>_. s) k in
              Some (n, k\<lparr>k_store := st,
                k_metrics := inc_bytes_sent_by bytes (inc_delivered_by (of_nat n)
                  (inc_publish_sent_by (of_nat n) (k_metrics k)))\<rparr>))"

definition replay_offline ::
  "('rx, 'c) kernel_env \<Rightarrow> broker_frame \<Rightarrow> ('rx, 'f, 'c) kernel \<Rightarrow> (nat \<times> ('rx, 'f, 'c) kernel) option" where
  "replay_offline env f k =
     (case decode_bind_meta (f_metadata f) of
        Ok req \<Rightarrow> replay_offline_client env f (br_client_id req) k
      | Err _ \<Rightarrow> Some (0, k))"

section \<open>The handler of a bind\<close>

text \<open>The keys and connections that one transport serves.\<close>

type_synonym bound_list = "(session_key \<times> u64) list"

text \<open>
  The registration of a bind from the link after its reply was sent: \<open>tx\<close> is the channel of the
  transport and \<open>waker\<close> its wake-up.
\<close>

definition register_bind ::
  "('rx, 'c) kernel_env \<Rightarrow> broker_frame \<Rightarrow> bool \<Rightarrow> chan \<Rightarrow> notify \<Rightarrow> bound_list \<Rightarrow> ('rx, 'f, 'c) kernel
   \<Rightarrow> (bound_list \<times> ('rx, 'f, 'c) kernel) run" where
  "register_bind env f is_accepted tx waker served k =
     (let conn_id = h_conn_id (f_header f);
          k = k\<lparr>k_conns := register conn_id tx (k_conns k)\<rparr>;
          k = refresh_subscription_stats (inc_connections k) in
      case decode_bind_meta (f_metadata f) of
        Err _ \<Rightarrow> Returns (served, k)
      | Ok req \<Rightarrow>
          let key = (case key_for_conn (k_sessions k) conn_id of
                       Some key \<Rightarrow> key | None \<Rightarrow> session_key_new DEFAULT_TENANT_ID (br_client_id req));
              conns = set_client_label conn_id (br_client_id req) (k_conns k);
              conns = set_waker conn_id waker conns;
              k = k\<lparr>k_conns := set_tenant_label conn_id (sk_tenant key) conns\<rparr>;
              served = served @ [(key, conn_id)] in
          if \<not> is_accepted then Returns (served, k)
          else case apply_auto_subscribe (ke_auto_subscribe env) (br_client_id req) (br_username req) conn_id k of
            Panic \<Rightarrow> Panic
          | Returns k \<Rightarrow> Returns (served, k))"

text \<open>\<open>None\<close>: the replay does not return. A panic ends the task of the transport.\<close>

definition handle_bind ::
  "('rx, 'c) kernel_env \<Rightarrow> broker_frame \<Rightarrow> chan \<Rightarrow> notify \<Rightarrow> bound_list \<Rightarrow> ('rx, 'f, 'c) kernel
   \<Rightarrow> (broker_frame option \<times> bound_list \<times> ('rx, 'f, 'c) kernel) run option" where
  "handle_bind env f tx waker served k =
     (let k = k\<lparr>k_counters := (k_counters k)\<lparr>kc_connect_received := kc_connect_received (k_counters k) + 1\<rparr>\<rparr> in
      case apply_bind env f k of
        (Panic, k) \<Rightarrow> Some Panic
      | (Returns reply, k) \<Rightarrow>
          let k = k\<lparr>k_counters := (k_counters k)\<lparr>kc_connack_sent := kc_connack_sent (k_counters k) + 1\<rparr>\<rparr> in
          if \<not> ke_send_ok env then Some (Returns (None, served, k))
          else case register_bind env f (is_binding_accepted reply) tx waker served k of
            Panic \<Rightarrow> Some Panic
          | Returns (served, k) \<Rightarrow>
              map_option (\<lambda>(replayed, k). Returns (Some reply, served, inc_messages_forwarded_by replayed k))
                (replay_offline env f k))"

section \<open>Subscribe\<close>

definition V5_SUBACK_UNSPECIFIED :: u8 where
  "V5_SUBACK_UNSPECIFIED = 0x80"

definition V5_SUBACK_NOT_AUTHORIZED :: u8 where
  "V5_SUBACK_NOT_AUTHORIZED = 0x87"

definition V5_SUBACK_FILTER_INVALID :: u8 where
  "V5_SUBACK_FILTER_INVALID = 0x8F"

definition V5_SUBACK_QUOTA_EXCEEDED :: u8 where
  "V5_SUBACK_QUOTA_EXCEEDED = 0x97"

record granted_sub =
  gs_filter :: topic_filter
  gs_qos :: u8
  gs_sub_id :: u32
  gs_send_retained :: bool

text \<open>The options of an entry: quality of service, no local, retain as published, retain handling, identifier.\<close>

definition entry_options :: "subscribe_entry \<Rightarrow> u8 + u8 \<times> bool \<times> bool \<times> u8 \<times> u32" where
  "entry_options entry =
     (if se_has_options entry then
        case decode_options_byte (se_opts_raw entry) of
          Some (q, nl, rap, rh) \<Rightarrow>
            if se_subscription_id entry > MAX_SUBSCRIPTION_ID then Err V5_SUBACK_FILTER_INVALID
            else Ok (qos_to_u8 q, nl, rap, rh, se_subscription_id entry)
        | None \<Rightarrow> Err V5_SUBACK_FILTER_INVALID
      else case qos_try_from (se_opts_raw entry) of
          Ok q \<Rightarrow> Ok (qos_to_u8 q, False, True, 0, 0)
        | Err _ \<Rightarrow> Err V5_SUBACK_UNSPECIFIED)"

definition entry_invalid :: "subscribe_entry \<Rightarrow> u8" where
  "entry_invalid entry = (if se_has_options entry then V5_SUBACK_FILTER_INVALID else V5_SUBACK_UNSPECIFIED)"

text \<open>The filter without its group, the quality of service and the group; \<open>None\<close> when one of them is invalid.\<close>

definition entry_filter :: "string \<Rightarrow> u8 \<Rightarrow> (topic_filter \<times> qos \<times> string option) option run" where
  "entry_filter filter_str qos_raw =
     (case filter_new filter_str of
        Panic \<Rightarrow> Panic
      | Returns (Err _) \<Rightarrow> Returns None
      | Returns (Ok flt) \<Rightarrow>
          (case qos_try_from qos_raw of
             Err _ \<Rightarrow> Returns None
           | Ok q \<Rightarrow>
               (case split_shared_filter flt of
                  Panic \<Rightarrow> Panic
                | Returns parts \<Rightarrow> Returns (map_option (\<lambda>(grp, inner). (inner, q, grp)) parts))))"

text \<open>The record of a decision in the session that owned the connection at the start, if there was one.\<close>

definition record_subscribe ::
  "('rx, 'c) kernel_env \<Rightarrow> arc option \<Rightarrow> topic_filter \<Rightarrow> u8 \<Rightarrow> bool \<Rightarrow> ('rx, 'f, 'c) kernel \<Rightarrow> ('rx, 'f, 'c) kernel" where
  "record_subscribe env owner flt qos_raw allow k =
     (case owner of
        Some a \<Rightarrow>
          update_session a (record_authz_decision (ke_now env) ''subscribe'' (filter_as_str flt) qos_raw False allow) k
      | None \<Rightarrow> k)"

definition db_denies_subscribe ::
  "('rx, 'c) kernel_env \<Rightarrow> string \<Rightarrow> string \<Rightarrow> arc option \<Rightarrow> topic_filter \<Rightarrow> ('rx, 'f, 'c) kernel \<Rightarrow> bool" where
  "db_denies_subscribe env tenant client_id owner flt k =
     (if ke_db env = None then False
      else
        let username = Option.bind owner (\<lambda>a. s_username (deref (k_sessions k) a));
            is_local = (case username of Some u \<Rightarrow> ke_has_user env tenant u | None \<Rightarrow> False) in
        \<not> is_local \<and>
        \<not> ke_db_subscribe env tenant (case username of Some u \<Rightarrow> u | None \<Rightarrow> client_id) flt)"

text \<open>The part of the loop for a valid filter: access rules, router, session.\<close>

definition grant_one ::
  "('rx, 'c) kernel_env \<Rightarrow> u64 \<Rightarrow> string \<Rightarrow> arc option \<Rightarrow> string \<Rightarrow> topic_filter \<Rightarrow> qos \<Rightarrow> string option
   \<Rightarrow> u8 \<times> bool \<times> bool \<times> u8 \<times> u32 \<Rightarrow> ('rx, 'f, 'c) kernel \<Rightarrow> (u8 \<times> granted_sub option) \<times> ('rx, 'f, 'c) kernel" where
  "grant_one env conn_id tenant owner client_id flt q grp opts k =
     (let (qos_raw, no_local, rap, rh, sub_id) = opts in
      if \<not> ke_authorize_subscribe env tenant client_id flt
      then ((V5_SUBACK_NOT_AUTHORIZED, None), record_subscribe env owner flt qos_raw False k)
      else if db_denies_subscribe env tenant client_id owner flt k then ((V5_SUBACK_NOT_AUTHORIZED, None), k)
      else
        let existed = (case owner of
                         Some a \<Rightarrow> map_of (s_subscriptions (deref (k_sessions k) a)) flt \<noteq> None | None \<Rightarrow> False);
            sub = (sub_with_options client_id conn_id q no_local rap rh sub_id)\<lparr>sub_group := grp, sub_tenant := tenant\<rparr>;
            (stored, r) = router_subscribe flt sub (k_router k);
            k = k\<lparr>k_router := r\<rparr> in
        if \<not> stored then ((V5_SUBACK_QUOTA_EXCEEDED, None), k)
        else
          let k = record_subscribe env owner flt qos_raw True k;
              k = k\<lparr>k_sessions := add_subscription_with_options_in_tenant tenant client_id flt q
                     (bool_u8 no_local) (bool_u8 rap) rh (k_sessions k)\<rparr> in
          ((qos_raw, Some \<lparr>gs_filter = flt, gs_qos = qos_raw, gs_sub_id = sub_id,
             gs_send_retained = (if rh = 1 then \<not> existed else rh \<noteq> 2)\<rparr>), k))"

definition subscribe_one ::
  "('rx, 'c) kernel_env \<Rightarrow> u64 \<Rightarrow> string \<Rightarrow> arc option \<Rightarrow> string \<Rightarrow> subscribe_entry \<Rightarrow> ('rx, 'f, 'c) kernel
   \<Rightarrow> ((u8 \<times> granted_sub option) \<times> ('rx, 'f, 'c) kernel) run" where
  "subscribe_one env conn_id tenant owner client_id entry k =
     (case entry_options entry of
        Err code \<Rightarrow> Returns ((code, None), k)
      | Ok opts \<Rightarrow>
          let (qos_raw, no_local, rap, rh, sub_id) = opts;
              (rewritten, r) = rewrite_subscribe (ke_regex env) (se_filter entry) (k_router k);
              k = k\<lparr>k_router := r\<rparr>;
              filter_str = (case rewritten of Some flt \<Rightarrow> flt | None \<Rightarrow> se_filter entry) in
          if strip_delayed_prefix filter_str \<noteq> None then Returns ((entry_invalid entry, None), k)
          else case entry_filter filter_str qos_raw of
            Panic \<Rightarrow> Panic
          | Returns None \<Rightarrow> Returns ((entry_invalid entry, None), k)
          | Returns (Some (flt, q, grp)) \<Rightarrow>
              if no_local \<and> grp \<noteq> None then Returns ((V5_SUBACK_FILTER_INVALID, None), k)
              else Returns (grant_one env conn_id tenant owner client_id flt q grp opts k))"

fun subscribe_all ::
  "('rx, 'c) kernel_env \<Rightarrow> u64 \<Rightarrow> string \<Rightarrow> arc option \<Rightarrow> string \<Rightarrow> subscribe_entry list \<Rightarrow> ('rx, 'f, 'c) kernel
   \<Rightarrow> (u8 list \<times> granted_sub list \<times> ('rx, 'f, 'c) kernel) run" where
  "subscribe_all env conn_id tenant owner client_id [] k = Returns ([], [], k)"
| "subscribe_all env conn_id tenant owner client_id (entry # entries) k =
    (case subscribe_one env conn_id tenant owner client_id entry k of
       Panic \<Rightarrow> Panic
     | Returns ((code, grant), k) \<Rightarrow>
         (case subscribe_all env conn_id tenant owner client_id entries k of
            Panic \<Rightarrow> Panic
          | Returns (codes, granted, k) \<Rightarrow>
              Returns (code # codes, (case grant of Some g \<Rightarrow> g # granted | None \<Rightarrow> granted), k)))"

text \<open>One retained message for a grant. \<open>None\<close>: no packet identifier is free.\<close>

definition retained_one ::
  "u64 \<Rightarrow> arc option \<Rightarrow> granted_sub \<Rightarrow> stored_message \<Rightarrow> broker_frame list \<times> ('rx, 'f, 'c) kernel
   \<Rightarrow> (broker_frame list \<times> ('rx, 'f, 'c) kernel) option" where
  "retained_one conn_id owner grant msg acc =
     (let (frames, k) = acc;
          effective = min (gs_qos grant) (qos_to_u8 (sm_qos msg));
          refused = Option.bind owner (\<lambda>a. v5_egress_refused (deref (k_sessions k) a) effective
            (length (topic_as_str (sm_topic msg))) (length (sm_payload msg))) in
      case refused of
        Some rc \<Rightarrow>
          Some (frames, k\<lparr>k_metrics := (if rc = V5_RC_QUOTA_EXCEEDED then inc_inflight_dropped (k_metrics k)
            else inc_messages_dropped (k_metrics k))\<rparr>)
      | None \<Rightarrow>
          (case (if effective = 0 then Some (0, k)
                 else case owner of
                   None \<Rightarrow> Some (1, k)
                 | Some a \<Rightarrow> map_option (\<lambda>(pid, s). (pid, update_session a (\<lambda>_. s) k))
                     (next_packet_id (deref (k_sessions k) a))) of
             None \<Rightarrow> None
           | Some (downlink_id, k) \<Rightarrow>
               let k = (case owner of
                          None \<Rightarrow> k
                        | Some a \<Rightarrow>
                            if effective \<noteq> 2 then k
                            else
                              let (tracked, s) = track_qos2_outbound
                                    \<lparr>qo_packet_id = downlink_id, qo_topic = sm_topic msg, qo_retain = True,
                                     qo_payload = sm_payload msg, qo_rec_received = False\<rparr> (deref (k_sessions k) a);
                                  k = update_session a (\<lambda>_. s) k in
                              if tracked then k else k\<lparr>k_metrics := inc_inflight_dropped (k_metrics k)\<rparr>);
                   sub_id = (if gs_sub_id grant \<le> MAX_SUBSCRIPTION_ID then gs_sub_id grant else 0);
                   meta = publish_head (topic_as_str (sm_topic msg)) downlink_id effective True False
                     @ encode_topic_alias 0 @ (if sub_id \<noteq> 0 then u32_to_be sub_id else []) in
               Some (case ok_frame (frame_new PublishOut conn_id 0 meta (sm_payload msg)) of
                       Some f \<Rightarrow> frames @ [f] | None \<Rightarrow> frames, k)))"

fun retained_all ::
  "u64 \<Rightarrow> arc option \<Rightarrow> granted_sub \<Rightarrow> stored_message list \<Rightarrow> broker_frame list \<times> ('rx, 'f, 'c) kernel
   \<Rightarrow> (broker_frame list \<times> ('rx, 'f, 'c) kernel) option" where
  "retained_all conn_id owner grant [] acc = Some acc"
| "retained_all conn_id owner grant (msg # msgs) acc =
    Option.bind (retained_one conn_id owner grant msg acc) (retained_all conn_id owner grant msgs)"

fun retained_grants ::
  "('rx, 'c) kernel_env \<Rightarrow> u64 \<Rightarrow> arc option \<Rightarrow> string \<Rightarrow> granted_sub list \<Rightarrow> broker_frame list \<times> ('rx, 'f, 'c) kernel
   \<Rightarrow> (broker_frame list \<times> ('rx, 'f, 'c) kernel) option" where
  "retained_grants env conn_id owner tenant [] acc = Some acc"
| "retained_grants env conn_id owner tenant (grant # grants) acc =
    (if \<not> gs_send_retained grant then retained_grants env conn_id owner tenant grants acc
     else case ke_retained env (gs_filter grant) tenant of
       None \<Rightarrow> retained_grants env conn_id owner tenant grants acc
     | Some matched \<Rightarrow>
         Option.bind (retained_all conn_id owner grant matched acc) (retained_grants env conn_id owner tenant grants))"

definition apply_subscribe ::
  "('rx, 'c) kernel_env \<Rightarrow> broker_frame \<Rightarrow> ('rx, 'f, 'c) kernel
   \<Rightarrow> (broker_frame option \<times> broker_frame list \<times> ('rx, 'f, 'c) kernel) run option" where
  "apply_subscribe env f k =
     (let conn_id = h_conn_id (f_header f);
          k = k\<lparr>k_counters := (k_counters k)\<lparr>kc_subscribe_received := kc_subscribe_received (k_counters k) + 1\<rparr>\<rparr> in
      case decode_subscribe_meta (f_metadata f) of
        None \<Rightarrow> Some (Returns (None, [], k))
      | Some (packet_id, client_id, subs) \<Rightarrow>
          let tenant = session_tenant_for_conn k conn_id client_id;
              owner = get_in_tenant (k_sessions k) tenant client_id in
          case subscribe_all env conn_id tenant owner client_id subs k of
            Panic \<Rightarrow> Some Panic
          | Returns (codes, granted, k) \<Rightarrow>
              let k = (if granted \<noteq> [] then refresh_subscription_stats k else k);
                  reply = ok_frame (frame_new SubAckOut conn_id (h_sequence_no (f_header f))
                    (u16_to_be packet_id @ codes) []);
                  session = (case session_for_conn_if_client k conn_id client_id of
                               Some a \<Rightarrow> Some a | None \<Rightarrow> manager_get (k_sessions k) client_id);
                  subscriber_tenant = (case session of
                    Some a \<Rightarrow> s_tenant_id (deref (k_sessions k) a) | None \<Rightarrow> DEFAULT_TENANT_ID) in
              map_option (\<lambda>(retained, k). Returns (reply, retained, k))
                (retained_grants env conn_id session subscriber_tenant granted ([], k)))"

section \<open>Topic aliases of a publish\<close>

definition resolve_inbound_alias_topic ::
  "u64 \<Rightarrow> string \<Rightarrow> u16 \<Rightarrow> ('rx, 'f, 'c) kernel \<Rightarrow> string option \<times> ('rx, 'f, 'c) kernel" where
  "resolve_inbound_alias_topic conn_id raw alias k =
     (if alias = NO_TOPIC_ALIAS then (None, k)
      else case owner_session k conn_id of
        None \<Rightarrow> (None, k)
      | Some a \<Rightarrow>
          let s = deref (k_sessions k) a in
          if check_inbound_alias alias (s_inbound_alias_max s) \<noteq> Ok ()
            \<or> \<not> alias_in_range alias (s_inbound_alias_max s) then (None, k)
          else if raw \<noteq> [] then
            (case topic_new raw of
               Err _ \<Rightarrow> (None, k)
             | Ok topic \<Rightarrow>
                 (case register_inbound_alias alias topic s of
                    (Ok _, s) \<Rightarrow> (Some (topic_as_str topic), update_session a (\<lambda>_. s) k)
                  | (Err _, s) \<Rightarrow> (None, update_session a (\<lambda>_. s) k)))
          else (map_option topic_as_str (resolve_inbound_alias alias s), k))"

definition REASON_TOPIC_ALIAS_INVALID :: u8 where
  "REASON_TOPIC_ALIAS_INVALID = 0x94"

definition unbind_swept ::
  "('rx, 'c) kernel_env \<Rightarrow> string \<Rightarrow> string \<Rightarrow> u64 \<Rightarrow> ('rx, 'f, 'c) kernel \<Rightarrow> ('rx, 'f, 'c) kernel" where
  "unbind_swept env tenant client_id conn_id k =
     (let (swept, m) = unbind_connection_in_tenant (ke_now env) (ke_now' env) tenant client_id conn_id (k_sessions k) in
      sweep tenant client_id swept (k\<lparr>k_sessions := m\<rparr>))"

text \<open>The branch for a connection without an entry in the index: the record of the default tenant.\<close>

definition unbind_unindexed ::
  "('rx, 'c) kernel_env \<Rightarrow> string \<Rightarrow> u64 \<Rightarrow> ('rx, 'f, 'c) kernel \<Rightarrow> ('rx, 'f, 'c) kernel" where
  "unbind_unindexed env client_id conn_id k =
     (let (swept, m) = unbind_connection (ke_now env) (ke_now' env) client_id conn_id (k_sessions k) in
      fold (unsubscribe_scoped client_id) swept (k\<lparr>k_sessions := m\<rparr>))"

definition order_alias_disconnect ::
  "('rx, 'c) kernel_env \<Rightarrow> u64 \<Rightarrow> ('rx, 'f, 'c) kernel \<Rightarrow> ('rx, 'f, 'c) kernel" where
  "order_alias_disconnect env conn_id k =
     (let k = (case ok_frame (frame_new ConnClose conn_id 0 [REASON_TOPIC_ALIAS_INVALID] []) of
                 Some close \<Rightarrow> snd (route_frame env conn_id close k) | None \<Rightarrow> k) in
      case key_for_conn (k_sessions k) conn_id of
        Some key \<Rightarrow> unbind_swept env (sk_tenant key) (sk_client_id key) conn_id k
      | None \<Rightarrow>
          (case client_id_for_conn (k_sessions k) conn_id of
             Some client_id \<Rightarrow> unbind_unindexed env client_id conn_id k
           | None \<Rightarrow> k))"

section \<open>Acknowledgements\<close>

text \<open>The record of a slow acknowledgement, which goes to a channel, is not modelled.\<close>

definition apply_puback :: "broker_frame \<Rightarrow> ('rx, 'f, 'c) kernel \<Rightarrow> ('rx, 'f, 'c) kernel" where
  "apply_puback f k =
     (case decode_puback_meta (f_metadata f) of
        None \<Rightarrow> k
      | Some packet_id \<Rightarrow>
          (case owner_session k (h_conn_id (f_header f)) of
             None \<Rightarrow> k
           | Some a \<Rightarrow> update_session a (\<lambda>s. snd (ack_inflight_timed packet_id s)) k))"

definition qos2_reply_with_reason :: "opcode \<Rightarrow> broker_frame \<Rightarrow> u16 \<Rightarrow> u8 \<Rightarrow> broker_frame option" where
  "qos2_reply_with_reason opc f packet_id reason_code =
     (if packet_id = 0 then None
      else ok_frame (frame_new opc (h_conn_id (f_header f)) (h_sequence_no (f_header f))
        (u16_to_be packet_id @ (if opc = PubRecOut \<or> reason_code \<noteq> 0 then [reason_code] else [])) []))"

definition qos2_reply :: "opcode \<Rightarrow> broker_frame \<Rightarrow> u16 \<Rightarrow> broker_frame option" where
  "qos2_reply opc f packet_id = qos2_reply_with_reason opc f packet_id 0"

definition apply_qos2_publish ::
  "broker_frame \<Rightarrow> topic \<Rightarrow> u16 \<Rightarrow> bool \<Rightarrow> ('rx, 'f, 'c) kernel \<Rightarrow> broker_frame option \<times> ('rx, 'f, 'c) kernel" where
  "apply_qos2_publish f topic packet_id retain k =
     (if packet_id = 0 then (None, k)
      else case owner_session k (h_conn_id (f_header f)) of
        None \<Rightarrow> (None, k)
      | Some a \<Rightarrow>
          let s = deref (k_sessions k) a in
          if has_qos2_inbound packet_id s then (qos2_reply PubRecOut f packet_id, k)
          else
            let (stored, s) = store_qos2_inbound packet_id
                  \<lparr>qi_topic = topic, qi_retain = retain, qi_payload = f_payload f\<rparr> s;
                k = update_session a (\<lambda>_. s) k in
            if \<not> stored then (None, k) else (qos2_reply PubRecOut f packet_id, k))"

text \<open>
  A PUBREL: either an answer, or the stored publish of a session with the client and the tenant under
  which it enters the ingress pipeline (or the queue of delayed publishes, when its topic has that
  prefix). After the pipeline the answer depends on whether the offline queues could be written.
\<close>

datatype pubrel_step =
  PubrelAnswer "broker_frame option"
| PubrelRoute arc u16 qos2_inbound_entry string string

definition apply_qos2_pubrel ::
  "broker_frame \<Rightarrow> ('rx, 'f, 'c) kernel \<Rightarrow> pubrel_step \<times> ('rx, 'f, 'c) kernel" where
  "apply_qos2_pubrel f k =
     (case decode_qos2_meta (f_metadata f) of
        None \<Rightarrow> (PubrelAnswer None, k)
      | Some packet_id \<Rightarrow>
          (case owner_session k (h_conn_id (f_header f)) of
             None \<Rightarrow> (PubrelAnswer (qos2_reply PubCompOut f packet_id), k)
           | Some a \<Rightarrow>
               let s = deref (k_sessions k) a;
                   (stored, s') = take_qos2_inbound packet_id s;
                   k = update_session a (\<lambda>_. s') k in
               (case stored of
                  None \<Rightarrow> (PubrelAnswer (qos2_reply PubCompOut f packet_id), k)
                | Some entry \<Rightarrow> (PubrelRoute a packet_id entry (s_client_id s) (s_tenant_id s), k))))"

definition finish_pubrel ::
  "broker_frame \<Rightarrow> arc \<Rightarrow> u16 \<Rightarrow> qos2_inbound_entry \<Rightarrow> u64 option \<Rightarrow> ('rx, 'f, 'c) kernel
   \<Rightarrow> broker_frame option \<times> ('rx, 'f, 'c) kernel" where
  "finish_pubrel f a packet_id entry before k =
     (if (case before of
            Some n \<Rightarrow> m_durable (k_sessions k) \<and> os_persist_failed (k_store k) > n
          | None \<Rightarrow> False)
      then (None, update_session a (\<lambda>s. snd (store_qos2_inbound packet_id entry s)) k)
      else (qos2_reply PubCompOut f packet_id, k))"

definition apply_qos2_pubrec ::
  "broker_frame \<Rightarrow> ('rx, 'f, 'c) kernel \<Rightarrow> broker_frame option \<times> ('rx, 'f, 'c) kernel" where
  "apply_qos2_pubrec f k =
     (case decode_qos2_meta (f_metadata f) of
        None \<Rightarrow> (None, k)
      | Some packet_id \<Rightarrow>
          (case owner_session k (h_conn_id (f_header f)) of
             None \<Rightarrow> (None, k)
           | Some a \<Rightarrow>
               let (done_now, s) = complete_qos2_pubrec packet_id (deref (k_sessions k) a);
                   k = update_session a (\<lambda>_. s) k in
               if done_now \<or> list_ex (\<lambda>e. qo_packet_id e = packet_id) (s_qos2_outbound s)
               then (qos2_reply PubRelOut f packet_id, k) else (None, k)))"

definition apply_qos2_pubcomp :: "broker_frame \<Rightarrow> ('rx, 'f, 'c) kernel \<Rightarrow> ('rx, 'f, 'c) kernel" where
  "apply_qos2_pubcomp f k =
     (case decode_qos2_meta (f_metadata f) of
        None \<Rightarrow> k
      | Some packet_id \<Rightarrow>
          (case owner_session k (h_conn_id (f_header f)) of
             None \<Rightarrow> k
           | Some a \<Rightarrow> update_session a (\<lambda>s. snd (ack_qos2_pubcomp packet_id s)) k))"

section \<open>Teardown\<close>

text \<open>A clean close drops the will of the session whose connection it is.\<close>

definition drop_will :: "arc option \<Rightarrow> u64 \<Rightarrow> ('rx, 'f, 'c) kernel \<Rightarrow> ('rx, 'f, 'c) kernel" where
  "drop_will owner conn_id k =
     (case owner of
        Some a \<Rightarrow>
          if s_conn_id (deref (k_sessions k) a) = Some conn_id
          then update_session a (\<lambda>s. snd (take_last_will s)) k else k
      | None \<Rightarrow> k)"

definition apply_unbind ::
  "('rx, 'c) kernel_env \<Rightarrow> broker_frame \<Rightarrow> ('rx, 'f, 'c) kernel \<Rightarrow> ('rx, 'f, 'c) kernel" where
  "apply_unbind env f k =
     (let conn_id = h_conn_id (f_header f);
          k = (case decode_unbind_meta (f_metadata f) of
                 None \<Rightarrow> k
               | Some client_id \<Rightarrow>
                   refresh_subscription_stats
                     (case key_for_conn (k_sessions k) conn_id of
                        Some key \<Rightarrow>
                          unbind_swept env (sk_tenant key) (sk_client_id key) conn_id
                            (drop_will (get_in_tenant (k_sessions k) (sk_tenant key) (sk_client_id key)) conn_id k)
                      | None \<Rightarrow>
                          unbind_unindexed env client_id conn_id
                            (drop_will (manager_get (k_sessions k) client_id) conn_id k))) in
      k\<lparr>k_conns := unregister conn_id (k_conns k)\<rparr>)"

text \<open>The will that a close without DISCONNECT publishes: message, client and tenant.\<close>

record will_publish =
  wp_will :: stored_will
  wp_client_id :: string
  wp_tenant :: string

definition will_verdict ::
  "('rx, 'c) kernel_env \<Rightarrow> string \<Rightarrow> string \<Rightarrow> string option \<Rightarrow> topic \<Rightarrow> bool" where
  "will_verdict env tenant client_id username topic \<longleftrightarrow>
     (ke_db env \<noteq> None \<longrightarrow>
        (case username of Some u \<Rightarrow> ke_has_user env tenant u | None \<Rightarrow> False) \<or>
        ke_db_publish env tenant (case username of Some u \<Rightarrow> u | None \<Rightarrow> client_id) topic) \<and>
     (ke_webhook env \<noteq> None \<longrightarrow> ke_webhook_publish env tenant client_id topic)"

definition apply_disconnect ::
  "('rx, 'c) kernel_env \<Rightarrow> broker_frame \<Rightarrow> ('rx, 'f, 'c) kernel \<Rightarrow> will_publish option \<times> ('rx, 'f, 'c) kernel" where
  "apply_disconnect env f k =
     (let conn_id = h_conn_id (f_header f);
          gone = k\<lparr>k_conns := unregister conn_id (k_conns k)\<rparr> in
      case decode_unbind_meta (f_metadata f) of
        None \<Rightarrow> (None, gone)
      | Some client_id \<Rightarrow>
          (case (case session_for_conn_if_client k conn_id client_id of
                   Some a \<Rightarrow> Some a | None \<Rightarrow> manager_get (k_sessions k) client_id) of
             None \<Rightarrow> (None, gone)
           | Some a \<Rightarrow>
               let s = deref (k_sessions k) a in
               if s_conn_id s \<noteq> Some conn_id then (None, k)
               else
                 let (will, s') = take_last_will s;
                     k = unbind_swept env (s_tenant_id s) (s_client_id s) conn_id (update_session a (\<lambda>_. s') k);
                     k = refresh_subscription_stats k;
                     k = k\<lparr>k_conns := unregister conn_id (k_conns k)\<rparr> in
                 (case will of
                    None \<Rightarrow> (None, k)
                  | Some will \<Rightarrow>
                      if ke_is_banned env client_id (s_username s) (s_peerhost s) then (None, k)
                      else
                        let allowed = ke_authorize_publish env (s_tenant_id s) client_id (sw_topic will);
                            k = update_session a (record_authz_decision (ke_now' env) ''publish''
                              (topic_as_str (sw_topic will)) (qos_to_u8 (sw_qos will)) (sw_retain will) allowed) k in
                        if \<not> allowed \<or> \<not> will_verdict env (s_tenant_id s) client_id (s_username s) (sw_topic will)
                        then (None, k)
                        else (Some \<lparr>wp_will = will, wp_client_id = client_id, wp_tenant = s_tenant_id s\<rparr>, k))))"

definition V5_DISCONNECT_WITH_WILL :: u8 where
  "V5_DISCONNECT_WITH_WILL = 0x04"

definition apply_disconnect_with_unbind_meta ::
  "('rx, 'c) kernel_env \<Rightarrow> broker_frame \<Rightarrow> ('rx, 'f, 'c) kernel \<Rightarrow> will_publish option \<times> ('rx, 'f, 'c) kernel" where
  "apply_disconnect_with_unbind_meta env f k =
     (let conn_id = h_conn_id (f_header f);
          gone = k\<lparr>k_conns := unregister conn_id (k_conns k)\<rparr> in
      case decode_unbind_meta_full (f_metadata f) of
        None \<Rightarrow> (None, gone)
      | Some (client_id, _) \<Rightarrow>
          (case frame_new DisconnectIn conn_id (h_sequence_no (f_header f)) (string_bytes client_id) [] of
             Ok stripped \<Rightarrow> apply_disconnect env stripped k
           | Err _ \<Rightarrow> (None, gone)))"

text \<open>The connections of a transport that a close notice or an unbind names are forgotten.\<close>

definition forget_conn ::
  "u64 \<Rightarrow> bound_list \<Rightarrow> ('rx, 'f, 'c) kernel \<Rightarrow> bound_list \<times> ('rx, 'f, 'c) kernel" where
  "forget_conn conn_id served k =
     (let rest = filter (\<lambda>(_, c). c \<noteq> conn_id) served;
          gone = length served - length rest;
          k = (dec_connections ^^ gone) k in
      (rest, if gone \<noteq> 0 then refresh_subscription_stats k else k))"

definition handle_unbind ::
  "('rx, 'c) kernel_env \<Rightarrow> broker_frame \<Rightarrow> bound_list \<Rightarrow> ('rx, 'f, 'c) kernel
   \<Rightarrow> will_publish option \<times> bound_list \<times> ('rx, 'f, 'c) kernel" where
  "handle_unbind env f served k =
     (let (will, k) = (if decode_unbind_reason (f_metadata f) = Some V5_DISCONNECT_WITH_WILL
                       then apply_disconnect_with_unbind_meta env f k else (None, apply_unbind env f k)) in
      (will, forget_conn (h_conn_id (f_header f)) served k))"

definition handle_disconnect ::
  "('rx, 'c) kernel_env \<Rightarrow> broker_frame \<Rightarrow> bound_list \<Rightarrow> ('rx, 'f, 'c) kernel
   \<Rightarrow> will_publish option \<times> bound_list \<times> ('rx, 'f, 'c) kernel" where
  "handle_disconnect env f served k =
     (let (will, k) = apply_disconnect env f k in
      (will, forget_conn (h_conn_id (f_header f)) served k))"

text \<open>A dead transport detaches every session that it served.\<close>

definition detach_one ::
  "('rx, 'c) kernel_env \<Rightarrow> session_key \<times> u64 \<Rightarrow> ('rx, 'f, 'c) kernel \<Rightarrow> ('rx, 'f, 'c) kernel" where
  "detach_one env entry k =
     (let (key, conn_id) = entry in dec_connections (unbind_swept env (sk_tenant key) (sk_client_id key) conn_id k))"

definition detach ::
  "('rx, 'c) kernel_env \<Rightarrow> bound_list \<Rightarrow> chan \<Rightarrow> ('rx, 'f, 'c) kernel \<Rightarrow> ('rx, 'f, 'c) kernel" where
  "detach env served tx k =
     (let k = k\<lparr>k_conns := prune_sender tx (k_conns k)\<rparr> in
      if served = [] then k
      else refresh_subscription_stats (fold (detach_one env) served k))"

end
