(* ===== verification/Kernel_Laws.thy ===== *)
theory Kernel_Laws
  imports Kernel
begin

text \<open>
  The acknowledgement handlers of the kernel act on the session that owns the connection exactly as
  the transitions of theory \<open>Session_Laws\<close>, and on no other session; a PUBREL whose fan-out could
  not be made durable is the transition that puts the stored publish back.
\<close>

section \<open>The session behind a connection\<close>

lemma lookup_valid:
  "handles_ok m \<Longrightarrow> lookup2 (m_sessions m) t c = Some a \<Longrightarrow> a < length (m_heap m)"
  by (auto simp: handles_ok_def get_in_tenant_def)

lemma owner_valid:
  assumes "manager_ok (k_sessions k)" and "owner_session k conn_id = Some a"
  shows "a < length (m_heap (k_sessions k))"
proof -
  obtain t c where "lookup2 (m_sessions (k_sessions k)) t c = Some a"
    using assms(2)
    by (auto simp: owner_session_def session_for_conn_def manager_get_def get_in_tenant_def bind_eq_Some_conv
        split: option.splits)
  with manager_okD(1) [OF assms(1)] show ?thesis by (rule lookup_valid)
qed

text \<open>One transition of the session at a handle, and nothing else in the heap.\<close>

definition steps_at :: "arc \<Rightarrow> session_event \<Rightarrow> 'f manager \<Rightarrow> 'f manager \<Rightarrow> bool" where
  "steps_at a e m m' \<longleftrightarrow> session_step (deref m a) e (deref m' a) \<and> (\<forall>b. b \<noteq> a \<longrightarrow> deref m' b = deref m b)
     \<and> m_sessions m' = m_sessions m \<and> m_conn_index m' = m_conn_index m"

lemma steps_at_update:
  assumes "a < length (m_heap (k_sessions k))" and "session_step (deref (k_sessions k) a) e (g (deref (k_sessions k) a))"
  shows "steps_at a e (k_sessions k) (k_sessions (update_session a g k))"
  using assms by (auto simp: steps_at_def update_session_def with_session_def deref_def)

section \<open>Acknowledgements\<close>

definition handled :: "broker_frame \<Rightarrow> ('rx, 'f, 'c) kernel \<Rightarrow> (u16 \<Rightarrow> session_event) \<Rightarrow> ('rx, 'f, 'c) kernel \<Rightarrow> bool" where
  "handled f k e k' \<longleftrightarrow> k' = k \<or> (\<exists>a pid. owner_session k (h_conn_id (f_header f)) = Some a
     \<and> steps_at a (e pid) (k_sessions k) (k_sessions k'))"

theorem acknowledgements_are_steps:
  assumes "manager_ok (k_sessions k)"
  shows "handled f k Puback (apply_puback f k) \<and> handled f k Pubrec (snd (apply_qos2_pubrec f k))
    \<and> handled f k Pubcomp (apply_qos2_pubcomp f k)
    \<and> handled f k (\<lambda>pid. Publish_qos2 pid \<lparr>qi_topic = topic, qi_retain = retain, qi_payload = f_payload f\<rparr>)
        (snd (apply_qos2_publish f topic packet_id retain k))"
proof -
  have step: "handled f k e (update_session a g k)"
    if "owner_session k (h_conn_id (f_header f)) = Some a"
      "session_step (deref (k_sessions k) a) (e pid) (g (deref (k_sessions k) a))" for a e g pid
    using that steps_at_update [where g = g, OF owner_valid [OF assms that(1)]] by (auto simp: handled_def)
  have same: "handled f k e k" for e by (simp add: handled_def)
  have "handled f k Puback (apply_puback f k)"
    by (auto simp: apply_puback_def same split: option.split intro!: step session_step.puback)
  moreover have "handled f k Pubcomp (apply_qos2_pubcomp f k)"
    by (auto simp: apply_qos2_pubcomp_def same split: option.split intro!: step session_step.pubcomp)
  moreover have "handled f k Pubrec (snd (apply_qos2_pubrec f k))"
    by (auto simp: apply_qos2_pubrec_def same Let_def case_prod_unfold split: option.split intro!: step session_step.pubrec)
  moreover have "handled f k (\<lambda>pid. Publish_qos2 pid \<lparr>qi_topic = topic, qi_retain = retain, qi_payload = f_payload f\<rparr>)
        (snd (apply_qos2_publish f topic packet_id retain k))"
    by (auto simp: apply_qos2_publish_def same Let_def case_prod_unfold split: option.split
        intro!: step [where pid = packet_id] session_step.publish_qos2)
  ultimately show ?thesis by simp
qed

theorem pubrel_is_step:
  assumes "manager_ok (k_sessions k)" and "apply_qos2_pubrel f k = (PubrelRoute a pid entry client tenant, k1)"
    and "deref (k_sessions k2) a = deref (k_sessions k1) a" and "a < length (m_heap (k_sessions k2))"
    and "finish_pubrel f a pid entry before k2 = (reply, k3)"
  shows "steps_at a (Pubrel pid) (k_sessions k) (k_sessions k1)
    \<and> fst (take_qos2_inbound pid (deref (k_sessions k) a)) = Some entry
    \<and> (deref (k_sessions k3) a = deref (k_sessions k1) a \<or>
       reply = None \<and> session_step (deref (k_sessions k) a) (Pubrel_withheld pid) (deref (k_sessions k3) a))"
proof -
  let ?s = "deref (k_sessions k) a"
  have o: "owner_session k (h_conn_id (f_header f)) = Some a"
    and k1: "k1 = update_session a (\<lambda>_. snd (take_qos2_inbound pid ?s)) k"
    and t: "fst (take_qos2_inbound pid ?s) = Some entry"
    using assms(2) by (auto simp: apply_qos2_pubrel_def Let_def case_prod_unfold split: option.splits)
  note v = owner_valid [OF assms(1) o]
  have d1: "deref (k_sessions k1) a = snd (take_qos2_inbound pid ?s)"
    using v by (simp add: k1 update_session_def with_session_def deref_def)
  have 1: "steps_at a (Pubrel pid) (k_sessions k) (k_sessions k1)"
    unfolding k1 using v by (rule steps_at_update) (rule session_step.pubrel)
  have "deref (k_sessions k3) a = deref (k_sessions k1) a \<or>
      reply = None \<and> deref (k_sessions k3) a = snd (store_qos2_inbound pid entry (snd (take_qos2_inbound pid ?s)))"
    using assms(3-5) d1 by (auto simp: finish_pubrel_def update_session_def with_session_def deref_def split: if_splits)
  moreover have "session_step ?s (Pubrel_withheld pid) (snd (store_qos2_inbound pid entry (snd (take_qos2_inbound pid ?s))))"
    by (rule session_step.pubrel_withheld) (use t in \<open>simp add: prod_eq_iff\<close>)
  ultimately show ?thesis using 1 t by metis
qed

end
