(* ===== verification/Spec2Isabelle.thy ===== *)
theory Spec2Isabelle
  imports Topics Wire_Packets BrokerLink Router_Runs Delivery_Laws Link_Messages Kernel_Laws
begin

text \<open>
  Verification of the IndraMQTT broker: the Rust kernel and its link to the Erlang edge.

  \<^bold>\<open>The program.\<close> MQTT clients connect to the edge (\<^verbatim>\<open>beam/src\<close>), which talks to the kernel
  (\<^verbatim>\<open>crates/broker-node\<close>) in frames over a few lanes (\<^verbatim>\<open>crates/brokerlink\<close>); the kernel can also decode
  MQTT itself (\<^verbatim>\<open>crates/broker-protocol\<close>). The kernel binds a connection to a session of a tenant
  (\<^verbatim>\<open>crates/broker-session\<close>), registers its subscriptions in the router (\<^verbatim>\<open>crates/broker-router\<close>), fans a
  publish out to the matching subscriptions, sends frames through a table of connections, and buffers
  for clients that are away in a queue with a file behind it (\<^verbatim>\<open>crates/broker-storage\<close>).

  \<^bold>\<open>Conventions.\<close> Structs are records, enums datatypes, machine integers words, and sizes that the
  code keeps as \<open>usize\<close> and never wraps natural numbers. A \<open>Result\<close> is a sum with \<open>Err\<close> and \<open>Ok\<close>, a
  function that may panic returns a value of type \<open>run\<close>. Strings are lists of the characters of
  their UTF-8 bytes. Hash maps are association lists, and where the code iterates over one the laws do
  not depend on the order. Shared sessions are addressed by handles into a heap. Locks and atomics are
  left out: an operation that the code runs under a lock is one step. The clock, the outcome of
  every system call, the regular expression engine, the channels of the asynchronous runtime,
  floating-point arithmetic, and the verdicts of authenticators and access rules are arguments.

  \<^bold>\<open>Theories and sources.\<close>
  \<^item> \<open>Broker_Prelude\<close>: results, words and bytes, UTF-8, list and string functions of the Rust library;
    the interfaces \<open>exact_codec\<close>, \<open>exact_list_codec\<close> and \<open>incremental\<close>.
  \<^item> \<open>Topics\<close>: \<^verbatim>\<open>broker-protocol/src/lib.rs\<close> and \<^verbatim>\<open>v5.rs\<close> (QoS, topics, filters, alias helpers).
  \<^item> \<open>Wire\<close>, \<open>Wire_Laws\<close>, \<open>Wire_Packets\<close>: \<^verbatim>\<open>broker-protocol/src/wire.rs\<close> (all decoders and encoders).
  \<^item> \<open>BrokerLink\<close>: \<^verbatim>\<open>brokerlink/src\<close> (opcodes, header, frame, codec, framed transport, lanes).
  \<^item> \<open>Subscriptions\<close>, \<open>Trie\<close>, \<open>Router\<close>, \<open>Router_Laws\<close>, \<open>Router_Runs\<close>: \<^verbatim>\<open>broker-router/src/lib.rs\<close>
    (subscription data, trie, shared groups, rewrite rules, topic index, the router itself).
  \<^item> \<open>Conn_Table\<close>: the connection table of the same file (routing, egress backlog, drop counters).
  \<^item> \<open>Offline_Store\<close>, \<open>Offline_Laws\<close>: \<^verbatim>\<open>broker-storage/src/offline.rs\<close> (record format, file names, append,
    load, rewrite, remove, listing).
  \<^item> \<open>Session\<close>, \<open>Session_Laws\<close>, \<open>Session_Offline\<close>: \<open>Session\<close> of \<^verbatim>\<open>broker-session/src/lib.rs\<close>.
  \<^item> \<open>Session_Manager\<close>, \<open>Manager_Laws\<close>: \<open>SessionManager\<close> of the same file.
  \<^item> \<open>Tenant\<close>: \<^verbatim>\<open>broker-session/src/tenant.rs\<close> (rules and assignment of a tenant).
  \<^item> \<open>Delivery\<close>, \<open>Delivery_Laws\<close>: delivery frames and fan-out of \<^verbatim>\<open>broker-node/src/main.rs\<close>.
  \<^item> \<open>Link_Meta\<close>: the metadata of frames in \<^verbatim>\<open>main.rs\<close>; \<open>Edge_Link\<close>: the same layouts and the frame codec
    as \<^verbatim>\<open>beam/src/indra_brokerlink.erl\<close> has them; \<open>Link_Laws\<close>, \<open>Link_Messages\<close>: what crosses the link.
  \<^item> \<open>Kernel\<close>, \<open>Kernel_Laws\<close>: the handlers of frames in \<^verbatim>\<open>main.rs\<close> (bind, automatic subscriptions, replay,
    subscribe, acknowledgements, teardown).

  \<^bold>\<open>What is shown.\<close>
  \<^item> Wire format: a PUBLISH goes through encoder and decoder unchanged, every encoded packet has the
    length that its header says, and the decoders below level 5 accept exactly the specified layouts.
  \<^item> Topics: the match loop implements the wildcard rules; which filters are refused, and which make
    the validation panic.
  \<^item> Router: after any run (\<open>router_trace\<close>) the trie refines a table of subscriptions keyed by
    filter, client and tenant. A match returns exactly its matching entries with one member of each
    shared group, within the tenant of the publisher. All tables are bounded and nothing is left
    when all subscriptions are removed.
  \<^item> Session: along every sequence of events (\<open>session_step\<close>) the QoS 1 window and its overflow are one
    bounded queue, a QoS 2 publish is taken for good once, identifiers are fresh, aliases are
    consistent, and all tables are bounded. The acknowledgement handlers of the kernel are such events.
  \<^item> Offline queue: over its histories (\<open>queue_history\<close>) what a session accepted is in the file after a
    restart; what a replay that is cut short can lose; a file cut at any byte or with a damaged byte
    is recovered up to the damage; and that an append behind a torn one is lost.
  \<^item> Manager: the operations keep the index, the counters and the tables of sessions consistent.
  \<^item> Connections: order and accounting of frames, and the bounds of a drain.
  \<^item> Delivery: a fan-out ends and serves every matched subscription, and what an acknowledgement of a
    QoS 1 publish guarantees.
  \<^item> Link: messages of edge and kernel arrive as sent, with the exact conditions, and the messages of
    which two share one encoding; both ends have the same frame format; lanes keep order.

  \<^bold>\<open>Interfaces.\<close> \<open>exact_codec\<close> (a reader that accepts exactly the images of a writer) is interpreted on
  the readers of the wire format, on the frames of the offline file and on the strings of the link;
  \<open>incremental\<close> on the frame codec; \<open>subscription_index\<close> on the trie, and the router is verified
  against it; \<open>queue_store\<close> on the offline store, and the session queue is verified against it;
  \<open>slot_store\<close> on the connection table.

  \<^bold>\<open>Loops and bounds.\<close> The search for a free packet identifier is a \<open>partial_function\<close>: \<open>None\<close> is the
  search that does not end, and it is shown to end exactly when an identifier is free. All other
  loops end by their structure or by a measure; no definition uses fuel. The reads of a socket and the
  writes of a lane are finite lists of outcomes.

  \<^bold>\<open>Assumptions of the delivery laws.\<close> An append to a queue file may fail in every way; the histories
  of \<open>Session_Offline\<close> leave out only one that breaks off inside a record, whose effect is stated
  separately. The fan-out laws assume the invariant \<open>manager_ok\<close>, which the operations of the manager
  keep, and queue names that the store accepts.

  \<^bold>\<open>Not modelled.\<close> The asynchronous tasks, sockets and timers of the node and of the edge's connection
  processes; the ingress pipeline between the checks of a publish and its fan-out (rules, retained
  writes, cluster, delayed publishes); persistent streams; the back ends of authentication, whose
  verdicts are arguments; cluster, licence, configuration, rule engine, connectors, management API
  and protocol gateways, which are network services or call libraries.
\<close>

end
